(* ===== verification/Gw_Prelude.thy ===== *)
theory Gw_Prelude
  imports Complex_Main "HOL-Library.AList" "HOL-Library.Sublist"
begin

section \<open>Prelude: the Python values the gateway computes with\<close>

text \<open>
  Shared vocabulary of the development. A Python \<open>str\<close> or \<open>bytes\<close> is a HOL \<open>string\<close>
  holding its UTF-8 bytes, so \<open>len\<close> of a body counts bytes as the code does; the
  operations below are exact on ASCII and treat a non-ASCII byte as an ordinary
  character (non-ASCII white space is not recognised as white space). A Python \<open>dict\<close>
  whose order is observable is an association list updated with \<open>AList.update\<close>, which
  keeps the position of an existing key and appends a new one, as Python does. A clock
  reading and every other Python \<open>float\<close> of the gateway's own arithmetic is a \<open>real\<close>:
  rounding is not modelled. An exception is a value of \<open>py_exn\<close>, carried by the left
  side of a sum.
\<close>

named_theorems gw_defs \<open>one-step definitions of the components, unfolded together\<close>
named_theorems gw_inv \<open>operations that keep a component invariant\<close>

subsection \<open>Exceptions\<close>

text \<open>The exception classes whose difference the gateway's \<open>except\<close> clauses can see.
  \<open>CancelledError\<close> is a \<open>BaseException\<close> and no \<open>Exception\<close>: \<open>except Exception\<close> lets it
  pass.\<close>

datatype py_exn =
    ValueError | TypeError | KeyError | IndexError | AttributeError | OverflowError
  | RuntimeError | CancelledError

definition is_Exception :: "py_exn \<Rightarrow> bool" where
  "is_Exception e \<longleftrightarrow> e \<noteq> CancelledError"

text \<open>\<open>type(e).__name__\<close>.\<close>

fun exn_name :: "py_exn \<Rightarrow> string" where
  "exn_name ValueError = ''ValueError''"
| "exn_name TypeError = ''TypeError''"
| "exn_name KeyError = ''KeyError''"
| "exn_name IndexError = ''IndexError''"
| "exn_name AttributeError = ''AttributeError''"
| "exn_name OverflowError = ''OverflowError''"
| "exn_name RuntimeError = ''RuntimeError''"
| "exn_name CancelledError = ''CancelledError''"

definition bindE :: "'e + 'a \<Rightarrow> ('a \<Rightarrow> 'e + 'b) \<Rightarrow> 'e + 'b" where
  "bindE m f = (case m of Inl e \<Rightarrow> Inl e | Inr x \<Rightarrow> f x)"

lemma bindE_simps [simp]: "bindE (Inl e) f = Inl e" "bindE (Inr x) f = f x"
  by (simp_all add: bindE_def)

lemma bindE_Inr: "bindE m f = Inr y \<longleftrightarrow> (\<exists>x. m = Inr x \<and> f x = Inr y)"
  by (cases m) auto

lemma bindE_Inl: "bindE m f = Inl e \<longleftrightarrow> m = Inl e \<or> (\<exists>x. m = Inr x \<and> f x = Inl e)"
  by (cases m) auto

subsection \<open>Strings\<close>

definition py_space :: "char \<Rightarrow> bool" where
  "py_space c \<longleftrightarrow> (let n = (of_char c :: nat) in n = 32 \<or> (9 \<le> n \<and> n \<le> 13) \<or> (28 \<le> n \<and> n \<le> 31))"

definition bytes_space :: "char \<Rightarrow> bool" where
  "bytes_space c \<longleftrightarrow> (let n = (of_char c :: nat) in n = 32 \<or> (9 \<le> n \<and> n \<le> 13))"

definition strip_by :: "(char \<Rightarrow> bool) \<Rightarrow> string \<Rightarrow> string" where
  "strip_by p s = rev (dropWhile p (rev (dropWhile p s)))"

abbreviation py_strip :: "string \<Rightarrow> string" where
  "py_strip \<equiv> strip_by py_space"

abbreviation bytes_strip :: "string \<Rightarrow> string" where
  "bytes_strip \<equiv> strip_by bytes_space"

definition py_rstrip :: "char \<Rightarrow> string \<Rightarrow> string" where
  "py_rstrip c s = rev (dropWhile (\<lambda>x. x = c) (rev s))"

definition py_lower_char :: "char \<Rightarrow> char" where
  "py_lower_char c =
     (let n = (of_char c :: nat) in if 65 \<le> n \<and> n \<le> 90 then char_of (n + 32) else c)"

definition py_lower :: "string \<Rightarrow> string" where
  "py_lower s = map py_lower_char s"

definition startswith :: "string \<Rightarrow> string \<Rightarrow> bool" where
  "startswith s p \<longleftrightarrow> take (length p) s = p"

definition endswith :: "string \<Rightarrow> string \<Rightarrow> bool" where
  "endswith s p \<longleftrightarrow> length p \<le> length s \<and> drop (length s - length p) s = p"

text \<open>\<open>s.split(c)\<close> on a one-character separator: always at least one piece.\<close>

fun split_on :: "char \<Rightarrow> string \<Rightarrow> string list" where
  "split_on c [] = [[]]"
| "split_on c (x # xs) =
     (if x = c then [] # split_on c xs
      else (case split_on c xs of [] \<Rightarrow> [[x]] | w # ws \<Rightarrow> (x # w) # ws))"

text \<open>\<open>s.split()\<close>: the maximal runs of non-space characters.\<close>

fun words_acc :: "string \<Rightarrow> string \<Rightarrow> string list" where
  "words_acc w [] = (if w = [] then [] else [rev w])"
| "words_acc w (x # xs) =
     (if py_space x then (if w = [] then words_acc [] xs else rev w # words_acc [] xs)
      else words_acc (x # w) xs)"

definition py_split :: "string \<Rightarrow> string list" where
  "py_split s = words_acc [] s"

text \<open>\<open>sep.join(parts)\<close> and \<open>s.partition(c)\<close> on one character; \<open>partition\<close> answers the
  three parts, the separator empty when it does not occur.\<close>

fun py_join :: "string \<Rightarrow> string list \<Rightarrow> string" where
  "py_join sep [] = []"
| "py_join sep [x] = x"
| "py_join sep (x # y # zs) = x @ sep @ py_join sep (y # zs)"

definition py_partition :: "char \<Rightarrow> string \<Rightarrow> string \<times> string \<times> string" where
  "py_partition c s =
     (let a = takeWhile (\<lambda>x. x \<noteq> c) s; r = dropWhile (\<lambda>x. x \<noteq> c) s
      in case r of [] \<Rightarrow> (a, [], []) | x # t \<Rightarrow> (a, [x], t))"

text \<open>\<open>str(n)\<close> of an integer.\<close>

fun nat_digits :: "nat \<Rightarrow> string" where
  "nat_digits n = (if n < 10 then [char_of (48 + n)] else nat_digits (n div 10) @ [char_of (48 + n mod 10)])"

declare nat_digits.simps [simp del]

lemma char_of_eqI: "of_char c = (n::nat) \<Longrightarrow> char_of n = c"
  by (metis char_of_char)

lemma char_of_digits:
  "char_of (48::nat) = CHR ''0''" "char_of (49::nat) = CHR ''1''" "char_of (50::nat) = CHR ''2''"
  "char_of (51::nat) = CHR ''3''" "char_of (52::nat) = CHR ''4''" "char_of (53::nat) = CHR ''5''"
  "char_of (54::nat) = CHR ''6''" "char_of (55::nat) = CHR ''7''" "char_of (56::nat) = CHR ''8''"
  "char_of (57::nat) = CHR ''9''"
  by (rule char_of_eqI, simp)+

definition str_int :: "int \<Rightarrow> string" where
  "str_int i = (if i < 0 then CHR ''-'' # nat_digits (nat (- i)) else nat_digits (nat i))"

subsection \<open>Dictionaries\<close>

abbreviation dict_get :: "(string \<times> 'v) list \<Rightarrow> string \<Rightarrow> 'v option" where
  "dict_get d k \<equiv> map_of d k"

abbreviation dict_set :: "string \<Rightarrow> 'v \<Rightarrow> (string \<times> 'v) list \<Rightarrow> (string \<times> 'v) list" where
  "dict_set k v d \<equiv> AList.update k v d"

definition dict_setdefault ::
  "string \<Rightarrow> 'v \<Rightarrow> (string \<times> 'v) list \<Rightarrow> 'v \<times> (string \<times> 'v) list" where
  "dict_setdefault k v d =
     (case dict_get d k of Some x \<Rightarrow> (x, d) | None \<Rightarrow> (v, dict_set k v d))"

lemma dict_get_set [simp]: "dict_get (dict_set k v d) k' = (if k = k' then Some v else dict_get d k')"
  by (simp add: update_conv')

lemma keys_dict_set [simp]: "fst ` set (dict_set k v d) = insert k (fst ` set d)"
  by (induction d) auto

lemma dict_set_map_fst_in: "k \<in> fst ` set d \<Longrightarrow> map fst (dict_set k v d) = map fst d"
  by (induction d) auto

lemma dict_set_vals: "x \<in> set (dict_set k v d) \<Longrightarrow> x = (k, v) \<or> x \<in> set d"
  by (induction d) (auto split: if_splits)

lemma dict_set_vals_subset: "snd ` set (dict_set k v d) \<subseteq> insert v (snd ` set d)"
  by (force dest: dict_set_vals)

subsection \<open>Facts on strings\<close>

lemma py_rstrip_not_last: "s = [] \<or> last s \<noteq> c \<Longrightarrow> py_rstrip c s = s"
  by (cases s rule: rev_cases) (simp_all add: py_rstrip_def)

lemma py_rstrip_append [simp]: "py_rstrip c (s @ [c]) = py_rstrip c s"
  by (simp add: py_rstrip_def)

lemma py_rstrip_last: "py_rstrip c s = [] \<or> last (py_rstrip c s) \<noteq> c"
proof (induction s rule: rev_induct)
  case Nil
  show ?case by (simp add: py_rstrip_def)
next
  case (snoc x xs)
  show ?case
  proof (cases "x = c")
    case True
    with snoc show ?thesis by simp
  next
    case False
    then show ?thesis by (simp add: py_rstrip_def)
  qed
qed

lemma py_rstrip_idem [simp]: "py_rstrip c (py_rstrip c s) = py_rstrip c s"
  using py_rstrip_last [of c s] by (rule py_rstrip_not_last)

lemma startswith_append [simp]: "startswith (p @ s) p"
  by (simp add: startswith_def)

lemma endswith_append [simp]: "endswith (s @ p) p"
  by (simp add: endswith_def)

lemma endswith_iff: "endswith s p \<longleftrightarrow> (\<exists>t. s = t @ p)"
proof
  assume "endswith s p"
  then have "s = take (length s - length p) s @ p"
    by (metis append_take_drop_id endswith_def)
  then show "\<exists>t. s = t @ p" ..
qed auto

lemma startswith_iff: "startswith s p \<longleftrightarrow> (\<exists>t. s = p @ t)"
proof
  assume "startswith s p"
  then have "s = p @ drop (length p) s"
    by (metis append_take_drop_id startswith_def)
  then show "\<exists>t. s = p @ t" ..
qed auto

lemma split_on_not_Nil [simp]: "split_on c s \<noteq> []"
  by (induction s) (auto split: list.splits)

lemma split_on_no_sep: "w \<in> set (split_on c s) \<Longrightarrow> c \<notin> set w"
  by (induction s arbitrary: w) (fastforce split: if_splits list.splits)+

lemma split_on_single: "c \<notin> set s \<Longrightarrow> split_on c s = [s]"
  by (induction s) auto

lemma split_on_append: "c \<notin> set a \<Longrightarrow> split_on c (a @ c # b) = a # split_on c b"
  by (induction a) auto

lemma split_on_join: "(\<And>w. w \<in> set ws \<Longrightarrow> c \<notin> set w) \<Longrightarrow> ws \<noteq> [] \<Longrightarrow> split_on c (py_join [c] ws) = ws"
  by (induction "[c]" ws rule: py_join.induct) (auto simp: split_on_single split_on_append)

lemma join_split_on: "py_join [c] (split_on c s) = s"
proof (induction s)
  case Nil
  then show ?case by simp
next
  case (Cons x xs)
  obtain w ws where w: "split_on c xs = w # ws" by (cases "split_on c xs") auto
  with Cons show ?case by (cases ws) auto
qed

lemma py_partition_found:
  "c \<notin> set a \<Longrightarrow> py_partition c (a @ c # b) = (a, [c], b)"
proof -
  assume "c \<notin> set a"
  then have "takeWhile (\<lambda>x. x \<noteq> c) (a @ c # b) = a" and "dropWhile (\<lambda>x. x \<noteq> c) (a @ c # b) = c # b"
    by (induction a) auto
  then show ?thesis by (simp only: py_partition_def Let_def list.case)
qed

lemma py_partition_missing: "c \<notin> set s \<Longrightarrow> py_partition c s = (s, [], [])"
proof -
  assume "c \<notin> set s"
  then have "takeWhile (\<lambda>x. x \<noteq> c) s = s" and "dropWhile (\<lambda>x. x \<noteq> c) s = []"
    by (induction s) auto
  then show ?thesis by (simp only: py_partition_def Let_def list.case)
qed

lemma strip_by_hd: "strip_by p s = c # t \<Longrightarrow> \<not> p c"
proof -
  assume a: "strip_by p s = c # t"
  define d where "d = dropWhile p s"
  have "d = strip_by p s @ rev (takeWhile p (rev d))"
    by (metis d_def rev_append rev_rev_ident strip_by_def takeWhile_dropWhile_id)
  with a have "dropWhile p s = c # t @ rev (takeWhile p (rev d))" by (simp add: d_def)
  then show "\<not> p c" by (simp add: dropWhile_eq_Cons_conv)
qed

lemma strip_by_last: "strip_by p s = t @ [c] \<Longrightarrow> \<not> p c"
  by (metis dropWhile_eq_Cons_conv rev.simps(2) rev_rev_ident rev_swap strip_by_def)

lemma strip_by_id: "(s = [] \<or> \<not> p (hd s) \<and> \<not> p (last s)) \<Longrightarrow> strip_by p s = s"
proof -
  assume "s = [] \<or> \<not> p (hd s) \<and> \<not> p (last s)"
  then have "dropWhile p s = s" and "dropWhile p (rev s) = rev s"
    by (auto simp only: dropWhile_eq_self_iff hd_rev)
  then show ?thesis by (simp only: strip_by_def rev_rev_ident)
qed

lemma strip_by_idem [simp]: "strip_by p (strip_by p s) = strip_by p s"
proof (rule strip_by_id)
  show "strip_by p s = [] \<or> \<not> p (hd (strip_by p s)) \<and> \<not> p (last (strip_by p s))"
    using strip_by_hd [of p s] strip_by_last [of p s]
    by (metis append_butlast_last_id list.collapse)
qed

lemma strip_by_set: "set (strip_by p s) \<subseteq> set s"
  by (auto simp: strip_by_def dest!: set_dropWhileD)

lemma words_acc_nonempty: "w' \<in> set (words_acc w s) \<Longrightarrow> w' \<noteq> []"
  by (induction w s rule: words_acc.induct) (auto split: if_splits)

lemma words_acc_no_space:
  "w' \<in> set (words_acc w s) \<Longrightarrow> set w' \<subseteq> {c. \<not> py_space c} \<union> set w"
  by (induction w s rule: words_acc.induct) (fastforce split: if_splits)+

subsection \<open>Machines with an invariant\<close>

text \<open>
  The contract every stateful component offers: a step function and a predicate that
  each step keeps. What a client of the component gets is that any sequence of steps
  keeps it.
\<close>

locale invariant_machine =
  fixes step :: "'s \<Rightarrow> 'e \<Rightarrow> 's"
    and inv :: "'s \<Rightarrow> bool"
  assumes step_inv: "inv s \<Longrightarrow> inv (step s e)"
begin

lemma run_inv: "inv s \<Longrightarrow> inv (foldl step s es)"
  by (induction es arbitrary: s) (auto intro: step_inv)

lemma run_inv_prefix: "inv s \<Longrightarrow> inv (foldl step s (take n es))"
  by (rule run_inv)

end

text \<open>A scanner that is fed a byte stream in chunks: feeding two chunks one after the
  other is feeding their concatenation. Then how the stream is cut does not matter.\<close>

locale chunk_scanner =
  fixes feed :: "'s \<Rightarrow> 'a list \<Rightarrow> 's"
    and good :: "'s \<Rightarrow> bool"
  assumes feed_append: "good s \<Longrightarrow> feed s (xs @ ys) = feed (feed s xs) ys"
    and good_feed: "good s \<Longrightarrow> good (feed s xs)"
    and feed_Nil: "good s \<Longrightarrow> feed s [] = s"
begin

lemma feed_concat: "good s \<Longrightarrow> foldl feed s css = feed s (concat css)"
proof (induction css arbitrary: s)
  case Nil
  then show ?case by (simp add: feed_Nil)
next
  case (Cons cs css)
  then show ?case by (simp add: feed_append good_feed)
qed

lemma feed_chunking:
  "good s \<Longrightarrow> concat css = concat dss \<Longrightarrow> foldl feed s css = foldl feed s dss"
  by (simp add: feed_concat)

end

end
