(* ===== verification/Py_Json.thy ===== *)
theory Py_Json
  imports Gw_Prelude
begin

section \<open>The Python values a request body is made of\<close>

text \<open>
  The part of Python's standard library the gateway applies to text it does not control:
  \<open>json.loads\<close>, \<open>int\<close>, \<open>float\<close>, \<open>str\<close> and truth values of what \<open>json.loads\<close> returns.
  A JSON object is an association list in dictionary order with the last duplicate of a
  key winning. A float is an exact \<open>real\<close> or one of Python's three special values (which
  \<open>json.loads\<close> accepts: \<open>NaN\<close>, \<open>Infinity\<close>, and any literal beyond the largest double).
  \<open>json.loads\<close> of bytes decodes UTF-8 only (Python also sniffs UTF-16 and UTF-32), and the
  interpreter's recursion limit is not modelled.
\<close>

datatype pyfloat = Fin real | PInf | NInf | NaN

datatype json =
    JNull
  | JBool bool
  | JInt int
  | JFloat pyfloat
  | JStr string
  | JArr "json list"
  | JObj "(string \<times> json) list"

subsection \<open>Numbers in text\<close>

definition is_digit :: "char \<Rightarrow> bool" where
  "is_digit c \<longleftrightarrow> (let n = (of_char c :: nat) in 48 \<le> n \<and> n \<le> 57)"

definition digit_val :: "char \<Rightarrow> int" where
  "digit_val c = of_char c - 48"

definition digits_val :: "string \<Rightarrow> int" where
  "digits_val ds = foldl (\<lambda>n d. 10 * n + digit_val d) 0 ds"

text \<open>Python refuses to convert a decimal text of more than 4300 digits.\<close>

definition max_str_digits :: nat where
  "max_str_digits = 4300"

definition float_limit :: real where
  "float_limit = 2 ^ 1024 - 2 ^ 970"

definition to_pyfloat :: "bool \<Rightarrow> int \<Rightarrow> int \<Rightarrow> pyfloat" where
  "to_pyfloat neg m e =
     (let x = (if 0 \<le> e then of_int m * 10 ^ nat e else of_int m / 10 ^ nat (- e)) in
      if x \<ge> float_limit then (if neg then NInf else PInf)
      else Fin (if neg then - x else x))"

text \<open>A run of digits with single underscores between them, as \<open>int\<close> and \<open>float\<close> accept.\<close>

definition us_digits :: "string \<Rightarrow> string option" where
  "us_digits s =
     (let ps = split_on CHR ''_'' s in
      if \<forall>p \<in> set ps. p \<noteq> [] \<and> (\<forall>c \<in> set p. is_digit c) then Some (concat ps) else None)"

definition take_sign :: "string \<Rightarrow> bool \<times> string" where
  "take_sign s =
     (case s of
        [] \<Rightarrow> (False, [])
      | c # t \<Rightarrow> if c = CHR ''-'' then (True, t) else if c = CHR ''+'' then (False, t) else (False, s))"

definition int_of_str :: "string \<Rightarrow> py_exn + int" where
  "int_of_str s =
     (let (neg, t) = take_sign (py_strip s) in
      case us_digits t of
        None \<Rightarrow> Inl ValueError
      | Some ds \<Rightarrow>
          if length ds > max_str_digits then Inl ValueError
          else Inr (if neg then - digits_val ds else digits_val ds))"

definition exponent_of :: "string \<Rightarrow> int option" where
  "exponent_of s =
     (let (neg, t) = take_sign s in
      map_option (\<lambda>ds. if neg then - digits_val ds else digits_val ds) (us_digits t))"

definition float_of_str :: "string \<Rightarrow> py_exn + pyfloat" where
  "float_of_str s =
     (let (neg, t) = take_sign (py_strip s); u = py_lower t in
      if u = ''inf'' \<or> u = ''infinity'' then Inr (if neg then NInf else PInf)
      else if u = ''nan'' then Inr NaN
      else
        (let (m, se, e) = py_partition CHR ''e'' u;
             (ip, sd, fp) = py_partition CHR ''.'' m;
             ids = (if ip = [] then Some [] else us_digits ip);
             fds = (if fp = [] then Some [] else us_digits fp);
             ex = (if se = [] then Some 0 else exponent_of e)
         in case (ids, fds, ex) of
              (Some i, Some f, Some x) \<Rightarrow>
                if i @ f = [] then Inl ValueError
                else Inr (to_pyfloat neg (digits_val (i @ f)) (x - int (length f)))
            | _ \<Rightarrow> Inl ValueError))"

subsection \<open>\<open>json.loads\<close>\<close>

definition json_space :: "char \<Rightarrow> bool" where
  "json_space c \<longleftrightarrow> (let n = (of_char c :: nat) in n = 32 \<or> n = 9 \<or> n = 10 \<or> n = 13)"

abbreviation json_ws :: "string \<Rightarrow> string" where
  "json_ws \<equiv> dropWhile json_space"

definition hex_val :: "char \<Rightarrow> nat option" where
  "hex_val c =
     (let n = (of_char c :: nat) in
      if 48 \<le> n \<and> n \<le> 57 then Some (n - 48)
      else if 65 \<le> n \<and> n \<le> 70 then Some (n - 55)
      else if 97 \<le> n \<and> n \<le> 102 then Some (n - 87)
      else None)"

definition hex4 :: "string \<Rightarrow> nat option" where
  "hex4 s =
     (case map hex_val (take 4 s) of
        [Some a, Some b, Some c, Some d] \<Rightarrow> Some (((a * 16 + b) * 16 + c) * 16 + d)
      | _ \<Rightarrow> None)"

definition utf8 :: "nat \<Rightarrow> string" where
  "utf8 n =
     (if n < 128 then [char_of n]
      else if n < 2048 then [char_of (192 + n div 64), char_of (128 + n mod 64)]
      else if n < 65536 then
        [char_of (224 + n div 4096), char_of (128 + n div 64 mod 64), char_of (128 + n mod 64)]
      else
        [char_of (240 + n div 262144), char_of (128 + n div 4096 mod 64),
         char_of (128 + n div 64 mod 64), char_of (128 + n mod 64)])"

definition json_escape :: "char \<Rightarrow> char option" where
  "json_escape c =
     map_of [(CHR 0x22, CHR 0x22), (CHR 0x5C, CHR 0x5C), (CHR ''/'', CHR ''/''),
             (CHR ''b'', CHR 0x08), (CHR ''f'', CHR 0x0C), (CHR ''n'', CHR 0x0A),
             (CHR ''r'', CHR 0x0D), (CHR ''t'', CHR 0x09)] c"

text \<open>The character or characters a backslash escape stands for, and what follows it. A \<open>\u\<close>
  escape of a high surrogate takes a following low one with it.\<close>

definition json_unescape :: "string \<Rightarrow> (string \<times> string) option" where
  "json_unescape s =
     (case s of
        [] \<Rightarrow> None
      | e # r \<Rightarrow>
          if e = CHR ''u'' then
            (case hex4 r of
               None \<Rightarrow> None
             | Some hi \<Rightarrow>
                 (let r4 = drop 4 r;
                      lo = (if 55296 \<le> hi \<and> hi \<le> 56319 \<and> take 2 r4 = [CHR 0x5C, CHR ''u'']
                            then hex4 (drop 2 r4) else None)
                  in case lo of
                       Some l \<Rightarrow>
                         if 56320 \<le> l \<and> l \<le> 57343
                         then Some (utf8 (65536 + (hi - 55296) * 1024 + (l - 56320)), drop 6 r4)
                         else Some (utf8 hi, r4)
                     | None \<Rightarrow> Some (utf8 hi, r4)))
          else map_option (\<lambda>x. ([x], r)) (json_escape e))"

lemma json_unescape_less: "json_unescape s = Some (x, r) \<Longrightarrow> length r < length s"
  by (auto simp: json_unescape_def Let_def split: list.splits option.splits if_splits)

text \<open>After the opening quote: the characters, and what follows the closing quote.\<close>

function json_str :: "string \<Rightarrow> (string \<times> string) option" where
  "json_str [] = None"
| "json_str (c # cs) =
     (if c = CHR 0x22 then Some ([], cs)
      else if c = CHR 0x5C then
        (case json_unescape cs of
           None \<Rightarrow> None
         | Some (x, r) \<Rightarrow> map_option (apfst ((@) x)) (json_str r))
      else if (of_char c :: nat) < 32 then None
      else map_option (apfst ((#) c)) (json_str cs))"
  by pat_completeness auto
termination
  by (relation "measure length") (auto dest: json_unescape_less)

definition json_exponent :: "string \<Rightarrow> int option \<times> string" where
  "json_exponent s =
     (case s of
        [] \<Rightarrow> (None, s)
      | c # t \<Rightarrow>
          if c = CHR ''e'' \<or> c = CHR ''E'' then
            (let (neg, u) = take_sign t; ds = takeWhile is_digit u in
             if ds = [] then (None, s)
             else (Some (if neg then - digits_val ds else digits_val ds), dropWhile is_digit u))
          else (None, s))"

definition json_fraction :: "string \<Rightarrow> string \<times> string" where
  "json_fraction s =
     (case s of
        [] \<Rightarrow> ([], s)
      | c # t \<Rightarrow>
          if c = CHR ''.'' \<and> takeWhile is_digit t \<noteq> []
          then (takeWhile is_digit t, dropWhile is_digit t) else ([], s))"

definition json_number :: "string \<Rightarrow> (json \<times> string) option" where
  "json_number s =
     (let (neg, s1) = (case s of [] \<Rightarrow> (False, []) | c # t \<Rightarrow> if c = CHR ''-'' then (True, t) else (False, s));
          (ip, s2) = (case s1 of
              [] \<Rightarrow> ([], [])
            | c # t \<Rightarrow> if c = CHR ''0'' then ([c], t) else (takeWhile is_digit s1, dropWhile is_digit s1));
          (fp, s3) = json_fraction s2;
          (ep, s4) = json_exponent s3
      in if ip = [] then None
         else if fp = [] \<and> ep = None then
           (if length ip > max_str_digits then None
            else Some (JInt (if neg then - digits_val ip else digits_val ip), s4))
         else Some (JFloat (to_pyfloat neg (digits_val (ip @ fp))
                              ((case ep of None \<Rightarrow> 0 | Some x \<Rightarrow> x) - int (length fp))), s4))"

definition json_word :: "string \<Rightarrow> (json \<times> string) option" where
  "json_word s =
     (if startswith s ''null'' then Some (JNull, drop 4 s)
      else if startswith s ''true'' then Some (JBool True, drop 4 s)
      else if startswith s ''false'' then Some (JBool False, drop 5 s)
      else if startswith s ''NaN'' then Some (JFloat NaN, drop 3 s)
      else if startswith s ''Infinity'' then Some (JFloat PInf, drop 8 s)
      else if startswith s ''-Infinity'' then Some (JFloat NInf, drop 9 s)
      else json_number s)"

text \<open>The scanner, with fuel: \<open>json_fuel_enough\<close> below shows that the fuel \<open>json_loads\<close> gives
  never runs out.\<close>

fun json_value :: "nat \<Rightarrow> string \<Rightarrow> (json \<times> string) option"
  and json_elems :: "nat \<Rightarrow> json list \<Rightarrow> string \<Rightarrow> (json \<times> string) option"
  and json_members :: "nat \<Rightarrow> (string \<times> json) list \<Rightarrow> string \<Rightarrow> (json \<times> string) option"
where
  "json_value 0 s = None"
| "json_value (Suc n) s =
     (case s of
        [] \<Rightarrow> None
      | c # t \<Rightarrow>
          if c = CHR 0x22 then map_option (apfst JStr) (json_str t)
          else if c = CHR ''{'' then
            (case json_ws t of
               [] \<Rightarrow> None
             | d # r \<Rightarrow> if d = CHR ''}'' then Some (JObj [], r) else json_members n [] (d # r))
          else if c = CHR ''['' then
            (case json_ws t of
               [] \<Rightarrow> None
             | d # r \<Rightarrow> if d = CHR '']'' then Some (JArr [], r) else json_elems n [] (d # r))
          else json_word s)"
| "json_elems 0 acc s = None"
| "json_elems (Suc n) acc s =
     (case json_value n s of
        None \<Rightarrow> None
      | Some (v, r) \<Rightarrow>
          (case json_ws r of
             [] \<Rightarrow> None
           | d # t \<Rightarrow>
               if d = CHR '','' then json_elems n (acc @ [v]) (json_ws t)
               else if d = CHR '']'' then Some (JArr (acc @ [v]), t)
               else None))"
| "json_members 0 acc s = None"
| "json_members (Suc n) acc s =
     (case s of
        [] \<Rightarrow> None
      | c # t \<Rightarrow>
          if c \<noteq> CHR 0x22 then None
          else
            (case json_str t of
               None \<Rightarrow> None
             | Some (k, r) \<Rightarrow>
                 (case json_ws r of
                    [] \<Rightarrow> None
                  | d # r1 \<Rightarrow>
                      if d \<noteq> CHR '':'' then None
                      else
                        (case json_value n (json_ws r1) of
                           None \<Rightarrow> None
                         | Some (v, r2) \<Rightarrow>
                             (case json_ws r2 of
                                [] \<Rightarrow> None
                              | x # r3 \<Rightarrow>
                                  if x = CHR '','' then json_members n (dict_set k v acc) (json_ws r3)
                                  else if x = CHR ''}'' then Some (JObj (dict_set k v acc), r3)
                                  else None)))))"

definition json_loads :: "string \<Rightarrow> json option" where
  "json_loads s =
     (case json_value (2 * length s + 2) (json_ws s) of
        None \<Rightarrow> None
      | Some (v, r) \<Rightarrow> if json_ws r = [] then Some v else None)"

definition utf8_cont :: "char \<Rightarrow> bool" where
  "utf8_cont c \<longleftrightarrow> (let n = (of_char c :: nat) in 128 \<le> n \<and> n < 192)"

fun utf8_valid :: "string \<Rightarrow> bool" where
  "utf8_valid [] = True"
| "utf8_valid (a # s) =
     (let n = (of_char a :: nat) in
      if n < 128 then utf8_valid s
      else if 194 \<le> n \<and> n < 224 then
        (case s of b # s \<Rightarrow> utf8_cont b \<and> utf8_valid s | _ \<Rightarrow> False)
      else if 224 \<le> n \<and> n < 240 then
        (case s of
           b # c # s \<Rightarrow> utf8_cont b \<and> utf8_cont c \<and> (n = 224 \<longrightarrow> 160 \<le> (of_char b :: nat)) \<and> utf8_valid s
         | _ \<Rightarrow> False)
      else if 240 \<le> n \<and> n < 245 then
        (case s of
           b # c # d # s \<Rightarrow>
             utf8_cont b \<and> utf8_cont c \<and> utf8_cont d \<and> (n = 240 \<longrightarrow> 144 \<le> (of_char b :: nat)) \<and>
             (n = 244 \<longrightarrow> (of_char b :: nat) < 144) \<and> utf8_valid s
         | _ \<Rightarrow> False)
      else False)"

definition json_loads_bytes :: "string \<Rightarrow> json option" where
  "json_loads_bytes s =
     (let t = (if startswith s [CHR 0xEF, CHR 0xBB, CHR 0xBF] then drop 3 s else s) in
      if utf8_valid t then json_loads t else None)"

subsection \<open>Reading a value\<close>

fun json_truth :: "json \<Rightarrow> bool" where
  "json_truth JNull = False"
| "json_truth (JBool b) = b"
| "json_truth (JInt i) = (i \<noteq> 0)"
| "json_truth (JFloat f) = (f \<noteq> Fin 0)"
| "json_truth (JStr s) = (s \<noteq> [])"
| "json_truth (JArr xs) = (xs \<noteq> [])"
| "json_truth (JObj kvs) = (kvs \<noteq> [])"

fun py_int :: "json \<Rightarrow> py_exn + int" where
  "py_int (JInt i) = Inr i"
| "py_int (JBool b) = Inr (if b then 1 else 0)"
| "py_int (JFloat (Fin x)) = Inr (if x < 0 then \<lceil>x\<rceil> else \<lfloor>x\<rfloor>)"
| "py_int (JFloat NaN) = Inl ValueError"
| "py_int (JFloat PInf) = Inl OverflowError"
| "py_int (JFloat NInf) = Inl OverflowError"
| "py_int (JStr s) = int_of_str s"
| "py_int JNull = Inl TypeError"
| "py_int (JArr xs) = Inl TypeError"
| "py_int (JObj kvs) = Inl TypeError"

definition hex_digit :: "nat \<Rightarrow> char" where
  "hex_digit n = char_of (if n < 10 then 48 + n else 87 + n)"

definition repr_char :: "char \<Rightarrow> char \<Rightarrow> string" where
  "repr_char q c =
     (let n = (of_char c :: nat) in
      if c = q \<or> c = CHR 0x5C then [CHR 0x5C, c]
      else if n = 10 then [CHR 0x5C, CHR ''n'']
      else if n = 13 then [CHR 0x5C, CHR ''r'']
      else if n = 9 then [CHR 0x5C, CHR ''t'']
      else if n < 32 \<or> n = 127 then [CHR 0x5C, CHR ''x'', hex_digit (n div 16), hex_digit (n mod 16)]
      else [c])"

definition repr_str :: "string \<Rightarrow> string" where
  "repr_str s =
     (let q = (if CHR 0x27 \<in> set s \<and> CHR 0x22 \<notin> set s then CHR 0x22 else CHR 0x27)
      in q # concat (map (repr_char q) s) @ [q])"

text \<open>\<open>repr\<close> of a float prints the shortest decimal that reads back as the same double; it is
  the parameter \<open>fr\<close>.\<close>

fun py_repr :: "(real \<Rightarrow> string) \<Rightarrow> json \<Rightarrow> string" where
  "py_repr fr JNull = ''None''"
| "py_repr fr (JBool b) = (if b then ''True'' else ''False'')"
| "py_repr fr (JInt i) = str_int i"
| "py_repr fr (JFloat (Fin x)) = fr x"
| "py_repr fr (JFloat PInf) = ''inf''"
| "py_repr fr (JFloat NInf) = ''-inf''"
| "py_repr fr (JFloat NaN) = ''nan''"
| "py_repr fr (JStr s) = repr_str s"
| "py_repr fr (JArr xs) = ''['' @ py_join '', '' (map (py_repr fr) xs) @ '']''"
| "py_repr fr (JObj kvs) =
     ''{'' @ py_join '', '' (map (\<lambda>(k, v). repr_str k @ '': '' @ py_repr fr v) kvs) @ ''}''"

fun py_str :: "(real \<Rightarrow> string) \<Rightarrow> json \<Rightarrow> string" where
  "py_str fr (JStr s) = s"
| "py_str fr v = py_repr fr v"


subsection \<open>The fuel of \<open>json_loads\<close> is enough\<close>

lemma json_ws_le: "length (json_ws s) \<le> length s"
  by (rule length_dropWhile_le)

lemma dropWhile_digit_le: "length (dropWhile is_digit s) \<le> length s"
  by (rule length_dropWhile_le)

lemma json_ws_less: "json_ws r = d # t \<Longrightarrow> length t < length r"
  using json_ws_le [of r] by simp

lemma json_str_less: "json_str s = Some (x, r) \<Longrightarrow> length r < length s"
proof (induction s arbitrary: x r rule: json_str.induct)
  case (2 c cs)
  show ?case
  proof (cases "c = CHR 0x5C")
    case True
    with "2.prems" obtain y q where y: "json_unescape cs = Some (y, q)"
      by (auto split: option.splits)
    with True "2.prems" obtain z where "json_str q = Some (z, r)" by auto
    with "2.IH"(1) [OF _ True y refl] True json_unescape_less [OF y] show ?thesis by fastforce
  next
    case False
    with "2.prems" "2.IH"(2) show ?thesis by (fastforce split: if_splits)
  qed
qed simp

lemma json_exponent_le: "json_exponent s = (e, r) \<Longrightarrow> length r \<le> length s"
proof -
  assume e: "json_exponent s = (e, r)"
  have sign: "length (snd (take_sign t)) \<le> length t" for t
    by (simp add: take_sign_def split: list.splits)
  show ?thesis
  proof (cases s)
    case (Cons c t)
    have "length (dropWhile is_digit (snd (take_sign t))) \<le> length t"
      using dropWhile_digit_le sign by (rule order_trans)
    with Cons e show ?thesis
      by (auto simp: json_exponent_def Let_def split: if_splits prod.splits)
  qed (use e in \<open>simp add: json_exponent_def\<close>)
qed

lemma json_fraction_le: "json_fraction s = (f, r) \<Longrightarrow> length r \<le> length s"
  using dropWhile_digit_le by (auto simp: json_fraction_def le_SucI split: list.splits if_splits)

lemma json_number_less:
  assumes "json_number s = Some (v, r)"
  shows "length r < length s"
proof -
  define s1 where "s1 = (case s of [] \<Rightarrow> [] | c # t \<Rightarrow> if c = CHR ''-'' then t else s)"
  define ip where "ip = (case s1 of [] \<Rightarrow> [] | c # t \<Rightarrow> if c = CHR ''0'' then [c] else takeWhile is_digit s1)"
  define s2 where "s2 = (case s1 of [] \<Rightarrow> [] | c # t \<Rightarrow> if c = CHR ''0'' then t else dropWhile is_digit s1)"
  obtain f s3 where f: "json_fraction s2 = (f, s3)" by fastforce
  obtain e s4 where e: "json_exponent s3 = (e, s4)" by fastforce
  have r: "ip \<noteq> [] \<and> r = s4"
    using assms f e
    by (auto simp: json_number_def s1_def ip_def s2_def Let_def split: list.splits if_splits)
  have "length s1 \<le> length s" by (simp add: s1_def split: list.splits)
  moreover have "length s2 < length s1"
  proof (cases s1)
    case (Cons c t)
    show ?thesis
    proof (cases "c = CHR ''0''")
      case False
      with r Cons have d: "is_digit c" by (auto simp: ip_def split: if_splits)
      with False Cons show ?thesis using dropWhile_digit_le [of t] by (simp add: s2_def)
    qed (simp add: s2_def Cons)
  qed (use r in \<open>simp add: ip_def\<close>)
  ultimately show ?thesis
    using json_fraction_le [OF f] json_exponent_le [OF e] r by simp
qed

lemma startswith_length: "startswith s p \<Longrightarrow> length p \<le> length s"
  by (auto simp: startswith_iff)

lemma json_word_less: "json_word s = Some (v, r) \<Longrightarrow> length r < length s"
  by (auto simp: json_word_def dest: json_number_less dest!: startswith_length split: if_splits)

lemma json_less_aux:
  "(\<forall>s v r. json_value n s = Some (v, r) \<longrightarrow> length r < length s) \<and>
   (\<forall>acc s v r. json_elems n acc s = Some (v, r) \<longrightarrow> length r < length s) \<and>
   (\<forall>acc s v r. json_members n acc s = Some (v, r) \<longrightarrow> length r < length s)"
proof (induction n)
  case (Suc n)
  then have val: "json_value n s = Some (v, r) \<Longrightarrow> length r < length s"
    and elems: "json_elems n acc s = Some (v, r) \<Longrightarrow> length r < length s"
    and members: "json_members n macc s = Some (v, r) \<Longrightarrow> length r < length s" for s v r acc macc
    by blast+
  have 1: "length r < length s" if v: "json_value (Suc n) s = Some (v, r)" for s v r
  proof (cases s)
    case (Cons c t)
    have ws: "json_ws t = d # u \<Longrightarrow> length (d # u) \<le> length t" for d u
      using json_ws_le [of t] by simp
    from v Cons show ?thesis
      by (auto split: if_splits list.splits dest!: ws elems members dest: json_str_less json_word_less)
  qed (use v in simp)
  have 2: "length r < length s" if v: "json_elems (Suc n) acc s = Some (v, r)" for acc s v r
  proof -
    from v obtain x q where x: "json_value n s = Some (x, q)" by (auto split: option.splits)
    from v x obtain d t where t: "json_ws q = d # t" by (auto split: list.splits)
    have "length t < length s" using val [OF x] json_ws_less [OF t] by simp
    moreover have "json_elems n a (json_ws t) = Some (v, r) \<Longrightarrow> length r < length t" for a
      using elems json_ws_le [of t] by (rule order.strict_trans2)
    ultimately show ?thesis
      using v x t by (auto split: if_splits intro: order.strict_trans)
  qed
  have 3: "length r < length s" if v: "json_members (Suc n) acc s = Some (v, r)" for acc s v r
  proof -
    from v obtain t where s: "s = CHR 0x22 # t" by (auto split: list.splits if_splits)
    from v s obtain k q where k: "json_str t = Some (k, q)" by (auto split: option.splits)
    from v s k obtain q1 where q1: "json_ws q = CHR '':'' # q1" by (auto split: list.splits if_splits)
    from v s k q1 obtain x q2 where x: "json_value n (json_ws q1) = Some (x, q2)"
      by (auto split: option.splits)
    from v s k q1 x obtain d q3 where q3: "json_ws q2 = d # q3" by (auto split: list.splits)
    have "length q3 < length s"
      using s json_str_less [OF k] json_ws_less [OF q1] val [OF x] json_ws_less [OF q3] json_ws_le [of q1]
      by simp
    moreover have "json_members n a (json_ws q3) = Some (v, r) \<Longrightarrow> length r < length q3" for a
      using members json_ws_le [of q3] by (rule order.strict_trans2)
    ultimately show ?thesis
      using v s k q1 x q3 by (auto split: if_splits intro: order.strict_trans)
  qed
  from 1 2 3 show ?case by blast
qed simp

lemma json_value_less: "json_value n s = Some (v, r) \<Longrightarrow> length r < length s"
  using json_less_aux by blast

declare json_value.simps [simp del] json_elems.simps [simp del] json_members.simps [simp del]
  json_str.simps [simp del]

lemma json_fuel_aux:
  "(\<forall>s. 2 * length s < n \<longrightarrow> json_value (Suc n) s = json_value n s) \<and>
   (\<forall>acc s. 2 * length s + 1 < n \<longrightarrow> json_elems (Suc n) acc s = json_elems n acc s) \<and>
   (\<forall>acc s. 2 * length s + 1 < n \<longrightarrow> json_members (Suc n) acc s = json_members n acc s)"
proof (induction n)
  case (Suc n)
  then have val: "2 * length s < n \<Longrightarrow> json_value (Suc n) s = json_value n s"
    and elems: "2 * length s + 1 < n \<Longrightarrow> json_elems (Suc n) acc s = json_elems n acc s"
    and members: "2 * length s + 1 < n \<Longrightarrow> json_members (Suc n) macc s = json_members n macc s"
    for s acc macc
    by blast+
  have 1: "json_value (Suc (Suc n)) s = json_value (Suc n) s" if f: "2 * length s < Suc n" for s
  proof (cases s)
    case (Cons c t)
    have "2 * length (d # u) + 1 < n" if "json_ws t = d # u" for d u
      using json_ws_le [of t] that f Cons by simp
    with elems members Cons show ?thesis
      by (cases "json_ws t") (simp_all only: json_value.simps(2) list.case)
  qed (simp add: json_value.simps)
  have 2: "json_elems (Suc (Suc n)) acc s = json_elems (Suc n) acc s"
    if f: "2 * length s + 1 < Suc n" for acc s
  proof -
    have v: "json_value (Suc n) s = json_value n s" using f val by simp
    have "json_elems (Suc n) a (json_ws t) = json_elems n a (json_ws t)"
      if "json_value n s = Some (x, q)" and "json_ws q = d # t" for x q d t a
      using json_value_less [OF that(1)] json_ws_less [OF that(2)] json_ws_le [of t] f
      by (intro elems) simp
    then show ?thesis
      by (auto simp: json_elems.simps(2) [of "Suc n" acc s] json_elems.simps(2) [of n acc s] v simp del: dropWhile_eq_Nil_conv
          split: list.split option.split)
  qed
  have 3: "json_members (Suc (Suc n)) acc s = json_members (Suc n) acc s"
    if f: "2 * length s + 1 < Suc n" for acc s
  proof (cases s)
    case (Cons c t)
    have v: "json_value (Suc n) (json_ws q1) = json_value n (json_ws q1)"
      if "json_str t = Some (k, q)" and "json_ws q = d # q1" for k q d q1
      using json_str_less [OF that(1)] json_ws_less [OF that(2)] json_ws_le [of q1] f Cons
      by (intro val) simp
    have "json_members (Suc n) a (json_ws q3) = json_members n a (json_ws q3)"
      if "json_str t = Some (k, q)" and "json_ws q = d # q1"
        and "json_value n (json_ws q1) = Some (x, q2)" and "json_ws q2 = d' # q3"
      for k q d q1 x q2 d' q3 a
      using json_str_less [OF that(1)] json_ws_less [OF that(2)] json_ws_le [of q1]
        json_value_less [OF that(3)] json_ws_less [OF that(4)] json_ws_le [of q3] f Cons
      by (intro members) simp
    with v Cons show ?thesis
      by (auto simp: json_members.simps(2) [of "Suc n" acc "c # t"] json_members.simps(2) [of n acc "c # t"] simp del: dropWhile_eq_Nil_conv
          split: list.split option.split)
  qed (simp add: json_members.simps)
  from 1 2 3 show ?case by blast
qed (simp add: json_value.simps json_elems.simps json_members.simps)

lemma json_fuel_enough: "2 * length s < n \<Longrightarrow> json_value n s = json_value (2 * length s + 1) s"
proof (induction n)
  case (Suc n)
  then show ?case
    using json_fuel_aux [of n] by (cases "2 * length s < n") (auto simp: not_less less_Suc_eq_le le_antisym)
qed simp

lemma json_loads_fuel:
  "2 * length s + 2 \<le> n \<Longrightarrow>
   json_loads s = (case json_value n (json_ws s) of
      None \<Rightarrow> None | Some (v, r) \<Rightarrow> if json_ws r = [] then Some v else None)"
  using json_fuel_enough [of "json_ws s" n] json_fuel_enough [of "json_ws s" "2 * length s + 2"]
    json_ws_le [of s]
  by (simp add: json_loads_def)

end
