(* ===== verification/Config.thy ===== *)
theory Config
  imports Py_Json
begin

section \<open>Gateway configuration (gateway/config.py)\<close>

text \<open>
  \<open>Settings()\<close> reads every field from the environment when it is constructed. The
  environment is a partial map; a text that \<open>int\<close> or \<open>float\<close> refuses makes the
  construction fail. The record is built section by section, in the order of the class
  body. The two \<open>..._CSV\<close> fields keep the raw text, and the properties parse it.
\<close>

type_synonym environ = "string \<rightharpoonup> string"

definition getenv :: "environ \<Rightarrow> string \<Rightarrow> string \<Rightarrow> string" where
  "getenv env name dflt = (case env name of None \<Rightarrow> dflt | Some v \<Rightarrow> v)"

definition flag :: "environ \<Rightarrow> string \<Rightarrow> string \<Rightarrow> bool" where
  "flag env name dflt \<longleftrightarrow> py_lower (getenv env name dflt) \<in> set [''1'', ''true'', ''yes'']"

definition csv :: "string \<Rightarrow> string list" where
  "csv raw = [py_strip item. item \<leftarrow> split_on CHR '','' raw, py_strip item \<noteq> []]"

subsection \<open>The fields\<close>

record server_part =
  HOST :: string
  PORT :: int
  UPSTREAM_URLS_CSV :: string
  UPSTREAM_API_KEY :: string
  UPSTREAM_CONNECT_TIMEOUT_SEC :: pyfloat
  UPSTREAM_READ_TIMEOUT_SEC :: pyfloat
  UPSTREAM_CLIENT_CERT_PATH :: string
  UPSTREAM_CLIENT_KEY_PATH :: string
  UPSTREAM_CA_BUNDLE_PATH :: string

record resilience_part = server_part +
  BREAKER_ENABLED :: bool
  BREAKER_OPEN_SEC :: pyfloat
  UPSTREAM_PROBE_TIMEOUT_SEC :: pyfloat
  BREAKER_PROBE_TICK_SEC :: pyfloat

record auth_part = resilience_part +
  API_KEY_STORE_PATH :: string
  API_KEY_PEPPER :: string
  AUTH_VERIFY_CONCURRENCY :: int
  JWT_PUBLIC_KEY :: string
  JWT_ALGORITHM :: string
  JWT_ISSUER :: string
  JWT_AUDIENCE :: string
  JWT_LEEWAY_SEC :: int

record validation_part = auth_part +
  ALLOWED_MODELS_CSV :: string
  MAX_BODY_BYTES :: int
  MAX_COMPLETION_TOKENS :: int
  MAX_PROMPT_TOKENS :: int

record settings = validation_part +
  AUDIT_LOG_PATH :: string
  AUDIT_INCLUDE_PROMPT_TEXT :: bool
  METRICS_ENABLED :: bool
  UPSTREAM_METRICS_POLL_SEC :: pyfloat
  UPSTREAM_METRICS_TIMEOUT_SEC :: pyfloat
  UPSTREAM_WEDGE_WINDOW_SEC :: pyfloat

definition load_server :: "environ \<Rightarrow> py_exn + server_part" where
  "load_server env =
     bindE (int_of_str (getenv env ''GATEWAY_PORT'' ''8080'')) (\<lambda>port.
     bindE (float_of_str (getenv env ''UPSTREAM_CONNECT_TIMEOUT_SEC'' ''5.0'')) (\<lambda>connect.
     bindE (float_of_str (getenv env ''UPSTREAM_READ_TIMEOUT_SEC'' ''120.0'')) (\<lambda>read.
     Inr \<lparr>HOST = getenv env ''GATEWAY_HOST'' ''0.0.0.0'', PORT = port,
          UPSTREAM_URLS_CSV = getenv env ''UPSTREAM_URLS'' ''http://127.0.0.1:8001/v1'',
          UPSTREAM_API_KEY = getenv env ''UPSTREAM_API_KEY'' [],
          UPSTREAM_CONNECT_TIMEOUT_SEC = connect, UPSTREAM_READ_TIMEOUT_SEC = read,
          UPSTREAM_CLIENT_CERT_PATH = getenv env ''UPSTREAM_CLIENT_CERT_PATH'' [],
          UPSTREAM_CLIENT_KEY_PATH = getenv env ''UPSTREAM_CLIENT_KEY_PATH'' [],
          UPSTREAM_CA_BUNDLE_PATH = getenv env ''UPSTREAM_CA_BUNDLE_PATH'' []\<rparr>)))"

definition load_resilience :: "environ \<Rightarrow> server_part \<Rightarrow> py_exn + resilience_part" where
  "load_resilience env p =
     bindE (float_of_str (getenv env ''BREAKER_OPEN_SEC'' ''15.0'')) (\<lambda>open_sec.
     bindE (float_of_str (getenv env ''UPSTREAM_PROBE_TIMEOUT_SEC'' ''2.0'')) (\<lambda>probe.
     bindE (float_of_str (getenv env ''BREAKER_PROBE_TICK_SEC'' ''1.0'')) (\<lambda>tick.
     Inr (server_part.extend p
       (resilience_part.fields (flag env ''BREAKER_ENABLED'' ''true'') open_sec probe tick)))))"

definition load_auth :: "environ \<Rightarrow> resilience_part \<Rightarrow> py_exn + auth_part" where
  "load_auth env p =
     bindE (int_of_str (getenv env ''AUTH_VERIFY_CONCURRENCY'' ''6'')) (\<lambda>conc.
     bindE (int_of_str (getenv env ''JWT_LEEWAY_SEC'' ''30'')) (\<lambda>leeway.
     Inr (resilience_part.extend p
       (auth_part.fields (getenv env ''API_KEY_STORE_PATH'' ''./keys.json'')
          (getenv env ''API_KEY_PEPPER'' []) conc
          (getenv env ''JWT_PUBLIC_KEY'' []) (getenv env ''JWT_ALGORITHM'' ''RS256'')
          (getenv env ''JWT_ISSUER'' ''firstdata-api'')
          (getenv env ''JWT_AUDIENCE'' ''bkn301-inference'') leeway))))"

definition load_validation :: "environ \<Rightarrow> auth_part \<Rightarrow> py_exn + validation_part" where
  "load_validation env p =
     bindE (int_of_str (getenv env ''MAX_BODY_BYTES'' (str_int (2 ^ 20)))) (\<lambda>body.
     bindE (int_of_str (getenv env ''MAX_COMPLETION_TOKENS'' ''2048'')) (\<lambda>completion.
     bindE (int_of_str (getenv env ''MAX_PROMPT_TOKENS'' ''7000'')) (\<lambda>prompt.
     Inr (auth_part.extend p
       (validation_part.fields (getenv env ''ALLOWED_MODELS'' ''Qwen/Qwen3-8B-AWQ'')
          body completion prompt)))))"

definition load_audit :: "environ \<Rightarrow> validation_part \<Rightarrow> py_exn + settings" where
  "load_audit env p =
     bindE (float_of_str (getenv env ''UPSTREAM_METRICS_POLL_SEC'' ''5.0'')) (\<lambda>poll.
     bindE (float_of_str (getenv env ''UPSTREAM_METRICS_TIMEOUT_SEC'' ''2.0'')) (\<lambda>timeout.
     bindE (float_of_str (getenv env ''UPSTREAM_WEDGE_WINDOW_SEC'' ''120.0'')) (\<lambda>window.
     Inr (validation_part.extend p
       (settings.fields (getenv env ''AUDIT_LOG_PATH'' ''./logs/audit.jsonl'')
          (flag env ''AUDIT_INCLUDE_PROMPT_TEXT'' ''false'')
          (flag env ''METRICS_ENABLED'' ''true'') poll timeout window)))))"

definition Settings :: "environ \<Rightarrow> py_exn + settings" where
  "Settings env =
     bindE (load_server env) (\<lambda>p.
     bindE (load_resilience env p) (\<lambda>p.
     bindE (load_auth env p) (\<lambda>p.
     bindE (load_validation env p) (load_audit env))))"

subsection \<open>The parsed views\<close>

definition UPSTREAM_URLS :: "settings \<Rightarrow> string list" where
  "UPSTREAM_URLS cfg = csv (UPSTREAM_URLS_CSV cfg)"

definition ALLOWED_MODELS :: "settings \<Rightarrow> string list" where
  "ALLOWED_MODELS cfg = csv (ALLOWED_MODELS_CSV cfg)"

definition UPSTREAM_CLIENT_CERT :: "settings \<Rightarrow> py_exn + (string \<times> string) option" where
  "UPSTREAM_CLIENT_CERT cfg =
     (let cert = UPSTREAM_CLIENT_CERT_PATH cfg; key = UPSTREAM_CLIENT_KEY_PATH cfg in
      if (cert \<noteq> []) \<noteq> (key \<noteq> []) then Inl ValueError
      else Inr (if cert \<noteq> [] then Some (cert, key) else None))"

subsection \<open>What the parsers guarantee\<close>

lemma csv_items:
  "m \<in> set (csv raw) \<Longrightarrow> m \<noteq> [] \<and> py_strip m = m \<and> CHR '','' \<notin> set m"
  using strip_by_set split_on_no_sep by (fastforce simp: csv_def)

lemma split_on_spaced_join:
  assumes "\<And>m. m \<in> set (m0 # ms) \<Longrightarrow> CHR '','' \<notin> set m"
  shows "split_on CHR '','' (py_join '', '' (m0 # ms)) = m0 # map ((#) CHR '' '') ms"
  using assms
proof (induction ms arbitrary: m0)
  case (Cons m ms)
  have "split_on CHR '','' (CHR '' '' # py_join '', '' (m # ms)) =
      (CHR '' '' # m) # map ((#) CHR '' '') ms"
    using Cons by simp
  with Cons.prems show ?case
    using split_on_append [of "CHR '',''" m0 "CHR '' '' # py_join '', '' (m # ms)"] by simp
qed (simp add: split_on_single)

lemma py_strip_space: "py_strip (CHR '' '' # m) = py_strip m"
  by (simp add: strip_by_def py_space_def)

lemma csv_of_pieces:
  "map py_strip ps = ms \<Longrightarrow> [] \<notin> set ms \<Longrightarrow>
   [py_strip item. item \<leftarrow> ps, py_strip item \<noteq> []] = ms"
  by (induction ps arbitrary: ms) auto

text \<open>A comma-separated setting is read back exactly as the list it was written from:
  joining any list of non-empty, unpadded items without commas (with or without a space
  after each comma) and parsing the text gives the list again; and whatever the text, no
  parsed item is empty, padded or holds a comma.\<close>

theorem csv_roundtrip:
  assumes "\<And>m. m \<in> set ms \<Longrightarrow> m \<noteq> [] \<and> py_strip m = m \<and> CHR '','' \<notin> set m"
  shows "csv (py_join '','' ms) = ms \<and> csv (py_join '', '' ms) = ms \<and>
         (\<forall>raw. \<forall>m \<in> set (csv raw). m \<noteq> [] \<and> py_strip m = m \<and> CHR '','' \<notin> set m)"
proof (intro conjI allI ballI)
  have strip: "map py_strip ms = ms"
    using assms by (simp add: map_idI)
  show "csv (py_join '','' ms) = ms"
  proof (cases ms)
    case (Cons m0 rest)
    then have "split_on CHR '','' (py_join '','' ms) = ms"
      using assms by (intro split_on_join) auto
    then show ?thesis
      unfolding csv_def using assms strip by (intro csv_of_pieces) auto
  qed (simp add: csv_def strip_by_def)
  show "csv (py_join '', '' ms) = ms"
  proof (cases ms)
    case (Cons m0 rest)
    then have "split_on CHR '','' (py_join '', '' ms) = m0 # map ((#) CHR '' '') rest"
      using assms by (simp only:) (rule split_on_spaced_join, auto)
    then show ?thesis
      unfolding csv_def using assms strip Cons
      by (intro csv_of_pieces) (auto simp: py_strip_space intro: map_idI)
  qed (simp add: csv_def strip_by_def)
qed (use csv_items in blast)+

theorem csv_roundtrip_witness:
  "csv ''http://a/v1,http://b/v1'' = [''http://a/v1'', ''http://b/v1'']"
proof -
  have "csv (py_join '','' [''http://a/v1'', ''http://b/v1'']) = [''http://a/v1'', ''http://b/v1'']"
  proof (rule conjunct1, rule csv_roundtrip)
    show "m \<noteq> [] \<and> py_strip m = m \<and> CHR '','' \<notin> set m"
      if "m \<in> set [''http://a/v1'', ''http://b/v1'']" for m
      using that by (auto simp: strip_by_def py_space_def)
  qed
  then show ?thesis by simp
qed

text \<open>A client certificate for the upstream is presented whole or not at all: the pair
  is returned exactly when both paths are set, nothing when neither is, and a half-set
  pair is an error rather than a connection without a certificate.\<close>

theorem client_cert_all_or_nothing:
  "UPSTREAM_CLIENT_CERT cfg =
     (case (UPSTREAM_CLIENT_CERT_PATH cfg, UPSTREAM_CLIENT_KEY_PATH cfg) of
        ([], []) \<Rightarrow> Inr None
      | (c # cs, k # ks) \<Rightarrow> Inr (Some (c # cs, k # ks))
      | _ \<Rightarrow> Inl ValueError)"
  by (simp add: UPSTREAM_CLIENT_CERT_def Let_def split: list.split)

subsection \<open>The documented defaults\<close>

definition default_settings :: settings where
  "default_settings =
     \<lparr>HOST = ''0.0.0.0'', PORT = 8080, UPSTREAM_URLS_CSV = ''http://127.0.0.1:8001/v1'',
      UPSTREAM_API_KEY = [], UPSTREAM_CONNECT_TIMEOUT_SEC = Fin 5,
      UPSTREAM_READ_TIMEOUT_SEC = Fin 120, UPSTREAM_CLIENT_CERT_PATH = [],
      UPSTREAM_CLIENT_KEY_PATH = [], UPSTREAM_CA_BUNDLE_PATH = [],
      BREAKER_ENABLED = True, BREAKER_OPEN_SEC = Fin 15, UPSTREAM_PROBE_TIMEOUT_SEC = Fin 2,
      BREAKER_PROBE_TICK_SEC = Fin 1, API_KEY_STORE_PATH = ''./keys.json'',
      API_KEY_PEPPER = [], AUTH_VERIFY_CONCURRENCY = 6, JWT_PUBLIC_KEY = [],
      JWT_ALGORITHM = ''RS256'', JWT_ISSUER = ''firstdata-api'',
      JWT_AUDIENCE = ''bkn301-inference'', JWT_LEEWAY_SEC = 30,
      ALLOWED_MODELS_CSV = ''Qwen/Qwen3-8B-AWQ'', MAX_BODY_BYTES = 1048576,
      MAX_COMPLETION_TOKENS = 2048, MAX_PROMPT_TOKENS = 7000,
      AUDIT_LOG_PATH = ''./logs/audit.jsonl'', AUDIT_INCLUDE_PROMPT_TEXT = False,
      METRICS_ENABLED = True, UPSTREAM_METRICS_POLL_SEC = Fin 5,
      UPSTREAM_METRICS_TIMEOUT_SEC = Fin 2, UPSTREAM_WEDGE_WINDOW_SEC = Fin 120\<rparr>"

lemma float_limit_big: "x \<le> 1000 \<Longrightarrow> \<not> float_limit \<le> x"
  by (simp add: float_limit_def)

lemma int_text:
  "int_of_str ''8080'' = Inr 8080" "int_of_str ''6'' = Inr 6" "int_of_str ''30'' = Inr 30"
  "int_of_str ''1048576'' = Inr 1048576" "int_of_str ''2048'' = Inr 2048"
  "int_of_str ''7000'' = Inr 7000"
  by (simp_all add: int_of_str_def take_sign_def us_digits_def is_digit_def digits_val_def
      digit_val_def max_str_digits_def strip_by_def py_space_def)

lemma float_text:
  "float_of_str ''5.0'' = Inr (Fin 5)" "float_of_str ''120.0'' = Inr (Fin 120)"
  "float_of_str ''15.0'' = Inr (Fin 15)" "float_of_str ''2.0'' = Inr (Fin 2)"
  "float_of_str ''1.0'' = Inr (Fin 1)"
  by (simp_all add: float_of_str_def take_sign_def us_digits_def is_digit_def digits_val_def
      digit_val_def strip_by_def py_space_def py_lower_def py_lower_char_def py_partition_def
      to_pyfloat_def float_limit_big Let_def)

lemma str_body_limit: "str_int (2 ^ 20) = ''1048576''"
  by (simp add: str_int_def nat_digits.simps char_of_digits)

lemmas load_defs =
  Settings_def load_server_def load_resilience_def load_auth_def load_validation_def load_audit_def
  server_part.defs resilience_part.defs auth_part.defs validation_part.defs settings.defs

text \<open>A gateway started with an empty environment runs with the documented defaults:
  the construction succeeds and every field has the value the comments justify.\<close>

theorem settings_defaults: "Settings Map.empty = Inr default_settings"
  by (simp add: load_defs getenv_def flag_def py_lower_def py_lower_char_def
      str_body_limit [simplified] float_text int_text default_settings_def)

lemma default_models: "ALLOWED_MODELS default_settings = [''Qwen/Qwen3-8B-AWQ'']"
  by (simp add: ALLOWED_MODELS_def default_settings_def csv_def strip_by_def py_space_def)

lemma default_urls: "UPSTREAM_URLS default_settings = [''http://127.0.0.1:8001/v1'']"
  by (simp add: UPSTREAM_URLS_def default_settings_def csv_def strip_by_def py_space_def)

end
