(* ===== verification/Gw_Metrics.thy ===== *)
theory Gw_Metrics
  imports Config
begin

section \<open>Prometheus instrumentation (gateway/metrics.py)\<close>

text \<open>
  The metric objects of the module as one record: a counter or gauge with labels is a map
  from label values to its value, whose domain is the set of series that exist; a
  histogram keeps the list of observations per series, from which every bucket count
  follows. The functions below are the only ones that mint label values.
\<close>

definition NAMESPACE :: string where "NAMESPACE = ''bkn301_gateway''"

text \<open>The finite bucket bounds; the last bucket of each histogram is \<open>+Inf\<close>.\<close>

definition DURATION_BUCKETS :: "real list" where
  "DURATION_BUCKETS =
     [0.005, 0.01, 0.025, 0.05, 0.1, 0.25, 0.5, 1.0,
      2.5, 5.0, 10.0, 15.0, 20.0, 30.0, 45.0, 60.0, 120.0]"

definition TTFT_BUCKETS :: "real list" where
  "TTFT_BUCKETS = [0.05, 0.1, 0.15, 0.25, 0.5, 0.75, 1.0, 1.5, 2.5, 4.0, 6.0, 10.0, 20.0]"

definition REJECT_REASONS :: "string list" where
  "REJECT_REASONS =
     [''body_too_large'', ''invalid_json'', ''invalid_body'', ''scope_denied'',
      ''model_not_allowed'', ''messages_required'', ''prompt_too_long'',
      ''max_tokens_invalid'', ''upstream_unreachable'', ''upstream_error'',
      ''upstream_bad_response'', ''upstream_stream_broken'', ''all_replicas_open'',
      ''token_budget_exceeded'', ''concurrency_cap_exceeded'']"

record metrics =
  requests_total :: "string \<times> string \<times> string \<times> string \<rightharpoonup> int"
  request_duration_seconds :: "string \<times> string \<rightharpoonup> real list"
  time_to_first_token_seconds :: "string \<rightharpoonup> real list"
  inflight_requests :: int
  rejections_total :: "string \<rightharpoonup> int"
  tokens_total :: "string \<times> string \<rightharpoonup> int"
  requests_missing_usage_total :: "string \<rightharpoonup> int"
  upstream_requests_total :: "string \<times> string \<rightharpoonup> int"
  upstream_up :: "string \<rightharpoonup> int"
  upstream_scrape_age_seconds :: "string \<rightharpoonup> real"
  upstream_scrape_failures_total :: "string \<times> string \<rightharpoonup> int"
  upstream_wedge_suspected :: "string \<rightharpoonup> int"
  upstream_wedge_stall_seconds :: "string \<rightharpoonup> real"
  event_loop_lag_seconds :: real

definition new_metrics :: metrics where
  "new_metrics =
     \<lparr>requests_total = Map.empty, request_duration_seconds = Map.empty,
      time_to_first_token_seconds = Map.empty, inflight_requests = 0,
      rejections_total = Map.empty, tokens_total = Map.empty,
      requests_missing_usage_total = Map.empty, upstream_requests_total = Map.empty,
      upstream_up = Map.empty, upstream_scrape_age_seconds = Map.empty,
      upstream_scrape_failures_total = Map.empty, upstream_wedge_suspected = Map.empty,
      upstream_wedge_stall_seconds = Map.empty, event_loop_lag_seconds = 0\<rparr>"

definition inc :: "'l \<Rightarrow> int \<Rightarrow> ('l \<rightharpoonup> int) \<Rightarrow> ('l \<rightharpoonup> int)" where
  "inc l n m = m(l \<mapsto> (case m l of None \<Rightarrow> 0 | Some v \<Rightarrow> v) + n)"

definition observe_value :: "'l \<Rightarrow> real \<Rightarrow> ('l \<rightharpoonup> real list) \<Rightarrow> ('l \<rightharpoonup> real list)" where
  "observe_value l x m = m(l \<mapsto> (case m l of None \<Rightarrow> [] | Some xs \<Rightarrow> xs) @ [x])"

definition counter_value :: "('l \<rightharpoonup> int) \<Rightarrow> 'l \<Rightarrow> int" where
  "counter_value m l = (case m l of None \<Rightarrow> 0 | Some v \<Rightarrow> v)"

lemma dom_inc [simp]: "dom (inc l n m) = insert l (dom m)"
  by (simp add: inc_def)

lemma dom_observe_value [simp]: "dom (observe_value l x m) = insert l (dom m)"
  by (simp add: observe_value_def)

lemma counter_value_inc [simp]:
  "counter_value (inc l n m) l' = counter_value m l' + (if l' = l then n else 0)"
  by (simp add: counter_value_def inc_def split: option.splits)

subsection \<open>Folding labels\<close>

text \<open>The model name comes from a request body, so it can be any JSON value; only a string on
  the allowlist becomes a label.\<close>

definition safe_model :: "settings \<Rightarrow> json \<Rightarrow> string" where
  "safe_model cfg model =
     (case model of
        JStr s \<Rightarrow> if s \<noteq> [] \<and> s \<in> set (ALLOWED_MODELS cfg) then s else ''other''
      | _ \<Rightarrow> ''other'')"

definition record_rejection :: "string \<Rightarrow> metrics \<Rightarrow> metrics" where
  "record_rejection reason m =
     (let reason = (if reason \<notin> set REJECT_REASONS then ''other'' else reason) in
      m\<lparr>rejections_total := inc reason 1 (rejections_total m)\<rparr>)"

definition outcome_of :: "int \<Rightarrow> string" where
  "outcome_of status =
     (if status \<ge> 500 then ''server_error''
      else if status \<ge> 400 then ''client_error''
      else ''success'')"

subsection \<open>The middleware\<close>

text \<open>What the wrapped application did with one request: the status of each
  \<open>http.response.start\<close> message it sent, and how it ended.\<close>

datatype app_exit = Returned | Raised py_exn

record http_scope =
  sc_type :: string
  sc_route_path :: "string option"
  sc_method :: "string option"
  sc_auth_method :: "string option"

definition get_or :: "'a \<Rightarrow> 'a option \<Rightarrow> 'a" where
  "get_or d v = (case v of None \<Rightarrow> d | Some x \<Rightarrow> x)"

text \<open>\<open>_record\<close>: a scrape of \<open>/metrics\<close> is not counted.\<close>

definition record_request :: "http_scope \<Rightarrow> int \<Rightarrow> real \<Rightarrow> metrics \<Rightarrow> metrics" where
  "record_request sc status elapsed m =
     (let route = (case sc_route_path sc of
                     None \<Rightarrow> ''__unmatched__''
                   | Some p \<Rightarrow> if p = [] then ''__unmatched__'' else p) in
      if route = ''/metrics'' then m
      else
        (let auth_method = get_or ''none'' (sc_auth_method sc);
             meth = get_or ''GET'' (sc_method sc)
         in m\<lparr>requests_total := inc (route, meth, str_int status, auth_method) 1 (requests_total m),
              request_duration_seconds :=
                observe_value (route, outcome_of status) elapsed (request_duration_seconds m)\<rparr>))"

definition sent_status :: "int list \<Rightarrow> int" where
  "sent_status statuses = (if statuses = [] then 500 else last statuses)"

definition middleware_start :: "metrics \<Rightarrow> metrics" where
  "middleware_start m = m\<lparr>inflight_requests := inflight_requests m + 1\<rparr>"

definition middleware_finish ::
  "http_scope \<Rightarrow> int list \<Rightarrow> app_exit \<Rightarrow> real \<Rightarrow> metrics \<Rightarrow> metrics" where
  "middleware_finish sc statuses exit elapsed m =
     (let status = (case exit of
                      Raised e \<Rightarrow> if is_Exception e then 500 else sent_status statuses
                    | Returned \<Rightarrow> sent_status statuses) in
      record_request sc status elapsed (m\<lparr>inflight_requests := inflight_requests m - 1\<rparr>))"

text \<open>\<open>__call__\<close>: the application runs between the two halves, and may write metrics of its
  own; the authentication dependency sets \<open>auth_method\<close> in the shared state meanwhile, so
  the scope is the one the application leaves.\<close>

definition middleware_call ::
  "(http_scope \<Rightarrow> metrics \<Rightarrow> int list \<times> app_exit \<times> http_scope \<times> metrics) \<Rightarrow> real \<Rightarrow>
   http_scope \<Rightarrow> metrics \<Rightarrow> app_exit \<times> metrics" where
  "middleware_call app elapsed sc m =
     (if sc_type sc \<noteq> ''http'' then
        (let (_, exit, _, m') = app sc m in (exit, m'))
      else
        (let (statuses, exit, sc', m') = app sc (middleware_start m)
         in (exit, middleware_finish sc' statuses exit elapsed m')))"

subsection \<open>Label values stay in a fixed vocabulary\<close>

definition model_labels :: "settings \<Rightarrow> string set" where
  "model_labels cfg = insert ''other'' (set (ALLOWED_MODELS cfg))"

lemma safe_model_label: "safe_model cfg model \<in> model_labels cfg"
  by (simp add: safe_model_def model_labels_def split: json.split)

lemma safe_model_allowed: "s \<noteq> [] \<Longrightarrow> s \<in> set (ALLOWED_MODELS cfg) \<Longrightarrow> safe_model cfg (JStr s) = s"
  by (simp add: safe_model_def)

lemma allowed_model_nonempty: "s \<in> set (ALLOWED_MODELS cfg) \<Longrightarrow> s \<noteq> []"
  using csv_items by (auto simp: ALLOWED_MODELS_def)

definition reject_labels :: "string set" where
  "reject_labels = insert ''other'' (set REJECT_REASONS)"

lemma record_rejection_dom: "dom (rejections_total (record_rejection r m)) \<subseteq> dom (rejections_total m) \<union> reject_labels"
  by (auto simp: record_rejection_def reject_labels_def Let_def)

lemma record_rejection_known:
  "r \<in> set REJECT_REASONS \<Longrightarrow>
   record_rejection r m = m\<lparr>rejections_total := inc r 1 (rejections_total m)\<rparr>"
  by (simp add: record_rejection_def)

lemma record_request_inflight [simp]: "inflight_requests (record_request sc s e m) = inflight_requests m"
  by (simp add: record_request_def Let_def)

text \<open>Every HTTP request is counted exactly once, whatever happens inside the
  application: the in-flight gauge is back at what the application itself left it at, an
  application that returns is recorded with the status it sent, one that raises an ordinary
  exception is recorded as 500 even if it had already sent a status, and only scrapes of
  \<open>/metrics\<close> go uncounted.\<close>

theorem middleware_counts_every_request:
  assumes "sc_type sc = ''http''"
    and "app sc (middleware_start m) = (statuses, exit, sc', m')"
    and "sc_route_path sc' = Some route" and "route \<noteq> []"
    and "inflight_requests m' = inflight_requests m + 1"
  shows "let m2 = snd (middleware_call app elapsed sc m);
             status = (if \<exists>e. exit = Raised e \<and> e \<noteq> CancelledError then 500
                       else if statuses = [] then 500 else last statuses);
             key = (route, get_or ''GET'' (sc_method sc'), str_int status, get_or ''none'' (sc_auth_method sc'))
         in inflight_requests m2 = inflight_requests m \<and>
            (if route = ''/metrics'' then requests_total m2 = requests_total m'
             else counter_value (requests_total m2) key = counter_value (requests_total m') key + 1 \<and>
                  (\<forall>k. k \<noteq> key \<longrightarrow> counter_value (requests_total m2) k = counter_value (requests_total m') k))"
proof -
  have status: "(case exit of Raised e \<Rightarrow> if is_Exception e then 500 else sent_status statuses
      | Returned \<Rightarrow> sent_status statuses) =
      (if \<exists>e. exit = Raised e \<and> e \<noteq> CancelledError then 500
       else if statuses = [] then 500 else last statuses)"
    by (cases exit) (simp_all add: is_Exception_def sent_status_def)
  have call: "snd (middleware_call app elapsed sc m) = middleware_finish sc' statuses exit elapsed m'"
    using assms(1,2) by (simp add: middleware_call_def)
  show ?thesis
    unfolding call middleware_finish_def status
    using assms(3-5) by (simp add: record_request_def Let_def)
qed

theorem middleware_counts_every_request_witness:
  "let sc = \<lparr>sc_type = ''http'', sc_route_path = Some ''/x'', sc_method = Some ''POST'', sc_auth_method = None\<rparr>;
       app = (\<lambda>sc m. ([200], Raised ValueError, sc, m));
       m2 = snd (middleware_call app 1 sc new_metrics)
   in counter_value (requests_total m2) (''/x'', ''POST'', str_int 500, ''none'') = 1 \<and> inflight_requests m2 = 0"
  using middleware_counts_every_request
    [of "\<lparr>sc_type = ''http'', sc_route_path = Some ''/x'', sc_method = Some ''POST'', sc_auth_method = None\<rparr>"
        "\<lambda>sc m. ([200], Raised ValueError, sc, m)" new_metrics "[200]" "Raised ValueError"
        "\<lparr>sc_type = ''http'', sc_route_path = Some ''/x'', sc_method = Some ''POST'', sc_auth_method = None\<rparr>"
        "middleware_start new_metrics" "''/x''" 1]
  by (simp add: middleware_start_def new_metrics_def get_or_def Let_def counter_value_def)

end
