(* ===== verification/Scraper.thy ===== *)
theory Scraper
  imports Gw_Metrics
begin

section \<open>The wedge signal (gateway/upstream/metrics_scraper.py)\<close>

text \<open>
  Scraping each replica's own \<open>/metrics\<close> and deriving from two of its series whether the
  engine has stopped. \<open>text_string_to_metric_families\<close> belongs to prometheus_client: it is
  the parameter \<open>families\<close>, answering for a text the samples of each family (or raising).
  Sample values are reals. The HTTP client is a parameter too: what one scrape of a URL
  answers. The logger is not modelled.
\<close>

subsection \<open>Which series, and where\<close>

datatype aggregation = Agg_sum | Agg_max

definition SERIES :: "(string \<times> aggregation) list" where
  "SERIES =
     [(''vllm:num_requests_waiting'', Agg_sum),
      (''vllm:num_requests_running'', Agg_sum),
      (''vllm:generation_tokens_total'', Agg_sum),
      (''vllm:prompt_tokens_total'', Agg_sum),
      (''vllm:num_preemptions_total'', Agg_sum),
      (''vllm:prefix_cache_hits_total'', Agg_sum),
      (''vllm:prefix_cache_queries_total'', Agg_sum),
      (''vllm:kv_cache_usage_perc'', Agg_max)]"

definition metrics_url :: "string \<Rightarrow> string" where
  "metrics_url base =
     (let trimmed = py_rstrip CHR ''/'' base;
          trimmed = (if endswith trimmed ''/v1'' then take (length trimmed - length ''/v1'') trimmed else trimmed)
      in trimmed @ ''/metrics'')"

type_synonym snapshot_values = "(string \<times> real) list"

definition parse_sample :: "snapshot_values \<Rightarrow> string \<times> real \<Rightarrow> snapshot_values" where
  "parse_sample out s =
     (let (name, v) = s in
      case dict_get SERIES name of
        None \<Rightarrow> out
      | Some how \<Rightarrow>
          (case dict_get out name of
             None \<Rightarrow> dict_set name v out
           | Some old \<Rightarrow>
               (case how of
                  Agg_sum \<Rightarrow> dict_set name (old + v) out
                | Agg_max \<Rightarrow> dict_set name (max old v) out)))"

definition parse ::
  "(string \<Rightarrow> py_exn + (string \<times> real) list list) \<Rightarrow> string \<Rightarrow> py_exn + snapshot_values" where
  "parse families text =
     bindE (families text) (\<lambda>fams. Inr (foldl (\<lambda>out samples. foldl parse_sample out samples) [] fams))"

subsection \<open>The detector\<close>

record wedge_detector =
  wd_window_sec :: pyfloat
  wd_last_gen_tokens :: "real option"
  wd_stall_since :: "real option"

definition new_detector :: "pyfloat \<Rightarrow> wedge_detector" where
  "new_detector w = \<lparr>wd_window_sec = w, wd_last_gen_tokens = None, wd_stall_since = None\<rparr>"

definition observe :: "wedge_detector \<Rightarrow> snapshot_values \<Rightarrow> real \<Rightarrow> wedge_detector" where
  "observe d snapshot now =
     (let waiting = get_or 0 (dict_get snapshot ''vllm:num_requests_waiting'') in
      case dict_get snapshot ''vllm:generation_tokens_total'' of
        None \<Rightarrow> d
      | Some gen \<Rightarrow>
          (let previous = wd_last_gen_tokens d;
               d = d\<lparr>wd_last_gen_tokens := Some gen\<rparr>
           in case previous of
                None \<Rightarrow> d
              | Some prev \<Rightarrow>
                  if gen < prev then d\<lparr>wd_stall_since := None\<rparr>
                  else if waiting > 0 \<and> gen = prev then
                    (if wd_stall_since d = None then d\<lparr>wd_stall_since := Some now\<rparr> else d)
                  else d\<lparr>wd_stall_since := None\<rparr>))"

definition on_scrape_failure :: "wedge_detector \<Rightarrow> wedge_detector" where
  "on_scrape_failure d = d"

definition stall_seconds :: "wedge_detector \<Rightarrow> real \<Rightarrow> real" where
  "stall_seconds d now = (case wd_stall_since d of None \<Rightarrow> 0 | Some t \<Rightarrow> max 0 (now - t))"

definition reaches :: "real \<Rightarrow> pyfloat \<Rightarrow> bool" where
  "reaches x w = (case w of Fin r \<Rightarrow> x \<ge> r | NInf \<Rightarrow> True | PInf \<Rightarrow> False | NaN \<Rightarrow> False)"

definition suspected :: "wedge_detector \<Rightarrow> real \<Rightarrow> bool" where
  "suspected d now = reaches (stall_seconds d now) (wd_window_sec d)"

subsection \<open>The poller\<close>

record poller =
  po_detectors :: "(string \<times> wedge_detector) list"
  po_last_ok :: "string \<rightharpoonup> real"
  po_failing :: "string set"

definition new_poller :: poller where
  "new_poller = \<lparr>po_detectors = [], po_last_ok = Map.empty, po_failing = {}\<rparr>"

definition get_detector :: "settings \<Rightarrow> poller \<Rightarrow> string \<Rightarrow> wedge_detector" where
  "get_detector cfg po url =
     get_or (new_detector (UPSTREAM_WEDGE_WINDOW_SEC cfg)) (dict_get (po_detectors po) url)"

definition wedge_suspected :: "poller \<Rightarrow> string \<Rightarrow> real \<Rightarrow> bool" where
  "wedge_suspected po url now =
     (case dict_get (po_detectors po) url of None \<Rightarrow> False | Some d \<Rightarrow> suspected d now)"

text \<open>What the HTTP client answers: a status and a text, or an exception with its class
  name.\<close>

datatype scrape_response = Scraped int string | Scrape_raised string

fun contains :: "string \<Rightarrow> string \<Rightarrow> bool" where
  "contains p [] = (p = [])"
| "contains p (x # xs) = (startswith (x # xs) p \<or> contains p xs)"

definition scrape_fail :: "string \<Rightarrow> string \<Rightarrow> string \<Rightarrow> real \<Rightarrow> poller \<times> metrics \<Rightarrow> poller \<times> metrics" where
  "scrape_fail label url kind now pm =
     (let (po, m) = pm;
          po = po\<lparr>po_detectors := map (\<lambda>(u, d). (u, if u = url then on_scrape_failure d else d)) (po_detectors po)\<rparr>;
          m = m\<lparr>upstream_scrape_failures_total := inc (label, kind) 1 (upstream_scrape_failures_total m),
                upstream_up := (upstream_up m)(label \<mapsto> 0)\<rparr>;
          m = (case po_last_ok po url of
                 None \<Rightarrow> m
               | Some t \<Rightarrow>
                   m\<lparr>upstream_scrape_age_seconds := (upstream_scrape_age_seconds m)(label \<mapsto> now - t)\<rparr>)
      in (po\<lparr>po_failing := insert url (po_failing po)\<rparr>, m))"

text \<open>\<open>_poll_one\<close>: \<open>now\<close> is read at the start, \<open>later\<close> by \<open>_fail\<close>. Reaching for the detector
  creates it.\<close>

definition poll_one ::
  "settings \<Rightarrow> (string \<Rightarrow> py_exn + (string \<times> real) list list) \<Rightarrow> (string \<Rightarrow> scrape_response) \<Rightarrow>
   string \<Rightarrow> string \<Rightarrow> real \<Rightarrow> real \<Rightarrow> poller \<times> metrics \<Rightarrow> poller \<times> metrics" where
  "poll_one cfg families client label url now later pm =
     (let (po, m) = pm;
          detector = get_detector cfg po url;
          po = po\<lparr>po_detectors := dict_set url detector (po_detectors po)\<rparr>
      in case client (metrics_url url) of
           Scrape_raised name \<Rightarrow>
             scrape_fail label url (if contains ''Timeout'' name then ''timeout'' else ''connect'') later (po, m)
         | Scraped status text \<Rightarrow>
             if status \<ge> 400 then scrape_fail label url ''http_status'' later (po, m)
             else
               (case parse families text of
                  Inl e \<Rightarrow> scrape_fail label url ''connect'' later (po, m)
                | Inr snapshot \<Rightarrow>
                    if snapshot = [] then scrape_fail label url ''parse'' later (po, m)
                    else
                      (let d = observe detector snapshot now;
                           po = po\<lparr>po_detectors := dict_set url d (po_detectors po),
                                   po_last_ok := (po_last_ok po)(url \<mapsto> now),
                                   po_failing := po_failing po - {url}\<rparr>
                       in (po, m\<lparr>upstream_up := (upstream_up m)(label \<mapsto> 1),
                                 upstream_scrape_age_seconds := (upstream_scrape_age_seconds m)(label \<mapsto> 0),
                                 upstream_wedge_stall_seconds :=
                                   (upstream_wedge_stall_seconds m)(label \<mapsto> stall_seconds d now),
                                 upstream_wedge_suspected :=
                                   (upstream_wedge_suspected m)(label \<mapsto> (if suspected d now then 1 else 0))\<rparr>))))"

definition poll_once ::
  "settings \<Rightarrow> (string \<Rightarrow> py_exn + (string \<times> real) list list) \<Rightarrow> (string \<Rightarrow> scrape_response) \<Rightarrow>
   (nat \<Rightarrow> real \<times> real) \<Rightarrow> string list \<Rightarrow> poller \<times> metrics \<Rightarrow> poller \<times> metrics" where
  "poll_once cfg families client clock urls pm =
     foldl (\<lambda>pm (i, url). poll_one cfg families client (str_int (int i)) url (fst (clock i)) (snd (clock i)) pm)
       pm (enumerate 0 urls)"


subsection \<open>The \<open>/metrics\<close> address\<close>

lemma py_rstrip_replicate: "py_rstrip c (s @ replicate n c) = py_rstrip c s"
  by (induction n) (simp_all add: replicate_append_same [symmetric] append_assoc [symmetric]
      del: append_assoc replicate.simps(2) add: replicate_Suc)

text \<open>The scrape address is at the server's root, whatever trailing slashes the
  configured entry carries: an entry \<open>host/v1\<close> is scraped at \<open>host/metrics\<close>, and an entry
  with no \<open>/v1\<close> at the end has \<open>/metrics\<close> appended to it.\<close>

theorem metrics_url_at_root:
  "metrics_url (host @ ''/v1'' @ replicate n CHR ''/'') = host @ ''/metrics'' \<and>
   (\<not> endswith (py_rstrip CHR ''/'' base) ''/v1'' \<longrightarrow>
      metrics_url base = py_rstrip CHR ''/'' base @ ''/metrics'')"
proof -
  have "py_rstrip CHR ''/'' (host @ ''/v1'') = host @ ''/v1''"
    by (rule py_rstrip_not_last) simp
  then have "py_rstrip CHR ''/'' ((host @ ''/v1'') @ replicate n CHR ''/'') = host @ ''/v1''"
    by (simp only: py_rstrip_replicate)
  moreover have "endswith (host @ ''/v1'') ''/v1''" by (rule endswith_append)
  ultimately show ?thesis by (simp add: metrics_url_def)
qed

theorem metrics_url_at_root_witness:
  "metrics_url ''http://10.0.0.1:8000/'' = ''http://10.0.0.1:8000/metrics''"
proof -
  have "\<not> endswith (py_rstrip CHR ''/'' ''http://10.0.0.1:8000/'') ''/v1''"
    by (simp add: py_rstrip_def endswith_def)
  then have "metrics_url ''http://10.0.0.1:8000/'' = py_rstrip CHR ''/'' ''http://10.0.0.1:8000/'' @ ''/metrics''"
    using metrics_url_at_root [where base = "''http://10.0.0.1:8000/''"] by blast
  then show ?thesis by (simp add: py_rstrip_def)
qed

subsection \<open>What \<open>parse\<close> reduces an exposition to\<close>

definition values_of :: "string \<Rightarrow> (string \<times> real) list \<Rightarrow> real list" where
  "values_of name samples = [v. (n, v) \<leftarrow> samples, n = name]"

definition aggregate :: "aggregation \<Rightarrow> real list \<Rightarrow> real" where
  "aggregate how xs = (case how of Agg_sum \<Rightarrow> sum_list xs | Agg_max \<Rightarrow> Max (set xs))"

lemma values_of_snoc:
  "values_of name (samples @ [(n, v)]) = values_of name samples @ (if n = name then [v] else [])"
  by (simp add: values_of_def)

lemma aggregate_snoc:
  "xs \<noteq> [] \<Longrightarrow> aggregate how (xs @ [v]) =
     (case how of Agg_sum \<Rightarrow> aggregate how xs + v | Agg_max \<Rightarrow> max (aggregate how xs) v)"
  by (cases how) (simp_all add: aggregate_def max.commute)

lemma parse_sample_other:
  "dict_get SERIES n = None \<Longrightarrow> parse_sample out (n, v) = out"
  by (simp add: parse_sample_def)

lemma parse_sample_get:
  "dict_get (parse_sample out (n, v)) name =
     (case dict_get SERIES n of
        None \<Rightarrow> dict_get out name
      | Some how \<Rightarrow>
          if n \<noteq> name then dict_get out name
          else (case dict_get out name of
                  None \<Rightarrow> Some v
                | Some old \<Rightarrow> Some (case how of Agg_sum \<Rightarrow> old + v | Agg_max \<Rightarrow> max old v)))"
  by (simp add: parse_sample_def split: option.splits aggregation.splits)

lemma parse_samples:
  "dict_get (foldl parse_sample [] samples) name =
     (case dict_get SERIES name of
        None \<Rightarrow> None
      | Some how \<Rightarrow>
          if values_of name samples = [] then None else Some (aggregate how (values_of name samples)))"
proof (induction samples rule: rev_induct)
  case Nil
  then show ?case by (simp add: values_of_def split: option.split)
next
  case (snoc s samples)
  obtain n v where s: "s = (n, v)" by (cases s)
  have one: "aggregate how [v] = v" for how by (cases how) (simp_all add: aggregate_def)
  show ?case
  proof (cases "n = name")
    case False
    with snoc show ?thesis
      by (simp add: s parse_sample_get values_of_snoc split: option.split)
  next
    case True
    with snoc show ?thesis
      by (auto simp: s parse_sample_get values_of_snoc one aggregate_snoc split: option.split)
  qed
qed

lemma foldl_families: "foldl (\<lambda>out samples. foldl f out samples) z fams = foldl f z (concat fams)"
  by (induction fams arbitrary: z) simp_all

text \<open>\<open>parse\<close> looks only at the eight series of the allowlist, under their exact sample
  names, and combines the samples of a series over engines by its own rule: counts are
  summed and the cache-usage ratio is maximised. A \<open>_created\<close> sibling, a
  \<open>_by_reason\<close> breakdown or a histogram bucket changes nothing, and the order of the
  samples does not matter.\<close>

theorem parse_aggregates:
  assumes "families text = Inr fams"
  shows "\<exists>out. parse families text = Inr out \<and>
     (\<forall>name. dict_get out name =
        (case dict_get SERIES name of
           None \<Rightarrow> None
         | Some how \<Rightarrow>
             if values_of name (concat fams) = [] then None
             else Some (aggregate how (values_of name (concat fams)))))"
  using assms by (simp add: parse_def foldl_families parse_samples)

theorem parse_aggregates_witness:
  "\<exists>out. parse (\<lambda>_. Inr [[(''vllm:kv_cache_usage_perc'', 1/2), (''vllm:kv_cache_usage_perc'', 1/4)],
                 [(''vllm:generation_tokens_total'', 7), (''vllm:generation_tokens_created'', 99)]]) ''x'' = Inr out \<and>
     dict_get out ''vllm:kv_cache_usage_perc'' = Some (1/2) \<and>
     dict_get out ''vllm:generation_tokens_total'' = Some 7 \<and>
     dict_get out ''vllm:generation_tokens_created'' = None"
  using parse_aggregates [of "\<lambda>_. Inr [[(''vllm:kv_cache_usage_perc'', 1/2), (''vllm:kv_cache_usage_perc'', 1/4)],
      [(''vllm:generation_tokens_total'', 7), (''vllm:generation_tokens_created'', 99)]]" "''x''", OF refl]
  by (auto simp: SERIES_def values_of_def aggregate_def)

subsection \<open>The detector against its history\<close>

text \<open>The observations a detector has been given that carry the token counter: requests
  waiting, tokens generated, time. A reading is stalled when something waits and the
  counter is where the previous reading left it.\<close>

definition informative :: "(snapshot_values \<times> real) list \<Rightarrow> (real \<times> real \<times> real) list" where
  "informative hist =
     concat (map (\<lambda>(s, t). case dict_get s ''vllm:generation_tokens_total'' of
        None \<Rightarrow> []
      | Some g \<Rightarrow> [(get_or 0 (dict_get s ''vllm:num_requests_waiting''), g, t)]) hist)"

definition stalled_at :: "(real \<times> real \<times> real) list \<Rightarrow> nat \<Rightarrow> bool" where
  "stalled_at obs i \<longleftrightarrow>
     0 < i \<and> i < length obs \<and> 0 < fst (obs ! i) \<and> fst (snd (obs ! i)) = fst (snd (obs ! (i - 1)))"

definition stall_run :: "(real \<times> real \<times> real) list \<Rightarrow> real \<Rightarrow> bool" where
  "stall_run obs t \<longleftrightarrow>
     (\<exists>i < length obs. t = snd (snd (obs ! i)) \<and> (\<forall>j. i \<le> j \<and> j < length obs \<longrightarrow> stalled_at obs j) \<and>
        \<not> stalled_at obs (i - 1))"

definition detect :: "wedge_detector \<Rightarrow> snapshot_values \<times> real \<Rightarrow> wedge_detector" where
  "detect d st = observe d (fst st) (snd st)"

lemma stalled_at_snoc: "j < length obs \<Longrightarrow> stalled_at (obs @ [ob]) j = stalled_at obs j"
  by (auto simp: stalled_at_def nth_append)

lemma stall_run_snoc:
  "stall_run (obs @ [ob]) t \<longleftrightarrow>
     stalled_at (obs @ [ob]) (length obs) \<and>
     (if stalled_at obs (length obs - 1) then stall_run obs t else t = snd (snd ob))"
proof (cases "stalled_at (obs @ [ob]) (length obs)")
  case False
  then show ?thesis
    by (auto simp: stall_run_def) (metis less_Suc_eq_le lessI)
next
  case True
  then have pos: "0 < length obs" by (simp add: stalled_at_def)
  have old: "stalled_at (obs @ [ob]) (i - 1) = stalled_at obs (i - 1)" if "i \<le> length obs" for i
    using that pos by (intro stalled_at_snoc) arith
  have run: "(\<forall>j. i \<le> j \<and> j < Suc (length obs) \<longrightarrow> stalled_at (obs @ [ob]) j) \<longleftrightarrow>
      (\<forall>j. i \<le> j \<and> j < length obs \<longrightarrow> stalled_at obs j)" for i
    using True stalled_at_snoc by (metis less_SucE less_SucI)
  have last_run: "stalled_at obs (length obs - 1)"
    if "i < length obs" and "\<forall>j. i \<le> j \<and> j < length obs \<longrightarrow> stalled_at obs j" for i
    using that pos by auto
  have "stall_run (obs @ [ob]) t \<longleftrightarrow>
      (\<exists>i \<le> length obs. t = snd (snd ((obs @ [ob]) ! i)) \<and>
         (\<forall>j. i \<le> j \<and> j < length obs \<longrightarrow> stalled_at obs j) \<and> \<not> stalled_at obs (i - 1))"
    unfolding stall_run_def length_append_singleton run
    by (metis less_Suc_eq_le old)
  also have "\<dots> \<longleftrightarrow> (if stalled_at obs (length obs - 1) then stall_run obs t else t = snd (snd ob))"
  proof (cases "stalled_at obs (length obs - 1)")
    case True
    then show ?thesis
      unfolding stall_run_def by (metis (no_types, lifting) le_neq_implies_less less_imp_le nth_append)
  next
    case False
    then show ?thesis
      using last_run by (metis le_neq_implies_less le_refl leD nth_append_length)
  qed
  finally show ?thesis using True by simp
qed

definition history_ok :: "wedge_detector \<Rightarrow> (real \<times> real \<times> real) list \<Rightarrow> bool" where
  "history_ok d obs \<longleftrightarrow>
     wd_last_gen_tokens d = (if obs = [] then None else Some (fst (snd (last obs)))) \<and>
     (wd_stall_since d \<noteq> None) = stalled_at obs (length obs - 1) \<and>
     (\<forall>t. wd_stall_since d = Some t \<longleftrightarrow> stall_run obs t)"

lemma history_ok_new: "history_ok (new_detector w) []"
  by (simp add: history_ok_def new_detector_def stalled_at_def stall_run_def)

lemma stalled_at_last:
  "obs \<noteq> [] \<Longrightarrow> stalled_at (obs @ [(w, g, t)]) (length obs) \<longleftrightarrow> 0 < w \<and> g = fst (snd (last obs))"
  by (simp add: stalled_at_def nth_append last_conv_nth)

lemma history_ok_observe:
  assumes ok: "history_ok d obs" and gen: "dict_get s ''vllm:generation_tokens_total'' = Some g"
  shows "history_ok (observe d s t) (obs @ [(get_or 0 (dict_get s ''vllm:num_requests_waiting''), g, t)])"
proof (cases "obs = []")
  case True
  with ok gen show ?thesis
    by (simp add: history_ok_def observe_def stalled_at_def stall_run_def)
next
  case False
  define w where "w = get_or 0 (dict_get s ''vllm:num_requests_waiting'')"
  have l: "wd_last_gen_tokens d = Some (fst (snd (last obs)))"
    using ok False by (simp add: history_ok_def)
  have st: "stalled_at (obs @ [(w, g, t)]) (length obs) \<longleftrightarrow> 0 < w \<and> g = fst (snd (last obs))"
    using False by (rule stalled_at_last)
  have d: "observe d s t =
      d\<lparr>wd_last_gen_tokens := Some g,
        wd_stall_since := (if stalled_at (obs @ [(w, g, t)]) (length obs)
           then Some (get_or t (wd_stall_since d)) else None)\<rparr>"
    unfolding observe_def st w_def [symmetric] using gen l
    by (cases "wd_stall_since d") (auto simp: Let_def get_or_def)
  have "history_ok (observe d s t) (obs @ [(w, g, t)])"
    using ok unfolding history_ok_def d stall_run_snoc
    by (cases "wd_stall_since d") (auto simp: get_or_def)
  then show ?thesis by (simp add: w_def)
qed

lemma detect_history: "history_ok (foldl detect (new_detector w) hist) (informative hist)"
proof (induction hist rule: rev_induct)
  case Nil
  then show ?case by (simp add: history_ok_new informative_def)
next
  case (snoc st hist)
  obtain s t where st: "st = (s, t)" by (cases st)
  show ?case
  proof (cases "dict_get s ''vllm:generation_tokens_total''")
    case None
    with snoc show ?thesis by (simp add: st detect_def observe_def informative_def)
  next
    case (Some g)
    with history_ok_observe [OF snoc Some] show ?thesis
      by (simp add: st detect_def informative_def)
  qed
qed

lemma detect_window: "wd_window_sec (foldl detect d hist) = wd_window_sec d"
  by (induction hist arbitrary: d)
    (simp_all add: detect_def observe_def Let_def split: option.splits)

interpretation detector: invariant_machine detect "\<lambda>d. wd_last_gen_tokens d = None \<longrightarrow> wd_stall_since d = None"
  by unfold_locales (simp add: detect_def observe_def Let_def split: option.splits)

text \<open>C31. The detector computes the wedge signature of its whole history: after any
  sequence of scrapes it suspects a wedge at \<open>now\<close> exactly when there is a last unbroken run
  of readings, each with requests waiting and the token counter unmoved since the reading
  before, whose first reading lies a full window back. Readings without the counter are
  ignored, an idle reading, a moving counter or one that went back ends the run.\<close>

theorem suspected_iff_stall_run:
  assumes "0 < window"
  shows "suspected (foldl detect (new_detector (Fin window)) hist) now \<longleftrightarrow>
         (\<exists>t. stall_run (informative hist) t \<and> t + window \<le> now)"
proof -
  let ?d = "foldl detect (new_detector (Fin window)) hist"
  have "wd_window_sec ?d = Fin window" by (simp add: detect_window new_detector_def)
  moreover have "stall_run (informative hist) t \<longleftrightarrow> wd_stall_since ?d = Some t" for t
    using detect_history by (simp add: history_ok_def)
  ultimately show ?thesis
    using assms
    by (cases "wd_stall_since ?d") (auto simp: suspected_def reaches_def stall_seconds_def algebra_simps)
qed

definition stuck_history :: "(snapshot_values \<times> real) list" where
  "stuck_history =
     [([(''vllm:num_requests_waiting'', 1), (''vllm:generation_tokens_total'', 7)], t). t \<leftarrow> [0, 5, 10]]"

theorem suspected_iff_stall_run_witness:
  "suspected (foldl detect (new_detector (Fin 120)) stuck_history) 125 \<and>
   \<not> suspected (foldl detect (new_detector (Fin 120)) stuck_history) 124"
proof -
  have "stall_run (informative stuck_history) t \<longleftrightarrow> t = 5" for t
    using detect_history [of "Fin 120" stuck_history]
    by (simp add: history_ok_def stuck_history_def detect_def observe_def new_detector_def get_or_def)
  then show ?thesis
    using suspected_iff_stall_run [of 120 stuck_history 125] suspected_iff_stall_run [of 120 stuck_history 124]
    by simp
qed

subsection \<open>A failed scrape is no information\<close>

lemma map_same: "map (\<lambda>(u, d). (u, if u = url then on_scrape_failure d else d)) xs = xs"
  by (induction xs) (auto simp: on_scrape_failure_def)

lemma scrape_fail_poller:
  "scrape_fail label url kind now (po, m) = (po', m') \<Longrightarrow>
   po' = po\<lparr>po_failing := insert url (po_failing po)\<rparr> \<and> upstream_up m' label = Some 0 \<and>
   upstream_wedge_suspected m' = upstream_wedge_suspected m"
  by (auto simp: scrape_fail_def map_same Let_def split: option.splits)

definition scrape_failed ::
  "(string \<Rightarrow> py_exn + (string \<times> real) list list) \<Rightarrow> scrape_response \<Rightarrow> bool" where
  "scrape_failed families r =
     (case r of
        Scrape_raised name \<Rightarrow> True
      | Scraped status text \<Rightarrow>
          status \<ge> 400 \<or> (case parse families text of Inl e \<Rightarrow> True | Inr s \<Rightarrow> s = []))"

lemma poll_one_failed:
  assumes "scrape_failed families (client (metrics_url url))"
  shows "\<exists>kind. poll_one cfg families client label url now later (po, m) =
     scrape_fail label url kind later
       (po\<lparr>po_detectors := dict_set url (get_detector cfg po url) (po_detectors po)\<rparr>, m)"
  using assms
  by (auto simp: scrape_failed_def poll_one_def Let_def split: scrape_response.splits sum.splits if_splits)

text \<open>A failed scrape, in any of its ways (an exception, an error status, a text that does
  not parse, none of the series), neither advances nor clears the signal: the replica's
  detector is exactly as before, so a suspicion already held stays held and one not yet due
  falls due at the same moment, while the replica is reported down.\<close>

theorem failed_scrape_is_no_information:
  assumes "scrape_failed families (client (metrics_url url))"
    and "poll_one cfg families client label url now later (po, m) = (po', m')"
  shows "get_detector cfg po' v = get_detector cfg po v \<and>
         (dict_get (po_detectors po) v \<noteq> None \<longrightarrow> wedge_suspected po' v t = wedge_suspected po v t) \<and>
         po_last_ok po' = po_last_ok po \<and> url \<in> po_failing po' \<and> upstream_up m' label = Some 0"
proof -
  obtain kind where "scrape_fail label url kind later
      (po\<lparr>po_detectors := dict_set url (get_detector cfg po url) (po_detectors po)\<rparr>, m) = (po', m')"
    using poll_one_failed [where client = client and families = families and url = url and cfg = cfg
        and label = label and now = now and later = later and po = po and m = m, OF assms(1)] assms(2)
    by metis
  from scrape_fail_poller [OF this] show ?thesis
    by (auto simp: get_detector_def get_or_def wedge_suspected_def split: option.splits)
qed

theorem failed_scrape_is_no_information_witness:
  "get_detector default_settings
     (fst (poll_one default_settings (\<lambda>_. Inr []) (\<lambda>_. Scrape_raised ''ReadTimeout'') ''0'' ''http://u/v1'' 1 1
             (new_poller, new_metrics))) ''http://u/v1'' =
   get_detector default_settings new_poller ''http://u/v1''"
proof -
  obtain po m where p: "poll_one default_settings (\<lambda>_. Inr []) (\<lambda>_. Scrape_raised ''ReadTimeout'') ''0''
      ''http://u/v1'' 1 1 (new_poller, new_metrics) = (po, m)"
    by fastforce
  have "scrape_failed (\<lambda>_. Inr []) ((\<lambda>_. Scrape_raised ''ReadTimeout'') (metrics_url ''http://u/v1''))"
    by (simp add: scrape_failed_def)
  from failed_scrape_is_no_information [OF this p] p show ?thesis by simp
qed

end
