(* ===== verification/Breaker.thy ===== *)
theory Breaker
  imports Gw_Prelude
begin

section \<open>The per-replica circuit breaker (gateway/upstream/breaker.py)\<close>

text \<open>
  \<open>ReplicaBreaker\<close> as a record with one function per method, the clock passed in as in
  the code; \<open>BreakerRegistry\<close> as an association list from URL to breaker. The logger is
  not modelled. The step relation \<open>breaker_trans\<close> adds what the callers guarantee: the
  clock does not go back, \<open>record_wedge\<close> is called on a closed breaker and
  \<open>record_probe\<close> on one that is not closed (gateway/main.py, \<open>_breaker_prober\<close>).
\<close>

subsection \<open>Vocabulary and constants\<close>

datatype breaker_state = CLOSED | OPEN | HALF_OPEN

fun state_value :: "breaker_state \<Rightarrow> string" where
  "state_value CLOSED = ''closed''"
| "state_value OPEN = ''open''"
| "state_value HALF_OPEN = ''half_open''"

datatype failure_kind = CONNECT | READ_TIMEOUT | SERVER_ERROR | THROTTLED | CLIENT_ERROR | WEDGE

fun WEIGHTS :: "failure_kind \<Rightarrow> int" where
  "WEIGHTS CONNECT = 3"
| "WEIGHTS READ_TIMEOUT = 3"
| "WEIGHTS SERVER_ERROR = 1"
| "WEIGHTS THROTTLED = 0"
| "WEIGHTS CLIENT_ERROR = 0"
| "WEIGHTS WEDGE = 6"

definition TRIP_SCORE :: int where [gw_defs]: "TRIP_SCORE = 6"
definition INITIAL_OPEN_SEC :: real where [gw_defs]: "INITIAL_OPEN_SEC = 15"
definition MAX_OPEN_SEC :: real where [gw_defs]: "MAX_OPEN_SEC = 60"
definition PROBE_INTERVAL_SEC :: real where [gw_defs]: "PROBE_INTERVAL_SEC = 5"
definition PROBES_TO_CLOSE :: int where [gw_defs]: "PROBES_TO_CLOSE = 2"
definition PROBATION_SEC :: real where [gw_defs]: "PROBATION_SEC = 60"

subsection \<open>One replica's state\<close>

record replica_breaker =
  rb_url :: string
  rb_trip_score :: int
  rb_state :: breaker_state
  rb_score :: int
  rb_opened_at :: "real option"
  rb_open_sec :: real
  rb_good_probes :: int
  rb_last_probe_at :: "real option"
  rb_probation_until :: real
  rb_wedge_confirmations :: int
  rb_trips :: int
  rb_label :: string

definition new_breaker :: "string \<Rightarrow> string \<Rightarrow> replica_breaker" where
  "new_breaker u lbl =
     \<lparr>rb_url = u, rb_trip_score = TRIP_SCORE, rb_state = CLOSED, rb_score = 0,
      rb_opened_at = None, rb_open_sec = INITIAL_OPEN_SEC, rb_good_probes = 0,
      rb_last_probe_at = None, rb_probation_until = 0, rb_wedge_confirmations = 0,
      rb_trips = 0, rb_label = lbl\<rparr>"

definition threshold :: "replica_breaker \<Rightarrow> real \<Rightarrow> int" where
  "threshold b now =
     (if now < rb_probation_until b then max 1 (rb_trip_score b div 2) else rb_trip_score b)"

definition allows :: "replica_breaker \<Rightarrow> bool" where
  "allows b \<longleftrightarrow> rb_state b = CLOSED"

definition record_success :: "replica_breaker \<Rightarrow> real \<Rightarrow> replica_breaker" where
  "record_success b now = b\<lparr>rb_score := 0, rb_wedge_confirmations := 0\<rparr>"

definition open_breaker :: "replica_breaker \<Rightarrow> real \<Rightarrow> replica_breaker" where
  "open_breaker b now =
     b\<lparr>rb_state := OPEN, rb_opened_at := Some now, rb_good_probes := 0,
       rb_last_probe_at := None, rb_trips := rb_trips b + 1\<rparr>"

definition record_failure :: "replica_breaker \<Rightarrow> failure_kind \<Rightarrow> real \<Rightarrow> replica_breaker" where
  "record_failure b kind now =
     (let weight = WEIGHTS kind in
      if weight = 0 then b
      else
        (let b = b\<lparr>rb_score := rb_score b + weight\<rparr> in
         if rb_state b = CLOSED \<and> rb_score b \<ge> threshold b now then open_breaker b now else b))"

definition record_wedge :: "replica_breaker \<Rightarrow> bool \<Rightarrow> real \<Rightarrow> replica_breaker" where
  "record_wedge b suspected now =
     (if \<not> suspected then b\<lparr>rb_wedge_confirmations := 0\<rparr>
      else
        (let b = b\<lparr>rb_wedge_confirmations := rb_wedge_confirmations b + 1\<rparr> in
         if rb_wedge_confirmations b = 1 then b
         else if rb_state b = CLOSED then record_failure b WEDGE now
         else b))"

definition due_for_probe :: "replica_breaker \<Rightarrow> real \<Rightarrow> bool" where
  "due_for_probe b now =
     (if rb_state b = CLOSED then False
      else if rb_state b = OPEN then
        (case rb_opened_at b of None \<Rightarrow> False | Some t \<Rightarrow> now - t \<ge> rb_open_sec b)
      else
        (case rb_last_probe_at b of None \<Rightarrow> True | Some t \<Rightarrow> now - t \<ge> PROBE_INTERVAL_SEC))"

definition close_breaker :: "replica_breaker \<Rightarrow> real \<Rightarrow> replica_breaker" where
  "close_breaker b now =
     b\<lparr>rb_state := CLOSED, rb_score := 0, rb_good_probes := 0, rb_opened_at := None,
       rb_open_sec := INITIAL_OPEN_SEC, rb_wedge_confirmations := 0,
       rb_probation_until := now + PROBATION_SEC\<rparr>"

definition record_probe :: "replica_breaker \<Rightarrow> bool \<Rightarrow> real \<Rightarrow> bool \<Rightarrow> replica_breaker" where
  "record_probe b ok now wedge_suspected =
     (let b = b\<lparr>rb_last_probe_at := Some now\<rparr> in
      if \<not> ok \<or> wedge_suspected then
        b\<lparr>rb_good_probes := 0, rb_state := OPEN, rb_opened_at := Some now,
          rb_open_sec := min (rb_open_sec b * 2) MAX_OPEN_SEC\<rparr>
      else
        (let b = b\<lparr>rb_state := HALF_OPEN, rb_good_probes := rb_good_probes b + 1\<rparr> in
         if rb_good_probes b \<ge> PROBES_TO_CLOSE then close_breaker b now else b))"

definition seconds_until_probe :: "replica_breaker \<Rightarrow> real \<Rightarrow> real" where
  "seconds_until_probe b now =
     (if rb_state b = CLOSED then 0
      else
        (case (rb_state b, rb_opened_at b) of
           (OPEN, Some t) \<Rightarrow> max 0 (rb_open_sec b - (now - t))
         | _ \<Rightarrow>
           (case rb_last_probe_at b of
              Some t \<Rightarrow> max 0 (PROBE_INTERVAL_SEC - (now - t))
            | None \<Rightarrow> 0)))"

lemmas breaker_ops =
  record_success_def open_breaker_def record_failure_def record_wedge_def
  close_breaker_def record_probe_def threshold_def allows_def

subsection \<open>The registry\<close>

type_synonym registry = "(string \<times> replica_breaker) list"

definition registry_reset :: "string list \<Rightarrow> registry" where
  "registry_reset urls =
     foldl (\<lambda>r (i, u). dict_set u (new_breaker u (str_int (int i))) r) [] (enumerate 0 urls)"

definition registry_get :: "registry \<Rightarrow> string \<Rightarrow> replica_breaker \<times> registry" where
  "registry_get r u =
     (case dict_get r u of
        Some b \<Rightarrow> (b, r)
      | None \<Rightarrow> (let b = new_breaker u ''?'' in (b, dict_set u b r)))"

definition registry_iter :: "registry \<Rightarrow> replica_breaker list" where
  "registry_iter r = map snd r"

definition snapshot :: "registry \<Rightarrow> (string \<times> string) list" where
  "snapshot r = map (\<lambda>(u, b). (u, state_value (rb_state b))) r"

text \<open>The object \<open>get\<close> hands out is mutated in place: a method called on it is a
  read and a write back of the entry.\<close>

definition registry_apply ::
  "(replica_breaker \<Rightarrow> replica_breaker) \<Rightarrow> string \<Rightarrow> registry \<Rightarrow> registry" where
  "registry_apply f u r = (let (b, r') = registry_get r u in dict_set u (f b) r')"

subsection \<open>The step relation\<close>

inductive breaker_trans :: "replica_breaker \<times> real \<Rightarrow> replica_breaker \<times> real \<Rightarrow> bool" where
  wait: "now \<le> now' \<Longrightarrow> breaker_trans (b, now) (b, now')"
| success: "breaker_trans (b, now) (record_success b now, now)"
| failure: "kind \<noteq> WEDGE \<Longrightarrow> breaker_trans (b, now) (record_failure b kind now, now)"
| wedge: "rb_state b = CLOSED \<Longrightarrow> breaker_trans (b, now) (record_wedge b suspected now, now)"
| probe: "rb_state b \<noteq> CLOSED \<Longrightarrow>
    breaker_trans (b, now) (record_probe b ok now wedge_suspected, now)"

inductive_cases breaker_transE [elim]: "breaker_trans s t"
inductive_simps breaker_trans_closed: "breaker_trans (b, now) (b', now')"

inductive breaker_reachable :: "replica_breaker \<Rightarrow> real \<Rightarrow> bool" where
  start: "0 \<le> now \<Longrightarrow> breaker_reachable (new_breaker u lbl) now"
| step: "breaker_reachable b now \<Longrightarrow> breaker_trans (b, now) (b', now') \<Longrightarrow> breaker_reachable b' now'"

subsection \<open>The invariant\<close>

definition breaker_ok :: "replica_breaker \<Rightarrow> real \<Rightarrow> bool" where
  "breaker_ok b now \<longleftrightarrow>
     rb_trip_score b = TRIP_SCORE \<and> 0 \<le> rb_score b \<and> 0 \<le> rb_trips b \<and>
     0 \<le> rb_wedge_confirmations b \<and> rb_open_sec b \<in> {15, 30, 60} \<and>
     (case rb_state b of
        CLOSED \<Rightarrow> rb_score b < rb_trip_score b \<and> rb_opened_at b = None \<and>
          rb_good_probes b = 0 \<and> rb_open_sec b = INITIAL_OPEN_SEC
      | OPEN \<Rightarrow> (\<exists>t \<le> now. rb_opened_at b = Some t) \<and> rb_good_probes b = 0
      | HALF_OPEN \<Rightarrow> (\<exists>t \<le> now. rb_last_probe_at b = Some t) \<and> rb_good_probes b = 1)"

lemma WEIGHTS_nonneg [simp]: "0 \<le> WEIGHTS k"
  by (cases k) auto

lemma WEIGHTS_eq_0: "WEIGHTS k = 0 \<longleftrightarrow> k = THROTTLED \<or> k = CLIENT_ERROR"
  by (cases k) auto

lemma threshold_le: "rb_trip_score b = TRIP_SCORE \<Longrightarrow> threshold b now \<le> TRIP_SCORE"
  by (simp add: threshold_def TRIP_SCORE_def)

lemma threshold_pos: "rb_trip_score b = TRIP_SCORE \<Longrightarrow> 3 \<le> threshold b now"
  by (simp add: threshold_def TRIP_SCORE_def)

lemma threshold_update [simp]:
  "threshold (b\<lparr>rb_score := s\<rparr>) now = threshold b now"
  "threshold (b\<lparr>rb_wedge_confirmations := w\<rparr>) now = threshold b now"
  by (simp_all add: threshold_def)

lemma new_breaker_ok [gw_inv]: "breaker_ok (new_breaker u lbl) now"
  by (simp add: breaker_ok_def new_breaker_def gw_defs)

lemma wait_ok [gw_inv]: "breaker_ok b now \<Longrightarrow> now \<le> now' \<Longrightarrow> breaker_ok b now'"
  by (auto simp: breaker_ok_def split: breaker_state.splits intro: order_trans)

lemma record_success_ok [gw_inv]: "breaker_ok b now \<Longrightarrow> breaker_ok (record_success b now) now"
  by (auto simp: breaker_ok_def record_success_def TRIP_SCORE_def split: breaker_state.splits)

lemma record_failure_ok [gw_inv]:
  assumes "breaker_ok b now"
  shows "breaker_ok (record_failure b kind now) now"
proof -
  have "threshold b now \<le> rb_trip_score b"
    using assms threshold_le by (simp add: breaker_ok_def)
  with assms show ?thesis
    using WEIGHTS_nonneg [of kind]
    by (auto simp: breaker_ok_def record_failure_def open_breaker_def Let_def
        split: breaker_state.splits)
qed

lemma wedge_count_ok: "breaker_ok b now \<Longrightarrow> 0 \<le> w \<Longrightarrow> breaker_ok (b\<lparr>rb_wedge_confirmations := w\<rparr>) now"
  by (auto simp: breaker_ok_def split: breaker_state.splits)

lemma record_wedge_ok [gw_inv]:
  assumes "breaker_ok b now"
  shows "breaker_ok (record_wedge b s now) now"
proof -
  have "0 \<le> rb_wedge_confirmations b" using assms by (simp add: breaker_ok_def)
  with assms show ?thesis
    by (auto simp: record_wedge_def Let_def intro!: record_failure_ok wedge_count_ok)
qed

lemma record_probe_ok [gw_inv]:
  assumes "breaker_ok b now" and "rb_state b \<noteq> CLOSED"
  shows "breaker_ok (record_probe b ok now ws) now"
  using assms
  by (auto simp: breaker_ok_def record_probe_def close_breaker_def Let_def gw_defs
      split: breaker_state.splits)

lemma breaker_trans_ok:
  "breaker_trans s t \<Longrightarrow> breaker_ok (fst s) (snd s) \<Longrightarrow> breaker_ok (fst t) (snd t)"
  by (induction rule: breaker_trans.induct) (auto intro: gw_inv)

lemma breaker_trans_ok':
  "breaker_trans (b, now) (b', now') \<Longrightarrow> breaker_ok b now \<Longrightarrow> breaker_ok b' now'"
  using breaker_trans_ok [of "(b, now)" "(b', now')"] by simp

lemma breaker_reachable_induct_ok: "breaker_reachable b now \<Longrightarrow> breaker_ok b now"
  by (induction rule: breaker_reachable.induct) (auto intro: new_breaker_ok breaker_trans_ok')

lemma tripped_reachable:
  "1 \<le> now \<Longrightarrow>
   breaker_reachable (record_failure (record_failure (new_breaker u lbl) CONNECT 1) CONNECT 1) now"
proof -
  assume now: "1 \<le> now"
  let ?fresh = "new_breaker u lbl" and ?once = "record_failure (new_breaker u lbl) CONNECT 1"
  have "breaker_reachable ?fresh 1" by (simp add: breaker_reachable.start)
  then have "breaker_reachable ?once 1"
    by (rule breaker_reachable.step) (simp add: breaker_trans.failure)
  then have "breaker_reachable (record_failure ?once CONNECT 1) 1"
    by (rule breaker_reachable.step) (simp add: breaker_trans.failure)
  then show ?thesis
    by (rule breaker_reachable.step) (simp add: breaker_trans.wait now)
qed

text \<open>C11. Every breaker the gateway can reach is well formed: a closed breaker's score is
  below the trip score, it carries no opening time and its open period is back at 15s;
  an open one knows since when; a half-open one has exactly one good probe behind it; the
  open period is always 15, 30 or 60 seconds.\<close>

theorem breaker_reachable_ok: "breaker_reachable b now \<Longrightarrow> breaker_ok b now"
  by (rule breaker_reachable_induct_ok)

theorem breaker_reachable_ok_witness:
  "breaker_ok (record_failure (record_failure (new_breaker ''u'' ''0'') CONNECT 1) CONNECT 1) 1"
  by (rule breaker_reachable_ok) (simp add: tripped_reachable)

subsection \<open>Tripping\<close>

lemma record_failure_weightless: "WEIGHTS k = 0 \<Longrightarrow> record_failure b k now = b"
  by (simp add: record_failure_def)

lemma record_failure_not_closed:
  "rb_state b \<noteq> CLOSED \<Longrightarrow> rb_state (record_failure b k now) = rb_state b"
  by (simp add: record_failure_def Let_def)

lemma record_failure_below:
  "rb_state b = CLOSED \<Longrightarrow> rb_score b < threshold b now \<Longrightarrow> rb_score b + WEIGHTS k < threshold b now \<Longrightarrow>
   record_failure b k now = b\<lparr>rb_score := rb_score b + WEIGHTS k\<rparr>"
  by (simp add: record_failure_def Let_def)

lemma record_failure_trips:
  "rb_state b = CLOSED \<Longrightarrow> rb_score b < threshold b now \<Longrightarrow> threshold b now \<le> rb_score b + WEIGHTS k \<Longrightarrow>
   record_failure b k now = open_breaker (b\<lparr>rb_score := rb_score b + WEIGHTS k\<rparr>) now"
  by (auto simp: record_failure_def Let_def)

lemma failures_not_closed:
  "rb_state b \<noteq> CLOSED \<Longrightarrow>
   rb_state (foldl (\<lambda>b k. record_failure b k now) b ks) = rb_state b \<and>
   rb_trips (foldl (\<lambda>b k. record_failure b k now) b ks) = rb_trips b"
proof (induction ks arbitrary: b)
  case (Cons k ks)
  have "rb_state (record_failure b k now) = rb_state b \<and> rb_trips (record_failure b k now) = rb_trips b"
    using Cons.prems by (simp add: record_failure_def Let_def)
  with Cons show ?case by simp
qed simp

text \<open>C12. A closed breaker trips exactly when the weights of the failures since the last
  success reach the threshold (6, or 3 on probation), and a run of failures trips it at
  most once: in particular no number of 429s or 4xx answers ever opens it.\<close>

theorem failures_trip_exactly:
  assumes "rb_state b = CLOSED" and "rb_score b < threshold b now"
  shows "let b' = foldl (\<lambda>b k. record_failure b k now) b ks;
             total = rb_score b + sum_list (map WEIGHTS ks)
         in (if threshold b now \<le> total
             then rb_state b' = OPEN \<and> rb_opened_at b' = Some now \<and> rb_trips b' = rb_trips b + 1
             else b' = b\<lparr>rb_score := total\<rparr>)"
  using assms
proof (induction ks arbitrary: b)
  case Nil
  then show ?case by simp
next
  case (Cons k ks)
  have pos: "0 \<le> sum_list (map WEIGHTS ks)" by (induction ks) simp_all
  show ?case
  proof (cases "threshold b now \<le> rb_score b + WEIGHTS k")
    case True
    then have r: "record_failure b k now = open_breaker (b\<lparr>rb_score := rb_score b + WEIGHTS k\<rparr>) now"
      using Cons.prems by (simp add: record_failure_trips)
    have keep: "rb_opened_at (foldl (\<lambda>b k. record_failure b k now) c ks) = rb_opened_at c"
      if "rb_state c = OPEN" for c
      using that by (induction ks arbitrary: c) (simp_all add: record_failure_def Let_def)
    show ?thesis
      using True pos failures_not_closed [of "record_failure b k now" now ks]
        keep [of "record_failure b k now"]
      by (simp add: r open_breaker_def)
  next
    case False
    then have r: "record_failure b k now = b\<lparr>rb_score := rb_score b + WEIGHTS k\<rparr>"
      using Cons.prems by (simp add: record_failure_below)
    show ?thesis
      using Cons.IH [of "b\<lparr>rb_score := rb_score b + WEIGHTS k\<rparr>"] Cons.prems False
      by (simp add: r Let_def add.assoc)
  qed
qed

theorem failures_trip_exactly_witness:
  "rb_state (foldl (\<lambda>b k. record_failure b k 1) (new_breaker ''u'' ''0'')
     [CONNECT, THROTTLED, SERVER_ERROR, SERVER_ERROR, SERVER_ERROR]) = OPEN"
  using failures_trip_exactly [of "new_breaker ''u'' ''0''" 1
      "[CONNECT, THROTTLED, SERVER_ERROR, SERVER_ERROR, SERVER_ERROR]"]
  by (simp add: new_breaker_def threshold_def TRIP_SCORE_def Let_def)

text \<open>The wedge signal acts on the second consecutive confirmation and never on the
  first: on a closed breaker one confirmation changes nothing but the confirmation count,
  a second one opens the breaker whatever its score, and a clear reading between the two
  (or a success) starts the count again.\<close>

theorem wedge_two_confirmations:
  assumes "breaker_ok b now" and "rb_state b = CLOSED" and "rb_wedge_confirmations b = 0"
  shows "let b1 = record_wedge b True now in
           b1 = b\<lparr>rb_wedge_confirmations := 1\<rparr> \<and>
           rb_state (record_wedge b1 True later) = OPEN \<and>
           rb_state (record_wedge (record_wedge b1 False later) True later') = CLOSED \<and>
           rb_state (record_wedge (record_success b1 later) True later') = CLOSED"
proof -
  have t: "rb_trip_score b = TRIP_SCORE" and "0 \<le> rb_score b"
    using assms(1) by (simp_all add: breaker_ok_def)
  with threshold_le [OF t, of later] have "threshold b later \<le> rb_score b + 6"
    by (simp add: TRIP_SCORE_def)
  with assms(2,3) show ?thesis
    by (simp add: record_wedge_def record_success_def record_failure_def open_breaker_def Let_def)
qed

theorem wedge_two_confirmations_witness:
  "rb_state (record_wedge (record_wedge (new_breaker ''u'' ''0'') True 1) True 2) = OPEN"
proof -
  have "rb_state (new_breaker ''u'' ''0'') = CLOSED"
    and "rb_wedge_confirmations (new_breaker ''u'' ''0'') = 0"
    by (simp_all add: new_breaker_def)
  from wedge_two_confirmations [OF new_breaker_ok this, of 1 2 3] show ?thesis
    unfolding Let_def by blast
qed

subsection \<open>Reclosing\<close>

lemma record_probe_bad:
  "\<not> ok \<or> ws \<Longrightarrow> rb_state (record_probe b ok now ws) = OPEN \<and>
   rb_open_sec (record_probe b ok now ws) = min (rb_open_sec b * 2) MAX_OPEN_SEC \<and>
   rb_opened_at (record_probe b ok now ws) = Some now"
  by (simp add: record_probe_def Let_def)

text \<open>C13. A breaker that is not closed becomes closed in one way only: the second
  consecutive good probe, with no live wedge signal, of a half-open breaker. No request's
  success, no failure, no lapse of time and no single probe closes an open one.\<close>

theorem only_second_good_probe_closes:
  assumes "breaker_reachable b now" and "breaker_trans (b, now) (b', now')"
    and "rb_state b \<noteq> CLOSED" and "rb_state b' = CLOSED"
  shows "rb_state b = HALF_OPEN \<and> rb_good_probes b = 1 \<and> now' = now \<and>
         b' = record_probe b True now False \<and> threshold b' now = 3 \<and> rb_score b' = 0"
proof -
  have ok: "breaker_ok b now" using assms(1) by (rule breaker_reachable_induct_ok)
  from assms(2) show ?thesis
  proof cases
    case (probe okp ws)
    have good: "okp \<and> \<not> ws"
      using probe assms(4) record_probe_bad [of okp ws b now] by auto
    then have "2 \<le> rb_good_probes b + 1"
      using probe assms(4) by (auto simp: record_probe_def Let_def PROBES_TO_CLOSE_def split: if_splits)
    with ok probe have "rb_state b = HALF_OPEN \<and> rb_good_probes b = 1 \<and> rb_trip_score b = TRIP_SCORE"
      by (auto simp: breaker_ok_def split: breaker_state.splits)
    with probe good show ?thesis
      by (simp add: record_probe_def close_breaker_def Let_def threshold_def gw_defs)
  qed (use assms(3,4) record_failure_not_closed in \<open>auto simp: record_success_def\<close>)
qed

theorem only_second_good_probe_closes_witness:
  "let b = record_probe (record_failure (record_failure (new_breaker ''u'' ''0'') CONNECT 1) CONNECT 1)
             True 20 False
   in rb_state b = HALF_OPEN \<and> rb_state (record_probe b True 25 False) = CLOSED \<and>
      threshold (record_probe b True 25 False) 25 = 3"
proof -
  let ?trip = "record_failure (record_failure (new_breaker ''u'' ''0'') CONNECT 1) CONNECT 1"
  let ?half = "record_probe ?trip True 20 False"
  have s: "rb_state ?trip = OPEN" "rb_state ?half = HALF_OPEN"
    "rb_state (record_probe ?half True 25 False) = CLOSED"
    by (simp_all add: new_breaker_def breaker_ops Let_def gw_defs)
  have "breaker_reachable ?half 20"
    using tripped_reachable [of 20 "''u''" "''0''"]
    by (rule breaker_reachable.step) (simp_all add: breaker_trans.probe s)
  then have r: "breaker_reachable ?half 25"
    by (rule breaker_reachable.step) (simp add: breaker_trans.wait)
  have "breaker_trans (?half, 25) (record_probe ?half True 25 False, 25)"
    by (rule breaker_trans.probe) (simp add: s)
  from only_second_good_probe_closes [OF r this] s show ?thesis
    by (simp add: Let_def)
qed

text \<open>Each failed reclose (a bad probe, or a good one under a live wedge signal) restarts
  the open period and doubles it, capped at 60s: after \<open>n\<close> of them in a row a freshly
  opened breaker is next due exactly \<open>min (15 * 2^n) 60\<close> seconds after the last.\<close>

theorem reclose_backoff:
  assumes "rb_open_sec b = INITIAL_OPEN_SEC"
    and "ps \<noteq> []" and "\<forall>(ok, t, ws) \<in> set ps. \<not> ok \<or> ws"
  shows "let b' = foldl (\<lambda>b (ok, t, ws). record_probe b ok t ws) b ps in
           rb_state b' = OPEN \<and> rb_open_sec b' = min (15 * 2 ^ length ps) 60 \<and>
           (\<forall>now. due_for_probe b' now \<longleftrightarrow> fst (snd (last ps)) + min (15 * 2 ^ length ps) 60 \<le> now)"
proof -
  have bad: "rb_state (foldl (\<lambda>b (ok, t, ws). record_probe b ok t ws) b ps) = OPEN \<and>
      rb_open_sec (foldl (\<lambda>b (ok, t, ws). record_probe b ok t ws) b ps) = min (15 * 2 ^ length ps) 60 \<and>
      rb_opened_at (foldl (\<lambda>b (ok, t, ws). record_probe b ok t ws) b ps) = Some (fst (snd (last ps)))"
    using assms(2,3)
  proof (induction ps rule: rev_induct)
    case (snoc p ps)
    obtain ok t ws where p: "p = (ok, t, ws)" by (cases p) auto
    have open_sec: "rb_open_sec (foldl (\<lambda>b (ok, t, ws). record_probe b ok t ws) b ps) = min (15 * 2 ^ length ps) 60"
      using snoc assms(1) by (cases "ps = []") (auto simp: INITIAL_OPEN_SEC_def)
    have "min (min (15 * 2 ^ length ps) 60 * 2) 60 = min (15 * 2 ^ Suc (length ps)) (60::real)"
      by (simp add: min_def)
    with open_sec show ?case
      using snoc.prems p record_probe_bad [of ok ws "foldl (\<lambda>b (ok, t, ws). record_probe b ok t ws) b ps" t]
      by (simp add: MAX_OPEN_SEC_def)
  qed simp
  then show ?thesis
    by (auto simp: Let_def due_for_probe_def)
qed

theorem reclose_backoff_witness:
  "rb_open_sec (record_probe (record_probe (new_breaker ''u'' ''0'') False 20 False) True 50 True) = 60"
  using reclose_backoff [of "new_breaker ''u'' ''0''" "[(False, 20, False), (True, 50, True)]"]
  by (simp add: new_breaker_def Let_def)

lemma seconds_until_probe_nonneg: "0 \<le> seconds_until_probe b now"
  by (auto simp: seconds_until_probe_def split: breaker_state.splits option.splits)

lemma seconds_until_probe_bound:
  assumes "breaker_ok b now"
  shows "seconds_until_probe b now \<le> 60"
  using assms
  by (auto simp: breaker_ok_def seconds_until_probe_def PROBE_INTERVAL_SEC_def
      split: breaker_state.splits option.splits)

lemma due_iff_wait:
  assumes "breaker_ok b now" and "rb_state b \<noteq> CLOSED" and "now \<le> t"
  shows "due_for_probe b t \<longleftrightarrow> now + seconds_until_probe b now \<le> t"
  using assms
  by (cases "rb_state b")
    (auto simp: breaker_ok_def due_for_probe_def seconds_until_probe_def PROBE_INTERVAL_SEC_def)

text \<open>The Retry-After the gateway computes is honest: for a breaker that is not closed,
  \<open>seconds_until_probe\<close> is exactly how long the prober will still wait, between 0 and 60
  seconds, and it is 0 exactly when a probe is due.\<close>

theorem retry_after_is_probe_time:
  assumes "breaker_reachable b now" and "rb_state b \<noteq> CLOSED"
  shows "0 \<le> seconds_until_probe b now \<and> seconds_until_probe b now \<le> 60 \<and>
         (\<forall>t \<ge> now. due_for_probe b t \<longleftrightarrow> now + seconds_until_probe b now \<le> t)"
proof -
  have "breaker_ok b now" using assms(1) by (rule breaker_reachable_induct_ok)
  with assms(2) show ?thesis
    by (simp add: seconds_until_probe_nonneg seconds_until_probe_bound due_iff_wait)
qed

theorem retry_after_is_probe_time_witness:
  "let b = record_failure (record_failure (new_breaker ''u'' ''0'') CONNECT 1) CONNECT 1
   in seconds_until_probe b 4 = 12 \<and> due_for_probe b 16"
proof -
  let ?trip = "record_failure (record_failure (new_breaker ''u'' ''0'') CONNECT 1) CONNECT 1"
  have s: "rb_state ?trip = OPEN" "seconds_until_probe ?trip 4 = 12"
    by (simp_all add: new_breaker_def breaker_ops Let_def gw_defs seconds_until_probe_def)
  have r: "breaker_reachable ?trip 4" by (simp add: tripped_reachable)
  from retry_after_is_probe_time [OF r] s show ?thesis
    by (simp add: Let_def)
qed

text \<open>Recovery is bounded: from any reachable breaker that is not closed, a prober that
  probes when a probe is due and finds the replica good (and no wedge signal) closes the
  breaker after at most two probes and at most 65 seconds.\<close>

theorem reclose_within_65s:
  assumes "breaker_reachable b now" and "rb_state b \<noteq> CLOSED"
  shows "let t1 = now + seconds_until_probe b now;
             b1 = record_probe b True t1 False;
             t2 = t1 + seconds_until_probe b1 t1;
             b2 = record_probe b1 True t2 False
         in due_for_probe b t1 \<and>
            (rb_state b1 = CLOSED \<or> (due_for_probe b1 t2 \<and> rb_state b2 = CLOSED)) \<and>
            t2 \<le> now + 65"
proof -
  have ok: "breaker_ok b now" using assms(1) by (rule breaker_reachable_induct_ok)
  define t1 where "t1 = now + seconds_until_probe b now"
  have d: "due_for_probe b t1"
    using due_iff_wait [OF ok assms(2), of t1] seconds_until_probe_nonneg [of b now]
    by (simp add: t1_def)
  have t1: "t1 \<le> now + 60" using seconds_until_probe_bound [OF ok] by (simp add: t1_def)
  show ?thesis
  proof (cases "rb_state b")
    case CLOSED
    with assms(2) show ?thesis by simp
  next
    case OPEN
    with ok d t1 show ?thesis
      unfolding t1_def [symmetric]
      by (auto simp: breaker_ok_def record_probe_def close_breaker_def seconds_until_probe_def
          due_for_probe_def Let_def gw_defs)
  next
    case HALF_OPEN
    with ok d t1 show ?thesis
      unfolding t1_def [symmetric]
      by (auto simp: breaker_ok_def record_probe_def close_breaker_def seconds_until_probe_def
          Let_def gw_defs)
  qed
qed

theorem reclose_within_65s_witness:
  "let b = record_failure (record_failure (new_breaker ''u'' ''0'') CONNECT 1) CONNECT 1
   in rb_state (record_probe (record_probe b True 16 False) True 21 False) = CLOSED"
proof -
  let ?trip = "record_failure (record_failure (new_breaker ''u'' ''0'') CONNECT 1) CONNECT 1"
  have s: "rb_state ?trip = OPEN" "seconds_until_probe ?trip 1 = 15"
    "seconds_until_probe (record_probe ?trip True 16 False) 16 = 5"
    "rb_state (record_probe ?trip True 16 False) = HALF_OPEN"
    by (simp_all add: new_breaker_def breaker_ops Let_def gw_defs seconds_until_probe_def)
  have r: "breaker_reachable ?trip 1" by (simp add: tripped_reachable)
  from reclose_within_65s [OF r] s show ?thesis
    by (simp add: Let_def)
qed

subsection \<open>The registry\<close>

lemma registry_get_known: "dict_get r u = Some b \<Longrightarrow> registry_get r u = (b, r)"
  by (simp add: registry_get_def)

lemma registry_apply_keys:
  "u \<in> fst ` set r \<Longrightarrow> map fst (registry_apply f u r) = map fst r"
proof -
  assume u: "u \<in> fst ` set r"
  then obtain b where "dict_get r u = Some b" by (metis map_of_eq_None_iff not_None_eq)
  with u show ?thesis by (simp add: registry_apply_def registry_get_def dict_set_map_fst_in)
qed

lemma registry_apply_get:
  "u \<in> fst ` set r \<Longrightarrow>
   dict_get (registry_apply f u r) v = (if v = u then map_option f (dict_get r u) else dict_get r v)"
proof -
  assume "u \<in> fst ` set r"
  then obtain b where "dict_get r u = Some b" by (metis map_of_eq_None_iff not_None_eq)
  then show ?thesis by (simp add: registry_apply_def registry_get_def)
qed

lemma registry_reset_keys_aux:
  "fst ` set (foldl (\<lambda>r (i, u). dict_set u (new_breaker u (str_int (int i))) r) r (enumerate n urls)) =
     fst ` set r \<union> set urls"
  by (induction urls arbitrary: r n) simp_all

lemma registry_reset_new_aux:
  assumes "\<And>u b. dict_get r u = Some b \<Longrightarrow> \<exists>l. b = new_breaker u l"
    and "dict_get (foldl (\<lambda>r (i, u). dict_set u (new_breaker u (str_int (int i))) r) r (enumerate n urls)) u = Some b"
  shows "\<exists>l. b = new_breaker u l"
  using assms
proof (induction urls arbitrary: r n)
  case (Cons v urls)
  let ?r = "dict_set v (new_breaker v (str_int (int n))) r"
  have "\<exists>l. b = new_breaker u l" if "dict_get ?r u = Some b" for u b
    using that Cons.prems(1) by (auto split: if_splits)
  moreover have "dict_get (foldl (\<lambda>r (i, u). dict_set u (new_breaker u (str_int (int i))) r) ?r
      (enumerate (Suc n) urls)) u = Some b"
    using Cons.prems(2) by simp
  ultimately show ?case by (rule Cons.IH)
qed simp

lemma registry_reset_keys: "fst ` set (registry_reset urls) = set urls"
  using registry_reset_keys_aux [of "[]" 0 urls] by (simp add: registry_reset_def)

lemma registry_reset_new: "dict_get (registry_reset urls) u = Some b \<Longrightarrow> \<exists>l. b = new_breaker u l"
  unfolding registry_reset_def by (rule registry_reset_new_aux [where r = "[]"]) auto

end
