(* ===== verification/Client.thy ===== *)
theory Client
  imports Scraper Breaker
begin

section \<open>The client of the replicas (gateway/upstream/client.py)\<close>

text \<open>
  \<open>UpstreamPool\<close>: routing over the closed replicas, one retry, and the recording of each
  attempt into the breaker and the metrics. httpx is a parameter: the record \<open>net\<close> says
  what each awaited call answers. An \<open>await\<close> lets other tasks run, so each of its functions
  also returns the state those tasks leave: the model of one request holds under every
  interleaving with other requests, the prober and the scraper. The clock readings and the
  random number are parameters as well. Loggers are not modelled.
\<close>

subsection \<open>What httpx answers\<close>

text \<open>An exception of a send: httpx's read timeout, any other httpx exception, the pool's own
  \<open>UpstreamError\<close> (the client is not started), or a Python exception raised while the
  request is built (a body that is no valid JSON, for one) or a cancellation.\<close>

datatype send_exn = ReadTimeout | Transport | Not_started | Python py_exn

text \<open>A response: its status, its headers under lower-case names, its whole body, and for a
  stream the chunks it yields with what ends them (the end of the body, or an exception).\<close>

record response =
  rs_status :: int
  rs_headers :: "string \<rightharpoonup> string"
  rs_content :: string
  rs_chunks :: "string list"
  rs_end :: "py_exn option"

datatype http_outcome = Answer response | Send_raised send_exn

text \<open>What \<open>except Exception\<close> lets through.\<close>

definition uncaught :: "send_exn \<Rightarrow> py_exn option" where
  "uncaught e = (case e of Python x \<Rightarrow> if is_Exception x then None else Some x | _ \<Rightarrow> None)"

subsection \<open>Constants and classification\<close>

definition MAX_ATTEMPTS :: nat where "MAX_ATTEMPTS = 2"

definition RETRYABLE_STATUS :: "int set" where "RETRYABLE_STATUS = {429, 502, 503, 504}"

definition MAX_RETRY_DELAY_SEC :: real where "MAX_RETRY_DELAY_SEC = 2"

definition JITTER_BASE_SEC :: real where "JITTER_BASE_SEC = 1 / 4"

definition classify :: "send_exn option \<Rightarrow> int option \<Rightarrow> failure_kind option" where
  "classify exc status_code =
     (case exc of
        Some e \<Rightarrow> if e = ReadTimeout then Some READ_TIMEOUT else Some CONNECT
      | None \<Rightarrow>
          (case status_code of
             None \<Rightarrow> None
           | Some s \<Rightarrow>
               if s = 429 then Some THROTTLED
               else if s \<ge> 500 then Some SERVER_ERROR
               else if s \<ge> 400 then Some CLIENT_ERROR
               else None))"

definition should_retry :: "http_outcome \<Rightarrow> bool" where
  "should_retry r =
     (case r of
        Send_raised e \<Rightarrow> classify (Some e) None = Some CONNECT
      | Answer resp \<Rightarrow> rs_status resp \<in> RETRYABLE_STATUS)"

text \<open>\<open>min(x, 2.0)\<close> on a Python float: a NaN on the left stays.\<close>

definition cap_delay :: "pyfloat \<Rightarrow> pyfloat" where
  "cap_delay x =
     (case x of
        Fin r \<Rightarrow> Fin (if MAX_RETRY_DELAY_SEC < r then MAX_RETRY_DELAY_SEC else r)
      | PInf \<Rightarrow> Fin MAX_RETRY_DELAY_SEC
      | NInf \<Rightarrow> NInf
      | NaN \<Rightarrow> NaN)"

text \<open>\<open>u\<close> is the value of \<open>random.random()\<close> behind \<open>random.uniform\<close>.\<close>

definition retry_delay :: "real \<Rightarrow> nat \<Rightarrow> response option \<Rightarrow> pyfloat" where
  "retry_delay u attempt resp =
     (let jitter = Fin (0 + (min (JITTER_BASE_SEC * 2 ^ attempt) MAX_RETRY_DELAY_SEC - 0) * u) in
      case resp of
        None \<Rightarrow> jitter
      | Some r \<Rightarrow>
          (case rs_headers r ''retry-after'' of
             None \<Rightarrow> jitter
           | Some raw \<Rightarrow>
               (case float_of_str raw of
                  Inl e \<Rightarrow> jitter
                | Inr x \<Rightarrow> cap_delay x)))"

subsection \<open>The pool\<close>

text \<open>What \<open>start\<close> hands to \<open>httpx.AsyncClient\<close>: headers, the TLS verification (httpx's
  default, or an \<open>SSLContext\<close> built from a CA file and a certificate chain) and the
  timeouts in the order connect, read, write, pool.\<close>

datatype tls_verify = Default_verify | Ssl_context "string option" "(string \<times> string) option"

record http_client =
  hc_headers :: "(string \<times> string) list"
  hc_verify :: tls_verify
  hc_timeout :: "pyfloat \<times> pyfloat \<times> pyfloat \<times> pyfloat"

record upool =
  up_urls :: "string list"
  up_next :: nat
  up_breakers :: registry
  up_client :: "http_client option"

definition upstream_ssl_context :: "settings \<Rightarrow> py_exn + tls_verify" where
  "upstream_ssl_context cfg =
     bindE (UPSTREAM_CLIENT_CERT cfg) (\<lambda>client_cert.
       let ca_bundle = UPSTREAM_CA_BUNDLE_PATH cfg in
       Inr (if ca_bundle = [] \<and> client_cert = None then Default_verify
            else Ssl_context (if ca_bundle = [] then None else Some ca_bundle) client_cert))"

definition set_urls :: "string list \<Rightarrow> upool \<Rightarrow> py_exn + upool" where
  "set_urls urls p =
     (if urls = [] then Inl ValueError
      else Inr (p\<lparr>up_urls := urls, up_next := 0, up_breakers := registry_reset urls\<rparr>))"

definition new_pool :: "settings \<Rightarrow> string list option \<Rightarrow> py_exn + upool" where
  "new_pool cfg urls =
     set_urls (case urls of Some (u # us) \<Rightarrow> u # us | _ \<Rightarrow> UPSTREAM_URLS cfg)
       \<lparr>up_urls = [], up_next = 0, up_breakers = [], up_client = None\<rparr>"

definition pool_start :: "settings \<Rightarrow> upool \<Rightarrow> py_exn + upool" where
  "pool_start cfg p =
     (let headers = [(''Content-Type'', ''application/json'')];
          headers = (if UPSTREAM_API_KEY cfg \<noteq> []
                     then dict_set ''Authorization'' (''Bearer '' @ UPSTREAM_API_KEY cfg) headers
                     else headers)
      in bindE (upstream_ssl_context cfg) (\<lambda>verify.
           Inr (p\<lparr>up_client := Some
             \<lparr>hc_headers = headers, hc_verify = verify,
              hc_timeout = (UPSTREAM_CONNECT_TIMEOUT_SEC cfg, UPSTREAM_READ_TIMEOUT_SEC cfg,
                            UPSTREAM_CONNECT_TIMEOUT_SEC cfg, UPSTREAM_CONNECT_TIMEOUT_SEC cfg)\<rparr>\<rparr>)))"

definition pool_stop :: "upool \<Rightarrow> upool" where
  "pool_stop p = p\<lparr>up_client := None\<rparr>"

definition pool_client :: "upool \<Rightarrow> send_exn + http_client" where
  "pool_client p = (case up_client p of None \<Rightarrow> Inl Not_started | Some c \<Rightarrow> Inr c)"

subsection \<open>Routing\<close>

text \<open>The comprehensions of \<open>pick\<close> ask the registry for each URL in turn, and asking creates
  a missing entry.\<close>

fun closed_urls :: "registry \<Rightarrow> string list \<Rightarrow> string list \<times> registry" where
  "closed_urls r [] = ([], r)"
| "closed_urls r (u # us) =
     (let (b, r) = registry_get r u; (vs, r) = closed_urls r us
      in (if allows b then u # vs else vs, r))"

fun probe_waits :: "real \<Rightarrow> registry \<Rightarrow> string list \<Rightarrow> real list \<times> registry" where
  "probe_waits now r [] = ([], r)"
| "probe_waits now r (u # us) =
     (let (b, r) = registry_get r u; (ws, r) = probe_waits now r us
      in (seconds_until_probe b now # ws, r))"

fun min_of :: "real \<Rightarrow> real list \<Rightarrow> real" where
  "min_of m [] = m"
| "min_of m (x # xs) = min_of (if x < m then x else m) xs"

text \<open>The left value is the \<open>retry_after\<close> of \<open>AllReplicasOpen\<close>.\<close>

definition pick :: "settings \<Rightarrow> string option \<Rightarrow> real \<Rightarrow> upool \<Rightarrow> (pyfloat + string) \<times> upool" where
  "pick cfg exclude now p =
     (if \<not> BREAKER_ENABLED cfg then
        (let n = (up_next p + 1) mod length (up_urls p)
         in (Inr (up_urls p ! n), p\<lparr>up_next := n\<rparr>))
      else
        (let (closed, r) = closed_urls (up_breakers p) (up_urls p);
             candidates = [u \<leftarrow> closed. Some u \<noteq> exclude];
             (candidates, r) = (if candidates = [] then closed_urls r (up_urls p) else (candidates, r))
         in if candidates = [] then
              (let (waits, r) = probe_waits now r (up_urls p);
                   wait = (case waits of [] \<Rightarrow> BREAKER_OPEN_SEC cfg | w # ws \<Rightarrow> Fin (min_of w ws))
               in (Inl wait, p\<lparr>up_breakers := r\<rparr>))
            else
              (let n = (up_next p + 1) mod length candidates
               in (Inr (candidates ! n), p\<lparr>up_next := n, up_breakers := r\<rparr>))))"

definition pool_record :: "string \<Rightarrow> send_exn option \<Rightarrow> int option \<Rightarrow> real \<Rightarrow> upool \<Rightarrow> upool" where
  "pool_record url exc status_code now p =
     (let f = (case classify exc status_code of
                 None \<Rightarrow> (\<lambda>b. record_success b now)
               | Some kind \<Rightarrow> (\<lambda>b. record_failure b kind now))
      in p\<lparr>up_breakers := registry_apply f url (up_breakers p)\<rparr>)"

fun index_of :: "string \<Rightarrow> string list \<Rightarrow> nat option" where
  "index_of x [] = None"
| "index_of x (y # ys) = (if x = y then Some 0 else map_option Suc (index_of x ys))"

definition pool_label :: "upool \<Rightarrow> string \<Rightarrow> string" where
  "pool_label p url =
     (case index_of url (up_urls p) of None \<Rightarrow> ''unknown'' | Some i \<Rightarrow> str_int (int i))"

subsection \<open>One attempt, and the retry loop\<close>

text \<open>The state the tasks of the process share, as far as this module touches it.\<close>

record client_state =
  cs_pool :: upool
  cs_metrics :: metrics

text \<open>The outside, per attempt number: what a send answers, how a sleep and a close end (an
  exception, if any), the state other tasks leave meanwhile, the clock at \<open>pick\<close> and at
  \<open>record\<close>, and the random number.\<close>

record 's net =
  net_send :: "nat \<Rightarrow> string \<Rightarrow> json \<Rightarrow> bool \<Rightarrow> 's \<Rightarrow> http_outcome \<times> 's"
  net_sleep :: "nat \<Rightarrow> pyfloat \<Rightarrow> 's \<Rightarrow> py_exn option \<times> 's"
  net_close :: "nat \<Rightarrow> 's \<Rightarrow> py_exn option \<times> 's"
  net_pick_time :: "nat \<Rightarrow> real"
  net_record_time :: "nat \<Rightarrow> real"
  net_random :: "nat \<Rightarrow> real"

text \<open>What a call does to the outside, in order: a completion request to a replica (its URL as
  configured, the URL requested, the body, and what came of it), the close of an answer given up, a wait
  before a retry, and a \<open>GET\<close> of a probe, which carries neither a body nor a credential.\<close>

datatype net_event =
    Sent string string json "py_exn + http_outcome"
  | Closed
  | Slept pyfloat
  | Probed string

definition count_upstream ::
  "string \<Rightarrow> string \<Rightarrow> 'a client_state_scheme \<Rightarrow> 'a client_state_scheme" where
  "count_upstream upstream outc st =
     (let m = cs_metrics st in
      st\<lparr>cs_metrics := m\<lparr>upstream_requests_total :=
            inc (pool_label (cs_pool st) upstream, outc) 1 (upstream_requests_total m)\<rparr>\<rparr>)"

text \<open>\<open>_send_and_record\<close>: an exception that is no \<open>Exception\<close> (the left value) passes
  through unrecorded.\<close>

definition send_and_record ::
  "('a client_state_scheme) net \<Rightarrow> nat \<Rightarrow> string \<Rightarrow> string \<Rightarrow> json \<Rightarrow> bool \<Rightarrow>
   'a client_state_scheme \<Rightarrow> (py_exn + http_outcome) \<times> 'a client_state_scheme" where
  "send_and_record net attempt upstream url body stream st =
     (let (outcome, st) =
            (case pool_client (cs_pool st) of
               Inl e \<Rightarrow> (Send_raised e, st)
             | Inr _ \<Rightarrow> net_send net attempt url body stream st);
          now = net_record_time net attempt
      in case outcome of
           Send_raised e \<Rightarrow>
             (case uncaught e of
                Some x \<Rightarrow> (Inl x, st)
              | None \<Rightarrow>
                  (Inr outcome, count_upstream upstream ''unreachable''
                     (st\<lparr>cs_pool := pool_record upstream (Some e) None now (cs_pool st)\<rparr>)))
         | Answer resp \<Rightarrow>
             (Inr outcome, count_upstream upstream
                 (if rs_status resp < 400 then ''ok'' else ''http_error'')
                 (st\<lparr>cs_pool := pool_record upstream None (Some (rs_status resp)) now (cs_pool st)\<rparr>)))"

text \<open>How \<open>_with_retry\<close> can end without a response.\<close>

datatype send_failure = AllReplicasOpen pyfloat | UpstreamUnreachable send_exn string | Passed py_exn

function retry_loop ::
  "settings \<Rightarrow> ('a client_state_scheme) net \<Rightarrow> string \<Rightarrow> json \<Rightarrow> bool \<Rightarrow> nat \<Rightarrow> string option \<Rightarrow>
   'a client_state_scheme \<Rightarrow>
   net_event list \<times> (send_failure + string \<times> response) \<times> 'a client_state_scheme" where
  "retry_loop cfg net path body stream attempt exclude st =
     (let (picked, p) = pick cfg exclude (net_pick_time net attempt) (cs_pool st);
          st = st\<lparr>cs_pool := p\<rparr>
      in case picked of
           Inl wait \<Rightarrow> ([], Inl (AllReplicasOpen wait), st)
         | Inr upstream \<Rightarrow>
             (let url = py_rstrip CHR ''/'' upstream @ path;
                  (result, st) = send_and_record net attempt upstream url body stream st;
                  sent = Sent upstream url body result
              in case result of
                   Inl e \<Rightarrow> ([sent], Inl (Passed e), st)
                 | Inr outcome \<Rightarrow>
                     (let final = (case outcome of
                                     Send_raised e \<Rightarrow> Inl (UpstreamUnreachable e upstream)
                                   | Answer resp \<Rightarrow> Inr (upstream, resp));
                          ok = (case outcome of
                                  Send_raised e \<Rightarrow> False
                                | Answer resp \<Rightarrow> rs_status resp < 400)
                      in if ok then ([sent], final, st)
                         else if attempt + 1 \<ge> MAX_ATTEMPTS \<or> \<not> should_retry outcome then ([sent], final, st)
                         else
                           (let resp = (case outcome of Send_raised e \<Rightarrow> None | Answer r \<Rightarrow> Some r);
                                closing = (stream \<and> resp \<noteq> None);
                                (ce, st) = (if closing then net_close net attempt st else (None, st));
                                closed = (if closing then [Closed] else [])
                            in case ce of
                                 Some e \<Rightarrow> (sent # closed, Inl (Passed e), st)
                               | None \<Rightarrow>
                                   (let delay = retry_delay (net_random net attempt) attempt resp;
                                        (se, st) = net_sleep net attempt delay st
                                    in case se of
                                         Some e \<Rightarrow> (sent # closed @ [Slept delay], Inl (Passed e), st)
                                       | None \<Rightarrow>
                                           (let (tr, r, st) =
                                                  retry_loop cfg net path body stream (attempt + 1) (Some upstream) st
                                            in (sent # closed @ [Slept delay] @ tr, r, st))))))) "
  by pat_completeness auto
termination by (relation "measure (\<lambda>(cfg, net, path, body, stream, attempt, exclude, st). MAX_ATTEMPTS - attempt)") auto

declare retry_loop.simps [simp del]

definition with_retry ::
  "settings \<Rightarrow> ('a client_state_scheme) net \<Rightarrow> string \<Rightarrow> json \<Rightarrow> bool \<Rightarrow> 'a client_state_scheme \<Rightarrow>
   net_event list \<times> (send_failure + string \<times> response) \<times> 'a client_state_scheme" where
  "with_retry cfg net path body stream st = retry_loop cfg net path body stream 0 None st"

abbreviation request where "request cfg net path body \<equiv> with_retry cfg net path body False"
abbreviation open_stream where "open_stream cfg net path body \<equiv> with_retry cfg net path body True"

subsection \<open>Health and reclose probes\<close>

text \<open>\<open>get\<close> is what the started client answers for a URL under the probe timeout: a status
  or an exception.\<close>

definition probe :: "(string \<Rightarrow> send_exn + int) \<Rightarrow> upool \<Rightarrow> string \<Rightarrow> py_exn + bool" where
  "probe get p url =
     (case bindE (pool_client p) (\<lambda>_. get (py_rstrip CHR ''/'' url @ ''/models'')) of
        Inr status \<Rightarrow> Inr (status < 400)
      | Inl e \<Rightarrow> (case uncaught e of Some x \<Rightarrow> Inl x | None \<Rightarrow> Inr False))"

fun health_from ::
  "(string \<Rightarrow> send_exn + int) \<Rightarrow> upool \<Rightarrow> (string \<times> bool) list \<Rightarrow> string list \<Rightarrow>
   py_exn + (string \<times> bool) list" where
  "health_from get p out [] = Inr out"
| "health_from get p out (u # us) =
     bindE (probe get p u) (\<lambda>ok. health_from get p (dict_set u ok out) us)"

text \<open>The URLs \<open>health\<close> requests, in order: a pool that is not started requests none, and a probe that is
  cancelled is the last one.\<close>

definition probe_url :: "string \<Rightarrow> string" where
  "probe_url u = py_rstrip CHR ''/'' u @ ''/models''"

fun health_gets :: "(string \<Rightarrow> send_exn + int) \<Rightarrow> upool \<Rightarrow> string list \<Rightarrow> net_event list" where
  "health_gets get p [] = []"
| "health_gets get p (u # us) =
     (case pool_client p of Inl e \<Rightarrow> [] | Inr _ \<Rightarrow> [Probed (probe_url u)]) @
     (case probe get p u of Inl e \<Rightarrow> [] | Inr ok \<Rightarrow> health_gets get p us)"

lemma health_gets_only: "set (health_gets get p us) \<subseteq> (Probed \<circ> probe_url) ` set us"
  by (induction us) (auto split: sum.splits)

lemma health_gets_all:
  "up_client p \<noteq> None \<Longrightarrow> health_from get p out us = Inr reps \<Longrightarrow>
   health_gets get p us = map (Probed \<circ> probe_url) us"
  by (induction us arbitrary: out) (auto simp: bindE_Inr pool_client_def)

definition health :: "(string \<Rightarrow> send_exn + int) \<Rightarrow> upool \<Rightarrow> py_exn + (string \<times> bool) list" where
  "health get p = health_from get p [] (up_urls p)"

subsection \<open>Routing\<close>

definition pool_ok :: "upool \<Rightarrow> bool" where
  "pool_ok p \<longleftrightarrow> up_urls p \<noteq> [] \<and> set (up_urls p) \<subseteq> fst ` set (up_breakers p)"

definition breaker_of :: "upool \<Rightarrow> string \<Rightarrow> replica_breaker" where
  "breaker_of p u = fst (registry_get (up_breakers p) u)"

definition closed_replicas :: "upool \<Rightarrow> string list" where
  "closed_replicas p = [u \<leftarrow> up_urls p. allows (breaker_of p u)]"

lemma registry_get_in: "u \<in> fst ` set r \<Longrightarrow> snd (registry_get r u) = r"
  by (auto simp: registry_get_def map_of_eq_None_iff split: option.split)

lemma closed_urls_known:
  "set us \<subseteq> fst ` set r \<Longrightarrow> closed_urls r us = ([u \<leftarrow> us. allows (fst (registry_get r u))], r)"
proof (induction us)
  case (Cons u us)
  then have "snd (registry_get r u) = r" by (simp add: registry_get_in)
  with Cons show ?case by (cases "registry_get r u") simp
qed simp

lemma probe_waits_known:
  "set us \<subseteq> fst ` set r \<Longrightarrow>
   probe_waits now r us = (map (\<lambda>u. seconds_until_probe (fst (registry_get r u)) now) us, r)"
proof (induction us)
  case (Cons u us)
  then have "snd (registry_get r u) = r" by (simp add: registry_get_in)
  with Cons show ?case by (cases "registry_get r u") simp
qed simp

lemma min_of_Min: "min_of m xs = Min (set (m # xs))"
proof (induction xs arbitrary: m)
  case (Cons x xs)
  have "min_of m (x # xs) = min_of (min x m) xs" by (simp add: min_def)
  also have "\<dots> = Min (set (m # x # xs))"
    unfolding Cons.IH by (cases "xs = []") (simp_all add: min.assoc min.commute min.left_commute)
  finally show ?case .
qed simp

definition candidates :: "upool \<Rightarrow> string option \<Rightarrow> string list" where
  "candidates p exclude =
     (let c = [u \<leftarrow> closed_replicas p. Some u \<noteq> exclude] in if c = [] then closed_replicas p else c)"

lemma pick_enabled:
  assumes "pool_ok p" and "BREAKER_ENABLED cfg"
  shows "pick cfg exclude now p =
     (let c = candidates p exclude; n = (up_next p + 1) mod length c in
      if c = [] then
        (Inl (Fin (Min ((\<lambda>u. seconds_until_probe (breaker_of p u) now) ` set (up_urls p)))), p)
      else (Inr (c ! n), p\<lparr>up_next := n\<rparr>))"
proof -
  obtain v vs where v: "up_urls p = v # vs" using assms(1) by (cases "up_urls p") (auto simp: pool_ok_def)
  have keys: "set (up_urls p) \<subseteq> fst ` set (up_breakers p)" using assms(1) by (simp add: pool_ok_def)
  show ?thesis
    using assms(2)
    by (simp add: pick_def closed_urls_known [OF keys] probe_waits_known [OF keys] candidates_def
        closed_replicas_def breaker_of_def [symmetric] Let_def)
      (simp add: v min_of_Min image_Un)
qed

lemma candidates_sub: "set (candidates p exclude) \<subseteq> set (closed_replicas p)"
  by (auto simp: candidates_def Let_def)

lemma candidates_empty: "candidates p exclude = [] \<longleftrightarrow> closed_replicas p = []"
  by (auto simp: candidates_def Let_def)

lemma candidates_excluded: "Some u = exclude \<Longrightarrow> u \<in> set (candidates p exclude) \<Longrightarrow> v \<in> set (closed_replicas p) \<Longrightarrow> v = u"
  by (cases exclude) (auto simp: candidates_def Let_def filter_empty_conv split: if_splits)

text \<open>C17. \<open>pick\<close> routes to a closed replica and nowhere else: it answers a configured URL whose
  breaker is closed, it returns to the excluded one only when no other replica is closed,
  and it refuses (\<open>AllReplicasOpen\<close>) exactly when no replica is closed. It changes no
  breaker.\<close>

theorem pick_routes_to_closed:
  assumes "pool_ok p" and "BREAKER_ENABLED cfg" and "pick cfg exclude now p = (r, p')"
  shows "(case r of
            Inr u \<Rightarrow> u \<in> set (up_urls p) \<and> allows (breaker_of p u) \<and>
              (exclude = Some u \<longrightarrow> (\<forall>v \<in> set (up_urls p). allows (breaker_of p v) \<longrightarrow> v = u))
          | Inl wait \<Rightarrow> \<forall>v \<in> set (up_urls p). \<not> allows (breaker_of p v)) \<and>
         up_urls p' = up_urls p \<and> up_breakers p' = up_breakers p"
proof (cases "candidates p exclude = []")
  case True
  then have "closed_replicas p = []" by (simp add: candidates_empty)
  with True assms show ?thesis
    by (auto simp: pick_enabled Let_def closed_replicas_def filter_empty_conv)
next
  case False
  define u where "u = candidates p exclude ! ((up_next p + 1) mod length (candidates p exclude))"
  have u: "u \<in> set (candidates p exclude)" using False by (simp add: u_def)
  have r: "r = Inr u" "up_urls p' = up_urls p" "up_breakers p' = up_breakers p"
    using False assms by (auto simp: pick_enabled Let_def u_def)
  have "u \<in> set (closed_replicas p)" using u candidates_sub by auto
  moreover have "v = u" if "exclude = Some u" and "v \<in> set (closed_replicas p)" for v
    using candidates_excluded [OF _ u that(2)] that(1) by simp
  ultimately show ?thesis using r by (auto simp: closed_replicas_def)
qed

definition two_replicas :: upool where
  "two_replicas = \<lparr>up_urls = [''a'', ''b''], up_next = 0, up_breakers = registry_reset [''a'', ''b''],
                   up_client = None\<rparr>"

lemma two_replicas_simps:
  "pool_ok two_replicas" "up_urls two_replicas = [''a'', ''b'']" "up_next two_replicas = 0"
  "breaker_of two_replicas ''a'' = new_breaker ''a'' ''0''"
  "breaker_of two_replicas ''b'' = new_breaker ''b'' ''1''"
  "closed_replicas two_replicas = [''a'', ''b'']"
  by (simp_all add: pool_ok_def two_replicas_def registry_reset_def breaker_of_def registry_get_def
      closed_replicas_def allows_def new_breaker_def str_int_def nat_digits.simps char_of_digits)

theorem pick_routes_to_closed_witness:
  "\<exists>u p'. pick default_settings (Some ''b'') 1 two_replicas = (Inr u, p') \<and> u = ''a''"
proof -
  have e: "BREAKER_ENABLED default_settings" by (simp add: default_settings_def)
  obtain r p' where r: "pick default_settings (Some ''b'') 1 two_replicas = (r, p')" by fastforce
  from pick_routes_to_closed [OF two_replicas_simps(1) e r] r show ?thesis
    by (auto simp: two_replicas_simps allows_def new_breaker_def split: sum.splits)
qed

lemma default_breaker: "BREAKER_ENABLED default_settings"
  by (simp add: default_settings_def)

text \<open>The replicas a sequence of picks goes through while no breaker changes.\<close>

fun pick_run :: "settings \<Rightarrow> real \<Rightarrow> nat \<Rightarrow> upool \<Rightarrow> string list" where
  "pick_run cfg now 0 p = []"
| "pick_run cfg now (Suc n) p =
     (case pick cfg None now p of
        (Inl wait, p') \<Rightarrow> []
      | (Inr u, p') \<Rightarrow> u # pick_run cfg now n p')"

lemma pool_view:
  assumes "up_urls p' = up_urls p" and "up_breakers p' = up_breakers p"
  shows "pool_ok p' = pool_ok p" and "breaker_of p' u = breaker_of p u"
    and "closed_replicas p' = closed_replicas p"
  using assms by (simp_all add: pool_ok_def breaker_of_def closed_replicas_def)

lemma candidates_None: "candidates p None = closed_replicas p"
  by (simp add: candidates_def)

lemma pick_run_nth:
  assumes "pool_ok p" and "BREAKER_ENABLED cfg" and "closed_replicas p \<noteq> []"
  shows "pick_run cfg now n p =
     map (\<lambda>i. closed_replicas p ! ((Suc (up_next p) + i) mod length (closed_replicas p))) [0..<n]"
  using assms(1,3)
proof (induction n arbitrary: p)
  case (Suc n)
  let ?c = "closed_replicas p"
  let ?m = "(up_next p + 1) mod length ?c"
  have same: "pool_ok (p\<lparr>up_next := ?m\<rparr>)" "closed_replicas (p\<lparr>up_next := ?m\<rparr>) = ?c"
    using pool_view [of "p\<lparr>up_next := ?m\<rparr>" p] Suc.prems by simp_all
  have "pick_run cfg now (Suc n) p = ?c ! ?m # pick_run cfg now n (p\<lparr>up_next := ?m\<rparr>)"
    using Suc.prems assms(2) by (simp add: pick_enabled candidates_None Let_def)
  also have "pick_run cfg now n (p\<lparr>up_next := ?m\<rparr>) = map (\<lambda>i. ?c ! ((Suc ?m + i) mod length ?c)) [0..<n]"
    using Suc.IH [of "p\<lparr>up_next := ?m\<rparr>"] same Suc.prems(2) by simp
  also have "\<dots> = map (\<lambda>i. ?c ! ((Suc (up_next p) + Suc i) mod length ?c)) [0..<n]"
    by (rule map_cong [OF refl]) (metis Suc_eq_plus1 add.assoc add_Suc_shift mod_add_left_eq plus_1_eq_Suc)
  finally show ?case by (simp add: upt_conv_Cons map_Suc_upt [symmetric] comp_def del: upt_Suc)
qed simp

text \<open>Routing is round-robin over the closed replicas: while no breaker changes, as many
  picks as there are closed replicas visit each of them exactly once, in the configured
  order from wherever the counter stands, and the next round starts over.\<close>

theorem pick_round_robin:
  assumes "pool_ok p" and "BREAKER_ENABLED cfg"
  shows "pick_run cfg now (length (closed_replicas p)) p = rotate (Suc (up_next p)) (closed_replicas p)"
proof (cases "closed_replicas p = []")
  case False
  with assms show ?thesis
    by - (rule nth_equalityI, simp_all add: pick_run_nth nth_rotate del: rotate_Suc)
qed simp

theorem pick_round_robin_witness:
  "pick_run default_settings 1 2 two_replicas = [''b'', ''a'']"
  using pick_round_robin [OF two_replicas_simps(1), of default_settings 1]
  by (simp add: two_replicas_simps default_breaker numeral_2_eq_2 [symmetric] eval_nat_numeral(3))

lemma refusal_wait:
  assumes "pool_ok p" and "BREAKER_ENABLED cfg"
    and "\<And>u. u \<in> set (up_urls p) \<Longrightarrow> breaker_reachable (breaker_of p u) now"
    and "pick cfg exclude now p = (Inl wait, p')"
  shows "\<exists>x. wait = Fin x \<and> 0 \<le> x \<and> x \<le> 60 \<and>
     (\<forall>t \<ge> now. (\<exists>u \<in> set (up_urls p). due_for_probe (breaker_of p u) t) \<longleftrightarrow> now + x \<le> t)"
proof -
  let ?w = "\<lambda>u. seconds_until_probe (breaker_of p u) now"
  have ok: "breaker_ok (breaker_of p u) now" if "u \<in> set (up_urls p)" for u
    using assms(3) [OF that] by (rule breaker_reachable_induct_ok)
  have "candidates p exclude = []" and wait: "wait = Fin (Min (?w ` set (up_urls p)))"
    using assms by (auto simp: pick_enabled Let_def split: if_splits)
  then have shut: "rb_state (breaker_of p u) \<noteq> CLOSED" if "u \<in> set (up_urls p)" for u
    using that by (auto simp: candidates_empty closed_replicas_def filter_empty_conv allows_def)
  have ne: "?w ` set (up_urls p) \<noteq> {}" using assms(1) by (simp add: pool_ok_def)
  obtain v where v: "v \<in> set (up_urls p)" "Min (?w ` set (up_urls p)) = ?w v"
    using Min_in [OF _ ne] by auto
  have due: "due_for_probe (breaker_of p u) t \<longleftrightarrow> now + ?w u \<le> t"
    if "u \<in> set (up_urls p)" and "now \<le> t" for u t
    using that ok shut by (intro due_iff_wait) auto
  have "(\<exists>u \<in> set (up_urls p). due_for_probe (breaker_of p u) t) \<longleftrightarrow> now + ?w v \<le> t" if "now \<le> t" for t
  proof -
    have "?w v \<le> ?w u" if "u \<in> set (up_urls p)" for u
      using v(2) that by (metis List.finite_set Min_le finite_imageI imageI)
    then show ?thesis using due [OF _ that] v(1) by force
  qed
  then show ?thesis
    using wait v seconds_until_probe_nonneg seconds_until_probe_bound [OF ok [OF v(1)]] by auto
qed

text \<open>A refusal says honestly when to come back: the \<open>retry_after\<close> of \<open>AllReplicasOpen\<close> is
  between 0 and 60 seconds, no replica is due for a reclose probe before it has passed, and
  one is due when it has.\<close>

theorem refusal_waits_for_first_probe:
  assumes "pool_ok p" and "BREAKER_ENABLED cfg"
    and "\<And>u. u \<in> set (up_urls p) \<Longrightarrow> breaker_reachable (breaker_of p u) now"
    and "pick cfg exclude now p = (Inl wait, p')"
  shows "\<exists>x. wait = Fin x \<and> 0 \<le> x \<and> x \<le> 60 \<and>
     (\<forall>t \<ge> now. (\<exists>u \<in> set (up_urls p). due_for_probe (breaker_of p u) t) \<longleftrightarrow> now + x \<le> t)"
  using assms by (rule refusal_wait)

definition tripped :: replica_breaker where
  "tripped = record_failure (record_failure (new_breaker ''a'' ''0'') CONNECT 1) CONNECT 1"

definition one_tripped :: upool where
  "one_tripped = \<lparr>up_urls = [''a''], up_next = 0, up_breakers = [(''a'', tripped)], up_client = None\<rparr>"

lemma one_tripped_simps:
  "pool_ok one_tripped" "up_urls one_tripped = [''a'']" "breaker_of one_tripped u = (if u = ''a'' then tripped else new_breaker u ''?'')"
  "rb_state tripped = OPEN" "seconds_until_probe tripped 4 = 12" "closed_replicas one_tripped = []"
  by (simp_all add: pool_ok_def one_tripped_def breaker_of_def registry_get_def closed_replicas_def
      tripped_def new_breaker_def breaker_ops Let_def gw_defs seconds_until_probe_def)

theorem refusal_waits_for_first_probe_witness:
  "\<exists>p'. pick default_settings None 4 one_tripped = (Inl (Fin 12), p') \<and> due_for_probe tripped 16"
proof -
  have e: "BREAKER_ENABLED default_settings" by (simp add: default_settings_def)
  have r: "breaker_reachable (breaker_of one_tripped u) 4" if "u \<in> set (up_urls one_tripped)" for u
    using that tripped_reachable [of 4 "''a''" "''0''"] by (simp add: one_tripped_simps tripped_def)
  have p: "pick default_settings None 4 one_tripped = (Inl (Fin 12), one_tripped)"
    by (simp add: pick_enabled one_tripped_simps e candidates_None)
  from refusal_waits_for_first_probe [OF one_tripped_simps(1) e r p] p show ?thesis
    by (auto simp: one_tripped_simps)
qed

text \<open>With \<open>BREAKER_ENABLED\<close> off the gateway never refuses for lack of a closed replica:
  every pick answers a configured URL, and the URLs come in turn.\<close>

theorem pick_disabled_never_refuses:
  assumes "\<not> BREAKER_ENABLED cfg" and "up_urls p \<noteq> []"
  shows "\<exists>u. pick cfg exclude now p = (Inr u, p\<lparr>up_next := (up_next p + 1) mod length (up_urls p)\<rparr>) \<and>
             u \<in> set (up_urls p) \<and> u = rotate (Suc (up_next p)) (up_urls p) ! 0"
  using assms by (simp add: pick_def nth_rotate Let_def del: rotate_Suc)

theorem pick_disabled_never_refuses_witness:
  "\<exists>u. fst (pick (default_settings\<lparr>BREAKER_ENABLED := False\<rparr>) None 4 one_tripped) = Inr u"
  using pick_disabled_never_refuses [of "default_settings\<lparr>BREAKER_ENABLED := False\<rparr>" one_tripped None 4]
  by (auto simp: one_tripped_simps)

text \<open>\<open>BREAKER_OPEN_SEC\<close> is read from the environment but changes nothing: on a pool with a
  replica in it, \<open>pick\<close> behaves the same whatever its value, and no breaker operation
  takes it.\<close>

theorem breaker_open_sec_without_effect:
  assumes "pool_ok p"
  shows "pick (cfg\<lparr>BREAKER_OPEN_SEC := x\<rparr>) exclude now p = pick cfg exclude now p"
proof (cases "BREAKER_ENABLED cfg")
  case True
  with assms show ?thesis by (simp add: pick_enabled)
qed (simp add: pick_def)

theorem breaker_open_sec_without_effect_witness:
  "pick (default_settings\<lparr>BREAKER_OPEN_SEC := Fin 1\<rparr>) None 4 one_tripped = pick default_settings None 4 one_tripped"
  by (rule breaker_open_sec_without_effect) (simp add: one_tripped_simps)

subsection \<open>The retry loop\<close>

type_synonym attempt_log = "(string \<times> string \<times> (py_exn + http_outcome)) list"

definition sends :: "net_event list \<Rightarrow> attempt_log" where
  "sends tr = concat (map (\<lambda>e. case e of Sent u url b x \<Rightarrow> [(u, url, x)] | _ \<Rightarrow> []) tr)"

lemma sends_simps [simp]:
  "sends [] = []" "sends (Sent u url b x # tr) = (u, url, x) # sends tr" "sends (Closed # tr) = sends tr"
  "sends (Slept d # tr) = sends tr" "sends (Probed pu # tr) = sends tr" "sends (tr @ tr') = sends tr @ sends tr'"
  by (simp_all add: sends_def)

definition attempt_url :: "string \<Rightarrow> string \<Rightarrow> string" where
  "attempt_url path u = py_rstrip CHR ''/'' u @ path"

definition sent_bodies :: "net_event list \<Rightarrow> json list" where
  "sent_bodies tr = concat (map (\<lambda>e. case e of Sent u url b x \<Rightarrow> [b] | _ \<Rightarrow> []) tr)"

lemma sent_bodies_simps [simp]:
  "sent_bodies [] = []" "sent_bodies (Sent u url b x # tr) = b # sent_bodies tr"
  "sent_bodies (Closed # tr) = sent_bodies tr" "sent_bodies (Slept d # tr) = sent_bodies tr"
  "sent_bodies (Probed pu # tr) = sent_bodies tr"
  "sent_bodies (tr @ tr') = sent_bodies tr @ sent_bodies tr'"
  by (simp_all add: sent_bodies_def)

lemma length_sent_bodies: "length (sent_bodies tr) = length (sends tr)"
  by (induction tr) (auto simp: sent_bodies_def sends_def split: net_event.split)

lemma success_final [simp]: "rs_status resp < 400 \<Longrightarrow> \<not> should_retry (Answer resp)"
  by (auto simp: should_retry_def RETRYABLE_STATUS_def)

text \<open>The exception \<open>e\<close> came out of closing the answer of attempt \<open>a\<close> or of the wait after it.\<close>

definition wait_failed :: "'s net \<Rightarrow> nat \<Rightarrow> py_exn \<Rightarrow> bool" where
  "wait_failed net a e \<longleftrightarrow> (\<exists>s. fst (net_close net a s) = Some e \<or> (\<exists>d. fst (net_sleep net a d s) = Some e))"

lemma wait_failedI:
  "net_close net a s = (Some e, s') \<Longrightarrow> wait_failed net a e"
  "net_sleep net a d s = (Some e, s') \<Longrightarrow> wait_failed net a e"
  unfolding wait_failed_def by (metis fst_conv)+

text \<open>How one round of the loop goes: it is refused, it is the last one, or it is retryable
  and another round follows (or its close or its sleep ends the call).\<close>

lemma retry_loop_cases:
  assumes "retry_loop cfg net path body stream attempt exclude st = (tr, r, st')"
  obtains (refused) w where "tr = []" "r = Inl (AllReplicasOpen w)"
      "fst (pick cfg exclude (net_pick_time net attempt) (cs_pool st)) = Inl w"
  | (passed) u e where "tr = [Sent u (attempt_url path u) body (Inl e)]" "r = Inl (Passed e)"
  | (raised) u e where "tr = [Sent u (attempt_url path u) body (Inr (Send_raised e))]"
      "r = Inl (UpstreamUnreachable e u)" "MAX_ATTEMPTS \<le> attempt + 1 \<or> \<not> should_retry (Send_raised e)"
  | (answered) u resp where "tr = [Sent u (attempt_url path u) body (Inr (Answer resp))]" "r = Inr (u, resp)"
      "MAX_ATTEMPTS \<le> attempt + 1 \<or> \<not> should_retry (Answer resp)"
  | (ended) u x e mid where "tr = Sent u (attempt_url path u) body (Inr x) # mid" "r = Inl (Passed e)"
      "attempt + 1 < MAX_ATTEMPTS" "should_retry x" "sends mid = []" "wait_failed net attempt e" "set mid \<subseteq> {Closed} \<union> range Slept"
  | (again) u x resp tr' st2 where "tr = Sent u (attempt_url path u) body (Inr x) #
        (if stream \<and> (\<exists>resp. x = Answer resp) then [Closed] else []) @
        [Slept (retry_delay (net_random net attempt) attempt resp)] @ tr'"
      "attempt + 1 < MAX_ATTEMPTS" "should_retry x"
      "retry_loop cfg net path body stream (attempt + 1) (Some u) st2 = (tr', r, st')"
  using assms [unfolded retry_loop.simps [of cfg net path body stream attempt exclude st]]
  by (auto simp: Let_def attempt_url_def dest: wait_failedI split: prod.splits sum.splits http_outcome.splits option.splits if_splits)

text \<open>What a call promises about its attempts, from attempt number \<open>a\<close> on.\<close>

text \<open>What the call reports, given its attempts \<open>al\<close> (numbered from \<open>a\<close>, the first one routed with
  \<open>exclude\<close>): an answer or a failure is the last attempt's; a refusal comes from the routing of one more
  attempt, after failures that are all retryable; an exception that passes through is the last attempt's
  own, or ended the wait before another attempt.\<close>

definition final_matches ::
  "settings \<Rightarrow> 's net \<Rightarrow> string \<Rightarrow> nat \<Rightarrow> string option \<Rightarrow> attempt_log \<Rightarrow> send_failure + string \<times> response \<Rightarrow> bool" where
  "final_matches cfg net path a exclude al r =
     (case r of
        Inr (u, resp) \<Rightarrow> al \<noteq> [] \<and> last al = (u, attempt_url path u, Inr (Answer resp))
      | Inl (UpstreamUnreachable e u) \<Rightarrow> al \<noteq> [] \<and> last al = (u, attempt_url path u, Inr (Send_raised e))
      | Inl (AllReplicasOpen w) \<Rightarrow>
          length al < MAX_ATTEMPTS - a \<and> (\<forall>(u, url, x) \<in> set al. \<exists>y. x = Inr y \<and> should_retry y) \<and>
          (\<exists>p. fst (pick cfg (if al = [] then exclude else Some (fst (last al))) (net_pick_time net (a + length al)) p) = Inl w)
      | Inl (Passed e) \<Rightarrow> al \<noteq> [] \<and>
          (snd (snd (last al)) = Inl e \<or>
           (length al < MAX_ATTEMPTS - a \<and> (\<exists>y. snd (snd (last al)) = Inr y \<and> should_retry y) \<and>
            wait_failed net (a + length al - 1) e)))"

definition attempts_ok ::
  "settings \<Rightarrow> 's net \<Rightarrow> nat \<Rightarrow> string option \<Rightarrow> string \<Rightarrow> net_event list \<Rightarrow> send_failure + string \<times> response \<Rightarrow> bool" where
  "attempts_ok cfg net a exclude path tr r \<longleftrightarrow>
     length (sends tr) \<le> MAX_ATTEMPTS - a \<and>
     (\<forall>(u, url, x) \<in> set (butlast (sends tr)). \<exists>y. x = Inr y \<and> should_retry y) \<and>
     (\<forall>(u, url, x) \<in> set (sends tr). url = attempt_url path u) \<and>
     final_matches cfg net path a exclude (sends tr) r \<and>
     (\<forall>u url x. sends tr \<noteq> [] \<and> last (sends tr) = (u, url, Inr x) \<and> should_retry x \<longrightarrow>
        length (sends tr) = MAX_ATTEMPTS - a \<or> (\<exists>w. r = Inl (AllReplicasOpen w)) \<or> (\<exists>e. r = Inl (Passed e)))"

text \<open>An attempt before the others changes only their numbering and the first routing.\<close>

lemma final_matches_Cons:
  assumes "final_matches cfg net path (Suc a) (Some u) al r" and "should_retry x" and "Suc a < MAX_ATTEMPTS"
  shows "final_matches cfg net path a exclude ((u, url, Inr x) # al) r"
proof (cases r)
  case (Inl f)
  with assms show ?thesis
    by (cases f) (fastforce simp: final_matches_def)+
next
  case (Inr q)
  with assms show ?thesis by (cases q) (auto simp: final_matches_def)
qed

lemma retry_loop_attempts:
  assumes "retry_loop cfg net path body stream a exclude st = (tr, r, st')" and "a < MAX_ATTEMPTS"
  shows "attempts_ok cfg net a exclude path tr r"
  using assms
proof (induction "MAX_ATTEMPTS - a" arbitrary: a exclude st tr rule: less_induct)
  case less
  from less.prems(1) show ?case
  proof (cases rule: retry_loop_cases)
    case (again u x resp tr' st2)
    have ok: "attempts_ok cfg net (a + 1) (Some u) path tr' r"
      using less.hyps [OF _ again(4)] again(2) by simp
    have s: "sends tr = (u, attempt_url path u, Inr x) # sends tr'" using again(1) by simp
    have f: "final_matches cfg net path a exclude (sends tr) r"
      using final_matches_Cons [of cfg net path a u "sends tr'" r x exclude] ok again(2,3)
      unfolding s attempts_ok_def by simp
    have ne: "sends tr' = [] \<Longrightarrow> (\<exists>w. r = Inl (AllReplicasOpen w))"
      using ok by (auto simp: attempts_ok_def final_matches_def split: sum.splits send_failure.splits)
    show ?thesis using ok f ne again(2,3) unfolding attempts_ok_def s by auto
  next
    case (refused w)
    have "\<exists>p. fst (pick cfg exclude (net_pick_time net a) p) = Inl w" using refused(3) by blast
    with refused less.prems(2) show ?thesis by (simp add: attempts_ok_def final_matches_def)
  qed (use less.prems(2) in \<open>auto simp: attempts_ok_def final_matches_def\<close>)
qed

lemma retry_loop_bodies:
  assumes "retry_loop cfg net path body stream a exclude st = (tr, r, st')"
  shows "set (sent_bodies tr) \<subseteq> {body}"
  using assms
proof (induction "MAX_ATTEMPTS - a" arbitrary: a exclude st tr rule: less_induct)
  case less
  from less.prems show ?case
  proof (cases rule: retry_loop_cases)
    case (ended u x e mid)
    then have "length (sent_bodies mid) = 0" by (simp add: length_sent_bodies)
    with ended show ?thesis by simp
  next
    case (again u x resp tr' st2)
    have "set (sent_bodies tr') \<subseteq> {body}" using less.hyps [OF _ again(4)] again(2) by simp
    with again show ?thesis by auto
  qed simp_all
qed

lemma with_retry_bodies: "with_retry cfg net path body stream st = (tr, r, st') \<Longrightarrow> set (sent_bodies tr) \<subseteq> {body}"
  using retry_loop_bodies by (simp add: with_retry_def)

text \<open>The answer \<open>resp\<close> is what the last send got.\<close>

definition replica_answered :: "net_event list \<Rightarrow> response \<Rightarrow> bool" where
  "replica_answered tr resp \<longleftrightarrow> sends tr \<noteq> [] \<and> snd (snd (last (sends tr))) = Inr (Answer resp)"

lemma with_retry_answered:
  assumes "with_retry cfg net path body stream st = (tr, Inr (u, resp), st')"
  shows "replica_answered tr resp"
  using retry_loop_attempts [OF assms [unfolded with_retry_def]]
  by (auto simp: attempts_ok_def final_matches_def replica_answered_def MAX_ATTEMPTS_def)

text \<open>C16. A request reaches the replicas at most twice, and the second time only for an outcome
  that is safe to repeat: a failure to connect, or a status 429, 502, 503 or 504, never a
  read timeout, a 500 or a success. A retryable first outcome is in turn retried, unless no
  replica is left to pick or the wait is ended by an exception. An answer, and a failure to reach
  a replica, is the last attempt's; the call reports that no replica is left only when the routing of
  its next attempt said so, after at most one attempt and a retryable one; and an exception passes
  through only from the last attempt itself or from closing its answer or waiting for the next.
  All of it holds whatever other tasks do meanwhile.\<close>

theorem at_most_one_retry:
  assumes "with_retry cfg net path body stream st = (tr, r, st')"
  shows "length (sends tr) \<le> 2 \<and>
     (\<forall>(u, url, x) \<in> set (butlast (sends tr)).
        (\<exists>e. x = Inr (Send_raised e) \<and> e \<noteq> ReadTimeout) \<or>
        (\<exists>resp. x = Inr (Answer resp) \<and> rs_status resp \<in> {429, 502, 503, 504})) \<and>
     (\<forall>(u, url, x) \<in> set (sends tr). url = attempt_url path u) \<and>
     final_matches cfg net path 0 None (sends tr) r \<and>
     (\<forall>u url x. sends tr = [(u, url, Inr x)] \<and> should_retry x \<longrightarrow>
        (\<exists>w. r = Inl (AllReplicasOpen w)) \<or> (\<exists>e. r = Inl (Passed e)))"
proof -
  have "attempts_ok cfg net 0 None path tr r"
    using retry_loop_attempts assms by (metis MAX_ATTEMPTS_def pos2 with_retry_def)
  moreover have "should_retry y \<longleftrightarrow> (\<exists>e. y = Send_raised e \<and> e \<noteq> ReadTimeout) \<or>
      (\<exists>resp. y = Answer resp \<and> rs_status resp \<in> {429, 502, 503, 504})" for y
    by (cases y) (auto simp: should_retry_def classify_def RETRYABLE_STATUS_def)
  ultimately show ?thesis
    unfolding attempts_ok_def by (fastforce simp: MAX_ATTEMPTS_def)
qed

text \<open>A net where every send is answered alike, nothing else runs meanwhile, no wait fails and
  the clock stands at \<open>t\<close>.\<close>

definition still_net :: "http_outcome \<Rightarrow> real \<Rightarrow> 's net" where
  "still_net x t =
     \<lparr>net_send = (\<lambda>_ _ _ _ st. (x, st)), net_sleep = (\<lambda>_ _ st. (None, st)), net_close = (\<lambda>_ st. (None, st)),
      net_pick_time = (\<lambda>_. t), net_record_time = (\<lambda>_. t), net_random = (\<lambda>_. 0)\<rparr>"

theorem at_most_one_retry_witness:
  "length (sends (fst (with_retry default_settings (still_net (Send_raised Transport) 1) ''/chat/completions'' JNull True
      \<lparr>cs_pool = two_replicas, cs_metrics = new_metrics\<rparr>))) \<le> 2"
proof -
  obtain tr r st' where w: "with_retry default_settings (still_net (Send_raised Transport) 1) ''/chat/completions'' JNull True
      \<lparr>cs_pool = two_replicas, cs_metrics = new_metrics\<rparr> = (tr, r, st')"
    by (metis prod_cases3)
  from at_most_one_retry [OF this] w show ?thesis by simp
qed

subsection \<open>Waiting before a retry\<close>

lemma cap_delay_le: "cap_delay x = Fin r \<Longrightarrow> r \<le> 2"
  by (auto simp: cap_delay_def MAX_RETRY_DELAY_SEC_def split: pyfloat.splits if_splits)

text \<open>The wait before a retry never exceeds 2 seconds, whatever \<open>Retry-After\<close> an upstream
  sends; without a usable one it is a jitter between 0 and a quarter second doubled per
  attempt. A \<open>Retry-After\<close> that Python reads as a finite number is honoured up to the cap.\<close>

theorem retry_delay_bounded:
  assumes "0 \<le> u" and "u < 1"
  shows "(\<forall>x. retry_delay u a resp = Fin x \<longrightarrow> x \<le> 2) \<and> retry_delay u a resp \<noteq> PInf \<and>
     (\<forall>r raw x. resp = Some r \<and> rs_headers r ''retry-after'' = Some raw \<and> float_of_str raw = Inr (Fin x) \<longrightarrow>
        retry_delay u a resp = Fin (min x 2)) \<and>
     ((\<forall>r raw. resp = Some r \<and> rs_headers r ''retry-after'' = Some raw \<longrightarrow> (\<exists>e. float_of_str raw = Inl e)) \<longrightarrow>
        (\<exists>x. retry_delay u a resp = Fin x \<and> 0 \<le> x \<and> x \<le> 2 ^ a / 4))"
proof -
  define j where "j = min (2 ^ a / 4) (2::real) * u"
  have m: "0 \<le> min (2 ^ a / 4) (2::real)" "min (2 ^ a / 4) (2::real) \<le> 2"
    "min (2 ^ a / 4) (2::real) \<le> 2 ^ a / 4" by simp_all
  then have "0 \<le> j" and "j \<le> min (2 ^ a / 4) 2"
    using assms unfolding j_def by (simp, intro mult_left_le) simp_all
  then have j: "0 \<le> j" "j \<le> 2" "j \<le> 2 ^ a / 4" using m by linarith+
  have d: "retry_delay u a resp =
     (case resp of None \<Rightarrow> Fin j | Some r \<Rightarrow>
        (case rs_headers r ''retry-after'' of None \<Rightarrow> Fin j | Some raw \<Rightarrow>
           (case float_of_str raw of Inl e \<Rightarrow> Fin j | Inr x \<Rightarrow> cap_delay x)))"
    by (simp add: retry_delay_def JITTER_BASE_SEC_def MAX_RETRY_DELAY_SEC_def Let_def j_def [abs_def] cong: option.case_cong sum.case_cong)
  show ?thesis
    unfolding d using j cap_delay_le
    by (auto simp: cap_delay_def MAX_RETRY_DELAY_SEC_def min_def
        split: option.splits sum.splits pyfloat.splits if_splits)
qed

lemma thirty: "float_of_str ''30'' = Inr (Fin 30)"
  by (simp add: float_of_str_def take_sign_def us_digits_def is_digit_def digits_val_def
      digit_val_def strip_by_def py_space_def py_lower_def py_lower_char_def py_partition_def
      to_pyfloat_def float_limit_big Let_def)

theorem retry_delay_bounded_witness:
  "retry_delay (1/2) 0 (Some \<lparr>rs_status = 503, rs_headers = [''retry-after'' \<mapsto> ''30''], rs_content = [],
     rs_chunks = [], rs_end = None\<rparr>) = Fin 2"
  using retry_delay_bounded [of "1/2" 0 "Some \<lparr>rs_status = 503, rs_headers = [''retry-after'' \<mapsto> ''30''],
     rs_content = [], rs_chunks = [], rs_end = None\<rparr>"]
  by (simp add: thirty)

subsection \<open>Recording outcomes\<close>

text \<open>The contract between the pool and a replica's gate: a refused replica is not readmitted by
  the outcome of a request, a neutral outcome changes nothing, and a success keeps an
  admitted replica admitted.\<close>

locale replica_gate =
  fixes admitted :: "'b \<Rightarrow> bool"
    and after :: "'b \<Rightarrow> 'k option \<Rightarrow> real \<Rightarrow> 'b"
    and neutral :: "'k \<Rightarrow> bool"
  assumes refused_stays: "\<not> admitted b \<Longrightarrow> \<not> admitted (after b k t)"
    and neutral_same: "neutral x \<Longrightarrow> after b (Some x) t = b"
    and success_admits: "admitted b \<Longrightarrow> admitted (after b None t)"
begin

lemma run_refused: "\<not> admitted b \<Longrightarrow> \<not> admitted (foldl (\<lambda>b (k, t). after b k t) b ks)"
  by (induction ks arbitrary: b) (auto dest: refused_stays)

lemma run_neutral: "(\<And>k t. (k, t) \<in> set ks \<Longrightarrow> \<exists>x. k = Some x \<and> neutral x) \<Longrightarrow>
    foldl (\<lambda>b (k, t). after b k t) b ks = b"
  by (induction ks arbitrary: b) (fastforce simp: neutral_same)+

lemma run_harmless: "(\<And>k t. (k, t) \<in> set ks \<Longrightarrow> k = None \<or> (\<exists>x. k = Some x \<and> neutral x)) \<Longrightarrow>
    admitted b \<Longrightarrow> admitted (foldl (\<lambda>b (k, t). after b k t) b ks)"
proof (induction ks arbitrary: b)
  case (Cons kt ks)
  obtain k t where kt: "kt = (k, t)" by (cases kt)
  have "admitted (after b k t)"
    using Cons.prems kt by (metis list.set_intros(1) neutral_same success_admits)
  then have "admitted (foldl (\<lambda>b (k, t). after b k t) (after b k t) ks)"
    using Cons.prems by (intro Cons.IH) auto
  then show ?case by (simp add: kt)
qed simp

end

definition apply_outcome :: "replica_breaker \<Rightarrow> failure_kind option \<Rightarrow> real \<Rightarrow> replica_breaker" where
  "apply_outcome b kind now =
     (case kind of None \<Rightarrow> record_success b now | Some k \<Rightarrow> record_failure b k now)"

interpretation gate: replica_gate allows apply_outcome "\<lambda>k. WEIGHTS k = 0"
  by unfold_locales
    (auto simp: allows_def apply_outcome_def record_success_def record_failure_not_closed
      record_failure_weightless split: option.splits)

lemma pool_record_breaker_of:
  assumes "pool_ok p" and "url \<in> set (up_urls p)"
  shows "breaker_of (pool_record url exc s now p) u =
           (if u = url then apply_outcome (breaker_of p url) (classify exc s) now else breaker_of p u) \<and>
         up_urls (pool_record url exc s now p) = up_urls p \<and> pool_ok (pool_record url exc s now p)"
proof -
  have url: "url \<in> fst ` set (up_breakers p)" using assms by (auto simp: pool_ok_def)
  then obtain b where b: "dict_get (up_breakers p) url = Some b" by (metis map_of_eq_None_iff not_None_eq)
  have f: "(case classify exc s of None \<Rightarrow> (\<lambda>b. record_success b now)
      | Some kind \<Rightarrow> (\<lambda>b. record_failure b kind now)) = (\<lambda>b. apply_outcome b (classify exc s) now)"
    by (rule ext) (simp add: apply_outcome_def split: option.split)
  have "map fst (up_breakers (pool_record url exc s now p)) = map fst (up_breakers p)"
    using registry_apply_keys [OF url] by (simp add: pool_record_def Let_def)
  then have "fst ` set (up_breakers (pool_record url exc s now p)) = fst ` set (up_breakers p)"
    by (metis list.set_map)
  then show ?thesis
    using assms registry_apply_get [OF url] b
    by (auto simp: pool_record_def Let_def f breaker_of_def registry_get_def pool_ok_def split: option.splits)
qed

text \<open>The outcomes recorded for one replica, in order: an exception or a status, and a time.\<close>

definition record_all :: "string \<Rightarrow> (send_exn option \<times> int option \<times> real) list \<Rightarrow> upool \<Rightarrow> upool" where
  "record_all u os p = foldl (\<lambda>p (exc, s, t). pool_record u exc s t p) p os"

lemma record_all_breaker_of:
  assumes "pool_ok p" and "u \<in> set (up_urls p)"
  shows "breaker_of (record_all u os p) v =
           (if v = u then foldl (\<lambda>b (k, t). apply_outcome b k t) (breaker_of p u)
                            (map (\<lambda>(exc, s, t). (classify exc s, t)) os)
            else breaker_of p v) \<and>
         up_urls (record_all u os p) = up_urls p \<and> pool_ok (record_all u os p)"
  using assms unfolding record_all_def
proof (induction os arbitrary: p)
  case (Cons o' os)
  obtain exc s t where o: "o' = (exc, s, t)" by (cases o')
  from pool_record_breaker_of [OF Cons.prems, of exc s t] Cons.IH [of "pool_record u exc s t p"] Cons.prems(2)
  show ?case by (simp add: o)
qed simp

lemma classify_below_500:
  "n < 500 \<Longrightarrow> classify None (Some n) = None \<or> (\<exists>x. classify None (Some n) = Some x \<and> WEIGHTS x = 0)"
  "n < 500 \<Longrightarrow> 400 \<le> n \<Longrightarrow> \<exists>x. classify None (Some n) = Some x \<and> WEIGHTS x = 0"
  by (auto simp: classify_def)

text \<open>Overload and bad requests never open a breaker: any run of answers with a status below
  500, the 429s of a throttling replica and the 4xx of malformed requests included, leaves a
  closed replica closed, and a run of 4xx alone leaves every breaker exactly as it was.\<close>

theorem client_errors_never_trip:
  assumes "pool_ok p" and "u \<in> set (up_urls p)"
    and "\<forall>(exc, s, t) \<in> set os. exc = None \<and> (\<exists>n. s = Some n \<and> n < 500)"
  shows "(allows (breaker_of p u) \<longrightarrow> allows (breaker_of (record_all u os p) u)) \<and>
     ((\<forall>(exc, s, t) \<in> set os. \<exists>n. s = Some n \<and> 400 \<le> n) \<longrightarrow>
        (\<forall>v. breaker_of (record_all u os p) v = breaker_of p v))"
proof (intro conjI impI allI)
  let ?ks = "map (\<lambda>(exc, s, t). (classify exc s, t)) os"
  note r = record_all_breaker_of [OF assms(1,2), of os]
  show "allows (breaker_of (record_all u os p) u)" if "allows (breaker_of p u)"
  proof -
    have "k = None \<or> (\<exists>x. k = Some x \<and> WEIGHTS x = 0)" if kt: "(k, t) \<in> set ?ks" for k t
    proof -
      obtain exc s where "(exc, s, t) \<in> set os" and k: "k = classify exc s" using kt by auto
      with assms(3) obtain n where "exc = None" "s = Some n" "n < 500" by fastforce
      with classify_below_500(1) k show ?thesis by simp
    qed
    from gate.run_harmless [of ?ks, OF this that] r show ?thesis by simp
  qed
  show "breaker_of (record_all u os p) v = breaker_of p v"
    if "\<forall>(exc, s, t) \<in> set os. \<exists>n. s = Some n \<and> 400 \<le> n" for v
  proof -
    have "\<exists>x. k = Some x \<and> WEIGHTS x = 0" if "(k, t) \<in> set ?ks" for k t
      using that assms(3) \<open>\<forall>(exc, s, t) \<in> set os. \<exists>n. s = Some n \<and> 400 \<le> n\<close>
      by (fastforce dest: classify_below_500(2))
    from gate.run_neutral [of ?ks, OF this] r [of v] show ?thesis by simp
  qed
qed

theorem client_errors_never_trip_witness:
  "breaker_of (record_all ''a'' [(None, Some 429, 1), (None, Some 400, 2)] two_replicas) ''a'' = new_breaker ''a'' ''0''"
  using client_errors_never_trip [OF two_replicas_simps(1), of "''a''" "[(None, Some 429, 1), (None, Some 400, 2)]"]
  by (simp add: two_replicas_simps)

subsection \<open>An outage fails fast\<close>

lemma closed_score: "breaker_ok b now \<Longrightarrow> rb_state b = CLOSED \<Longrightarrow> 0 \<le> rb_score b \<and> threshold b now \<le> 6"
  using threshold_le [of b now] by (simp add: breaker_ok_def TRIP_SCORE_def)

lemma two_connects_open:
  assumes "breaker_ok b now" and "rb_state b = CLOSED"
  shows "rb_state (record_failure (record_failure b CONNECT now) CONNECT now) = OPEN \<and>
         rb_opened_at (record_failure (record_failure b CONNECT now) CONNECT now) = Some now \<and>
         rb_open_sec (record_failure (record_failure b CONNECT now) CONNECT now) = 15"
  using assms closed_score [OF assms]
  by (auto simp: record_failure_def open_breaker_def Let_def breaker_ok_def INITIAL_OPEN_SEC_def)

lemma single_pick:
  assumes "pool_ok p" and "BREAKER_ENABLED cfg" and "up_urls p = [u]"
  shows "pick cfg exclude now p =
     (if rb_state (breaker_of p u) = CLOSED then (Inr u, p\<lparr>up_next := 0\<rparr>)
      else (Inl (Fin (seconds_until_probe (breaker_of p u) now)), p))"
  using assms by (simp add: pick_enabled candidates_def closed_replicas_def allows_def Let_def)

lemma single_send:
  fixes st :: "'a client_state_scheme"
  assumes "up_client (cs_pool st) \<noteq> None" and "uncaught e = None"
  shows "\<exists>st'. send_and_record (still_net (Send_raised e) t) a u url body stream st = (Inr (Send_raised e), st') \<and>
     cs_pool st' = pool_record u (Some e) None t (cs_pool st)"
  using assms
  by (auto simp: send_and_record_def pool_client_def still_net_def count_upstream_def Let_def split: option.splits)

lemma pool_record_client [simp]: "up_client (pool_record u exc s t p) = up_client p"
  by (simp add: pool_record_def Let_def)

lemma single_record:
  fixes n :: nat and t :: real
  assumes "pool_ok p" and "up_urls p = [u]" and "e \<noteq> ReadTimeout"
  defines "p' \<equiv> pool_record u (Some e) None t (p\<lparr>up_next := n\<rparr>)"
  shows "pool_ok p'" and "up_urls p' = [u]" and "up_client p' = up_client p"
    and "breaker_of p' u = record_failure (breaker_of p u) CONNECT t"
proof -
  have v: "pool_ok (p\<lparr>up_next := n\<rparr>)" "breaker_of (p\<lparr>up_next := n\<rparr>) u = breaker_of p u"
    using pool_view [of "p\<lparr>up_next := n\<rparr>" p] assms(1) by simp_all
  then show "pool_ok p'" "up_urls p' = [u]" "up_client p' = up_client p"
    "breaker_of p' u = record_failure (breaker_of p u) CONNECT t"
    using pool_record_breaker_of [of "p\<lparr>up_next := n\<rparr>" u "Some e" None t u] assms
    by (simp_all add: apply_outcome_def classify_def)
qed

text \<open>C18. An outage of the only replica costs one request and then fails fast: if every send of a request,
  at one instant, raises an exception that counts as a failed connection (anything but a read timeout,
  also a body that cannot be encoded; answers with a status 5xx weigh less and are not meant),
  the request itself fails after at most two sends and leaves the breaker open, and the
  next request, whatever it is, is refused without touching the network, with what is left
  of the first 15 seconds as its \<open>retry_after\<close>.\<close>

theorem outage_fails_fast:
  fixes st :: "'a client_state_scheme" and net2 :: "('a client_state_scheme) net"
  assumes "BREAKER_ENABLED cfg" and "pool_ok (cs_pool st)" and "up_urls (cs_pool st) = [u]"
    and "up_client (cs_pool st) \<noteq> None"
    and "breaker_ok (breaker_of (cs_pool st) u) t" and "rb_state (breaker_of (cs_pool st) u) = CLOSED"
    and "e \<noteq> ReadTimeout" and "uncaught e = None"
    and "with_retry cfg (still_net (Send_raised e) t) path body stream st = (tr, r, st')"
  shows "length (sends tr) \<in> {1, 2} \<and> r \<in> {Inl (UpstreamUnreachable e u), Inl (AllReplicasOpen (Fin 15))} \<and>
     rb_state (breaker_of (cs_pool st') u) = OPEN \<and>
     fst (with_retry cfg net2 path2 body2 stream2 st') = [] \<and>
     fst (snd (with_retry cfg net2 path2 body2 stream2 st')) =
       Inl (AllReplicasOpen (Fin (max 0 (15 - (net_pick_time net2 0 - t)))))"
proof -
  let ?net = "still_net (Send_raised e) t :: ('a client_state_scheme) net"
  let ?p = "cs_pool st" and ?b = "breaker_of (cs_pool st) u"
  have retry: "should_retry (Send_raised e)" using assms(7) by (simp add: should_retry_def classify_def)
  have times: "net_pick_time ?net a = t" "net_sleep ?net a d s = (None, s)" for a d s
    by (simp_all add: still_net_def)
  obtain st1 where s1: "send_and_record ?net 0 u (attempt_url path u) body stream (st\<lparr>cs_pool := ?p\<lparr>up_next := 0\<rparr>\<rparr>)
      = (Inr (Send_raised e), st1)" and p1: "cs_pool st1 = pool_record u (Some e) None t (?p\<lparr>up_next := 0\<rparr>)"
    using single_send [of "st\<lparr>cs_pool := ?p\<lparr>up_next := 0\<rparr>\<rparr>" e t 0 u "attempt_url path u" body stream] assms(4,8) by auto
  note q1 = single_record [OF assms(2,3,7), where t = t and n = 0, folded p1]
  have first: "retry_loop cfg ?net path body stream 0 None st =
      (let (tr, r, st) = retry_loop cfg ?net path body stream 1 (Some u) st1
       in (Sent u (attempt_url path u) body (Inr (Send_raised e)) #
             Slept (retry_delay (net_random ?net 0) 0 None) # tr, r, st))"
    using s1 retry
    by (subst retry_loop.simps)
      (simp add: single_pick [OF assms(2,1,3)] assms(6) times attempt_url_def MAX_ATTEMPTS_def Let_def)
  have fast: "with_retry cfg net2 path2 body2 stream2 s =
        ([], Inl (AllReplicasOpen (Fin (max 0 (15 - (net_pick_time net2 0 - t))))), s)"
    if "pool_ok (cs_pool s)" "up_urls (cs_pool s) = [u]" "rb_state (breaker_of (cs_pool s) u) = OPEN"
      "rb_opened_at (breaker_of (cs_pool s) u) = Some t" "rb_open_sec (breaker_of (cs_pool s) u) = 15" for s :: "'a client_state_scheme"
    using that
    by (simp add: with_retry_def retry_loop.simps [of _ _ _ _ _ 0] single_pick [OF that(1) assms(1) that(2)]
        seconds_until_probe_def)
  show ?thesis
  proof (cases "rb_state (record_failure ?b CONNECT t) = CLOSED")
    case True
    obtain st2 where s2: "send_and_record ?net 1 u (attempt_url path u) body stream
        (st1\<lparr>cs_pool := (cs_pool st1)\<lparr>up_next := 0\<rparr>\<rparr>) = (Inr (Send_raised e), st2)"
      and p2: "cs_pool st2 = pool_record u (Some e) None t ((cs_pool st1)\<lparr>up_next := 0\<rparr>)"
      using single_send [of "st1\<lparr>cs_pool := (cs_pool st1)\<lparr>up_next := 0\<rparr>\<rparr>" e t 1 u "attempt_url path u" body stream] assms(4,8) q1(3) by auto
    note q2 = single_record [OF q1(1,2) assms(7), where t = t and n = 0, folded p2]
    have "retry_loop cfg ?net path body stream 1 (Some u) st1 =
        ([Sent u (attempt_url path u) body (Inr (Send_raised e))], Inl (UpstreamUnreachable e u), st2)"
      using s2
      by (subst retry_loop.simps)
        (simp add: single_pick [OF q1(1) assms(1) q1(2)] q1(4) True times attempt_url_def MAX_ATTEMPTS_def Let_def)
    with first assms(9) have "r = Inl (UpstreamUnreachable e u)" "length (sends tr) = 2" "st' = st2"
      by (auto simp: with_retry_def)
    moreover note two_connects_open [OF assms(5,6), folded q1(4), folded q2(4)]
    ultimately show ?thesis using fast [OF q2(1,2)] by simp
  next
    case False
    then have open1: "rb_state (breaker_of (cs_pool st1) u) = OPEN"
      "rb_opened_at (breaker_of (cs_pool st1) u) = Some t" "rb_open_sec (breaker_of (cs_pool st1) u) = 15"
      using assms(5,6) q1(4)
      by (auto simp: record_failure_def open_breaker_def Let_def breaker_ok_def INITIAL_OPEN_SEC_def split: if_splits)
    then have "retry_loop cfg ?net path body stream 1 (Some u) st1 = ([], Inl (AllReplicasOpen (Fin 15)), st1)"
      by (subst retry_loop.simps)
        (simp add: single_pick [OF q1(1) assms(1) q1(2)] times seconds_until_probe_def)
    with first assms(9) have "r = Inl (AllReplicasOpen (Fin 15))" "length (sends tr) = 1" "st' = st1"
      by (auto simp: with_retry_def)
    with open1 show ?thesis using fast [OF q1(1,2) open1] by simp
  qed
qed

definition fresh_single :: client_state where
  "fresh_single =
     \<lparr>cs_pool = \<lparr>up_urls = [''a''], up_next = 0, up_breakers = registry_reset [''a''],
        up_client = Some \<lparr>hc_headers = [], hc_verify = Default_verify, hc_timeout = (Fin 5, Fin 120, Fin 5, Fin 5)\<rparr>\<rparr>,
      cs_metrics = new_metrics\<rparr>"

lemma fresh_single_simps:
  "pool_ok (cs_pool fresh_single)" "up_urls (cs_pool fresh_single) = [''a'']"
  "up_client (cs_pool fresh_single) \<noteq> None"
  "breaker_of (cs_pool fresh_single) ''a'' = new_breaker ''a'' ''0''"
  by (simp_all add: fresh_single_def pool_ok_def registry_reset_def breaker_of_def registry_get_def
      str_int_def nat_digits.simps char_of_digits)

theorem outage_fails_fast_witness:
  "fst (snd (with_retry default_settings (still_net (Send_raised Transport) 4) ''/chat/completions'' JNull True
     (snd (snd (with_retry default_settings (still_net (Send_raised (Python ValueError)) 1) ''/chat/completions''
        (JFloat NaN) False fresh_single))))) = Inl (AllReplicasOpen (Fin 12))"
proof -
  obtain tr r st' where w: "with_retry default_settings (still_net (Send_raised (Python ValueError)) 1)
      ''/chat/completions'' (JFloat NaN) False fresh_single = (tr, r, st')"
    by (metis prod_cases3)
  have "rb_state (new_breaker ''a'' ''0'') = CLOSED" by (simp add: new_breaker_def)
  moreover have "uncaught (Python ValueError) = None" by (simp add: uncaught_def is_Exception_def)
  ultimately have "fst (snd (with_retry default_settings (still_net (Send_raised Transport) 4) ''/chat/completions'' JNull True st'))
      = Inl (AllReplicasOpen (Fin (max 0 (15 - (net_pick_time (still_net (Send_raised Transport) 4 :: client_state net) 0 - 1)))))"
    using outage_fails_fast [OF default_breaker fresh_single_simps(1-3) _ _ _ _ w]
    by (simp add: fresh_single_simps new_breaker_ok)
  with w show ?thesis by (simp add: still_net_def)
qed

subsection \<open>The pool is always routable\<close>

lemma set_urls_ok: "set_urls urls p = Inr p' \<Longrightarrow> pool_ok p' \<and> up_urls p' = urls \<and> up_next p' = 0"
  by (auto simp: set_urls_def pool_ok_def registry_reset_keys split: if_splits)

lemma new_pool_ok: "new_pool cfg urls = Inr p \<Longrightarrow> pool_ok p"
  using set_urls_ok by (auto simp: new_pool_def)

lemma pick_urls: "up_urls (snd (pick cfg exclude now p)) = up_urls p"
  by (auto simp: pick_def Let_def split: prod.splits)

lemma pool_ok_next [simp]: "pool_ok (p\<lparr>up_next := n\<rparr>) = pool_ok p"
  by (simp add: pool_ok_def)

lemma pick_ok: "pool_ok p \<Longrightarrow> pool_ok (snd (pick cfg exclude now p))"
proof (cases "BREAKER_ENABLED cfg")
  case True
  then show "pool_ok p \<Longrightarrow> ?thesis" by (simp add: pick_enabled Let_def)
qed (simp add: pick_def Let_def)

lemma picked_url: "pool_ok p \<Longrightarrow> pick cfg exclude now p = (Inr u, p') \<Longrightarrow> u \<in> set (up_urls p')"
proof (cases "BREAKER_ENABLED cfg")
  case True
  assume "pool_ok p" and "pick cfg exclude now p = (Inr u, p')"
  moreover have "set (candidates p exclude) \<subseteq> set (up_urls p)"
    using candidates_sub [of p exclude] by (auto simp: closed_replicas_def)
  ultimately show ?thesis using True
    by (auto simp: pick_enabled Let_def split: if_splits)
      (metis length_greater_0_conv mod_less_divisor nth_mem subsetD)
next
  case False
  assume "pool_ok p" and "pick cfg exclude now p = (Inr u, p')"
  with False show ?thesis by (auto simp: pick_def Let_def pool_ok_def)
qed

lemma count_upstream_pool [simp]: "cs_pool (count_upstream u x st) = cs_pool st"
  by (simp add: count_upstream_def Let_def)

text \<open>The state a round that sends ends in, or hands to the next round.\<close>

lemma retry_loop_end:
  assumes "pick cfg exclude (net_pick_time net a) (cs_pool st) = (Inr u, p)"
    and "send_and_record net a u (py_rstrip CHR ''/'' u @ path) body stream (st\<lparr>cs_pool := p\<rparr>) = (result, st1)"
  shows "\<exists>d x. let st2 = (if x then snd (net_close net a st1) else st1); st3 = snd (net_sleep net a d st2);
      end = snd (snd (retry_loop cfg net path body stream a exclude st))
    in end \<in> {st1, st2, st3} \<or>
       (a + 1 < MAX_ATTEMPTS \<and> end = snd (snd (retry_loop cfg net path body stream (a + 1) (Some u) st3)))"
proof (cases "\<exists>outcome. result = Inr outcome \<and> should_retry outcome \<and> a + 1 < MAX_ATTEMPTS")
  case False
  with assms have "snd (snd (retry_loop cfg net path body stream a exclude st)) = st1"
    by (subst retry_loop.simps) (auto simp: Let_def split: sum.splits http_outcome.splits)
  then show ?thesis by simp
next
  case True
  then obtain outcome where o: "result = Inr outcome" "should_retry outcome" "a + 1 < MAX_ATTEMPTS" by blast
  define d where "d = retry_delay (net_random net a) a (case outcome of Send_raised e \<Rightarrow> None | Answer r \<Rightarrow> Some r)"
  define x where "x \<longleftrightarrow> stream \<and> (\<exists>r. outcome = Answer r)"
  have "retry_loop cfg net path body stream a exclude st =
    (let (ce, st2) = (if x then net_close net a st1 else (None, st1));
         (se, st3) = net_sleep net a d st2;
         (tr, r, st4) = retry_loop cfg net path body stream (a + 1) (Some u) st3;
         sent = Sent u (py_rstrip CHR ''/'' u @ path) body result; closed = (if x then [Closed] else [])
     in case ce of Some e \<Rightarrow> (sent # closed, Inl (Passed e), st2)
        | None \<Rightarrow> (case se of Some e \<Rightarrow> (sent # closed @ [Slept d], Inl (Passed e), st3)
            | None \<Rightarrow> (sent # closed @ [Slept d] @ tr, r, st4)))"
    using assms o
    by (subst retry_loop.simps)
      (auto simp: Let_def d_def x_def split: http_outcome.splits prod.splits option.splits)
  then show ?thesis using o(3)
    by (intro exI [of _ d] exI [of _ x]) (auto simp: Let_def split: prod.splits option.splits)
qed

text \<open>A property of the shared state that the other tasks keep, and that routing and the record of an
  attempt keep, survives a whole request.\<close>

definition net_keeps :: "('a client_state_scheme \<Rightarrow> bool) \<Rightarrow> ('a client_state_scheme) net \<Rightarrow> bool" where
  "net_keeps P net \<longleftrightarrow>
     (\<forall>a url body s st. P st \<longrightarrow> P (snd (net_send net a url body s st))) \<and>
     (\<forall>a d st. P st \<longrightarrow> P (snd (net_sleep net a d st))) \<and>
     (\<forall>a st. P st \<longrightarrow> P (snd (net_close net a st)))"

definition UPSTREAM_OUTCOMES :: "string list" where
  "UPSTREAM_OUTCOMES = [''unreachable'', ''ok'', ''http_error'']"

definition client_keeps :: "settings \<Rightarrow> ('a client_state_scheme \<Rightarrow> bool) \<Rightarrow> bool" where
  "client_keeps cfg P \<longleftrightarrow>
     (\<forall>st exclude now. P st \<longrightarrow> P (st\<lparr>cs_pool := snd (pick cfg exclude now (cs_pool st))\<rparr>)) \<and>
     (\<forall>st u e s now outc. P st \<longrightarrow> outc \<in> set UPSTREAM_OUTCOMES \<longrightarrow>
        P (count_upstream u outc (st\<lparr>cs_pool := pool_record u e s now (cs_pool st)\<rparr>)))"

lemma send_and_record_keeps:
  assumes "net_keeps P net" and "client_keeps cfg P" and "P st"
  shows "P (snd (send_and_record net a upstream url body stream st))"
proof -
  define xs where "xs = (case pool_client (cs_pool st) of
      Inl e \<Rightarrow> (Send_raised e, st) | Inr _ \<Rightarrow> net_send net a url body stream st)"
  have "P (snd xs)" using assms by (auto simp: xs_def net_keeps_def split: sum.split)
  then show ?thesis
    using assms(2)
    by (auto simp: send_and_record_def xs_def [symmetric] client_keeps_def UPSTREAM_OUTCOMES_def Let_def
        split: prod.splits http_outcome.splits option.splits)
qed

lemma with_retry_keeps:
  assumes "net_keeps P net" and "client_keeps cfg P" and "P st"
  shows "P (snd (snd (with_retry cfg net path body stream st)))"
proof -
  have "P (snd (snd (retry_loop cfg net path body stream a exclude st)))" for a exclude
    using assms(3)
  proof (induction "MAX_ATTEMPTS - a" arbitrary: a exclude st rule: less_induct)
    case less
    obtain picked p where pk: "pick cfg exclude (net_pick_time net a) (cs_pool st) = (picked, p)" by fastforce
    have p: "P (st\<lparr>cs_pool := p\<rparr>)" using assms(2) less.prems pk unfolding client_keeps_def by (metis snd_conv)
    show ?case
    proof (cases picked)
      case (Inl wait)
      with pk p show ?thesis by (subst retry_loop.simps) simp
    next
      case (Inr u)
      obtain result st1 where s: "send_and_record net a u (py_rstrip CHR ''/'' u @ path) body stream (st\<lparr>cs_pool := p\<rparr>)
          = (result, st1)" by fastforce
      have st1: "P st1" using send_and_record_keeps [OF assms(1,2) p] s by (metis snd_conv)
      obtain d x where dx: "let st2 = (if x then snd (net_close net a st1) else st1); st3 = snd (net_sleep net a d st2);
          end = snd (snd (retry_loop cfg net path body stream a exclude st))
        in end \<in> {st1, st2, st3} \<or>
           (a + 1 < MAX_ATTEMPTS \<and> end = snd (snd (retry_loop cfg net path body stream (a + 1) (Some u) st3)))"
        using retry_loop_end [OF pk [unfolded Inr] s] by blast
      define st2 where "st2 = (if x then snd (net_close net a st1) else st1)"
      define st3 where "st3 = snd (net_sleep net a d st2)"
      have st2: "P st2" using st1 assms(1) by (simp add: st2_def net_keeps_def)
      then have st3: "P st3" using assms(1) by (simp add: st3_def net_keeps_def)
      have "P (snd (snd (retry_loop cfg net path body stream (a + 1) (Some u) st3)))" if "a + 1 < MAX_ATTEMPTS"
        using that st3 by (intro less.hyps) simp_all
      with dx st1 st2 st3 show ?thesis
        unfolding Let_def st2_def [symmetric] st3_def [symmetric] by auto
    qed
  qed
  then show ?thesis by (simp add: with_retry_def)
qed

text \<open>The pool stays routable: \<open>set_urls\<close> refuses an empty list, and from any pool it
  accepts, a whole request with its retry, whatever other tasks do in between as long as they
  keep the pool so, leaves a pool with at least one URL and a breaker for every URL.\<close>

lemma registry_apply_grows: "fst ` set r \<subseteq> fst ` set (registry_apply f u r)"
  by (auto simp: registry_apply_def registry_get_def Let_def split: option.split)

lemma pool_record_ok: "pool_ok p \<Longrightarrow> pool_ok (pool_record u e s now p)"
  using subset_trans [OF _ registry_apply_grows] by (simp add: pool_ok_def pool_record_def Let_def)

lemma client_keeps_pool_ok: "client_keeps cfg (\<lambda>st. pool_ok (cs_pool st))"
  by (simp add: client_keeps_def pick_ok pool_record_ok)

theorem with_retry_keeps_pool:
  assumes "net_keeps (\<lambda>st. pool_ok (cs_pool st)) net" and "set_urls urls p = Inr (cs_pool st)"
  shows "urls \<noteq> [] \<and> pool_ok (cs_pool (snd (snd (with_retry cfg net path body stream st))))"
proof -
  have "pool_ok (cs_pool st)" and "urls \<noteq> []"
    using set_urls_ok [OF assms(2)] assms(2) by (auto simp: set_urls_def split: if_splits)
  then show ?thesis using with_retry_keeps [OF assms(1) client_keeps_pool_ok] by blast
qed

lemma still_net_keeps: "net_keeps P (still_net x t)"
  by (simp add: net_keeps_def still_net_def)

theorem with_retry_keeps_pool_witness:
  "pool_ok (cs_pool (snd (snd (with_retry default_settings (still_net (Send_raised Transport) 1) ''/x'' JNull False
     fresh_single))))"
proof -
  have "set_urls [''a''] (cs_pool fresh_single) = Inr (cs_pool fresh_single)"
    by (simp add: set_urls_def fresh_single_def)
  from with_retry_keeps_pool [OF still_net_keeps this] show ?thesis by simp
qed

subsection \<open>Transport security\<close>

text \<open>The client of the replicas is built with exactly the TLS material configured: starting
  fails when only one half of the client certificate is set; httpx's default verification is
  used only when neither a CA bundle nor a certificate is configured; otherwise the context
  carries the CA bundle, and the certificate with its key, whenever each is set.\<close>

theorem start_uses_tls_material:
  "let ca = UPSTREAM_CA_BUNDLE_PATH cfg; cert = UPSTREAM_CLIENT_CERT_PATH cfg; key = UPSTREAM_CLIENT_KEY_PATH cfg
   in if (cert = []) \<noteq> (key = []) then pool_start cfg p = Inl ValueError
      else \<exists>p'. pool_start cfg p = Inr p' \<and>
             map_option hc_verify (up_client p') = Some (if ca = [] \<and> cert = [] then Default_verify
                            else Ssl_context (if ca = [] then None else Some ca)
                                   (if cert = [] then None else Some (cert, key)))"
  by (cases "UPSTREAM_CLIENT_CERT_PATH cfg"; cases "UPSTREAM_CLIENT_KEY_PATH cfg")
    (simp_all add: pool_start_def upstream_ssl_context_def UPSTREAM_CLIENT_CERT_def Let_def)

end
