(* ===== verification/Quota.thy ===== *)
theory Quota
  imports Gw_Prelude
begin

section \<open>Per-key quotas (gateway/quota.py)\<close>

text \<open>
  \<open>QuotaTracker\<close>: two dictionaries, live slots and tokens used, keyed by key id. A raised
  \<open>QuotaExceeded\<close> is the left side of the result and carries its reason.
\<close>

type_synonym quota_exceeded = string

record quota_tracker =
  q_inflight :: "string \<rightharpoonup> int"
  q_tokens_used :: "string \<rightharpoonup> int"

definition new_quota :: quota_tracker where
  "new_quota = \<lparr>q_inflight = Map.empty, q_tokens_used = Map.empty\<rparr>"

definition get_or_0 :: "(string \<rightharpoonup> int) \<Rightarrow> string \<Rightarrow> int" where
  "get_or_0 m k = (case m k of None \<Rightarrow> 0 | Some n \<Rightarrow> n)"

definition tokens_used :: "quota_tracker \<Rightarrow> string \<Rightarrow> int" where
  "tokens_used q keyid = get_or_0 (q_tokens_used q) keyid"

definition check_budget :: "quota_tracker \<Rightarrow> string \<Rightarrow> int \<Rightarrow> quota_exceeded + unit" where
  "check_budget q keyid token_budget =
     (if tokens_used q keyid \<ge> token_budget then Inl ''token_budget_exceeded'' else Inr ())"

definition record_usage :: "quota_tracker \<Rightarrow> string \<Rightarrow> int \<Rightarrow> quota_tracker" where
  "record_usage q keyid total_tokens =
     (if total_tokens > 0
      then q\<lparr>q_tokens_used := (q_tokens_used q)(keyid \<mapsto> tokens_used q keyid + total_tokens)\<rparr>
      else q)"

definition inflight :: "quota_tracker \<Rightarrow> string \<Rightarrow> int" where
  "inflight q keyid = get_or_0 (q_inflight q) keyid"

definition acquire :: "quota_tracker \<Rightarrow> string \<Rightarrow> int \<Rightarrow> quota_exceeded + quota_tracker" where
  "acquire q keyid max_concurrency =
     (let current = get_or_0 (q_inflight q) keyid in
      if current \<ge> max_concurrency then Inl ''concurrency_cap_exceeded''
      else Inr (q\<lparr>q_inflight := (q_inflight q)(keyid \<mapsto> current + 1)\<rparr>))"

definition release :: "quota_tracker \<Rightarrow> string \<Rightarrow> quota_tracker" where
  "release q keyid =
     (let current = get_or_0 (q_inflight q) keyid in
      q\<lparr>q_inflight := (q_inflight q)(keyid \<mapsto> max 0 (current - 1))\<rparr>)"

definition quota_reset :: "quota_tracker \<Rightarrow> quota_tracker" where
  "quota_reset q = q\<lparr>q_inflight := Map.empty, q_tokens_used := Map.empty\<rparr>"

subsection \<open>What each operation does to the two counters\<close>

definition quota_ok :: "quota_tracker \<Rightarrow> bool" where
  "quota_ok q \<longleftrightarrow> (\<forall>k. 0 \<le> inflight q k) \<and> (\<forall>k. 0 \<le> tokens_used q k)"

lemma get_or_0_upd [simp]: "get_or_0 (m(k \<mapsto> v)) k' = (if k' = k then v else get_or_0 m k')"
  by (simp add: get_or_0_def)

lemma get_or_0_empty [simp]: "get_or_0 Map.empty k = 0"
  by (simp add: get_or_0_def)

lemma inflight_record_usage [simp]: "inflight (record_usage q k n) k' = inflight q k'"
  by (simp add: record_usage_def inflight_def)

lemma tokens_record_usage [simp]:
  "tokens_used (record_usage q k n) k' = tokens_used q k' + (if k' = k then max 0 n else 0)"
  by (simp add: record_usage_def tokens_used_def)

lemma acquire_Inr:
  "acquire q k c = Inr q' \<longleftrightarrow>
     inflight q k < c \<and> q' = q\<lparr>q_inflight := (q_inflight q)(k \<mapsto> inflight q k + 1)\<rparr>"
  by (auto simp: acquire_def inflight_def Let_def)

lemma acquire_Inl: "acquire q k c = Inl r \<longleftrightarrow> c \<le> inflight q k \<and> r = ''concurrency_cap_exceeded''"
  by (auto simp: acquire_def inflight_def Let_def)

lemma inflight_acquire:
  "acquire q k c = Inr q' \<Longrightarrow> inflight q' k' = inflight q k' + (if k' = k then 1 else 0)"
  by (auto simp: acquire_Inr inflight_def)

lemma tokens_acquire: "acquire q k c = Inr q' \<Longrightarrow> tokens_used q' k' = tokens_used q k'"
  by (auto simp: acquire_Inr tokens_used_def)

lemma inflight_release [simp]:
  "inflight (release q k) k' = (if k' = k then max 0 (inflight q k - 1) else inflight q k')"
  by (simp add: release_def inflight_def Let_def)

lemma tokens_release [simp]: "tokens_used (release q k) k' = tokens_used q k'"
  by (simp add: release_def tokens_used_def Let_def)

lemma check_budget_Inr: "check_budget q k b = Inr () \<longleftrightarrow> tokens_used q k < b"
  by (simp add: check_budget_def)

lemma check_budget_Inl:
  "check_budget q k b = Inl r \<longleftrightarrow> b \<le> tokens_used q k \<and> r = ''token_budget_exceeded''"
  by (auto simp: check_budget_def)

lemma new_quota_counts [simp]: "inflight new_quota k = 0" "tokens_used new_quota k = 0"
  by (simp_all add: new_quota_def inflight_def tokens_used_def)

lemma new_quota_ok [gw_inv]: "quota_ok new_quota"
  by (simp add: quota_ok_def)

lemma acquire_ok [gw_inv]: "quota_ok q \<Longrightarrow> acquire q k c = Inr q' \<Longrightarrow> quota_ok q'"
  by (auto simp: quota_ok_def inflight_acquire tokens_acquire)

lemma release_ok [gw_inv]: "quota_ok q \<Longrightarrow> quota_ok (release q k)"
  by (simp add: quota_ok_def)

lemma record_usage_ok [gw_inv]: "quota_ok q \<Longrightarrow> quota_ok (record_usage q k n)"
  by (simp add: quota_ok_def)

lemma quota_reset_ok [gw_inv]: "quota_ok (quota_reset q)"
  by (simp add: quota_ok_def quota_reset_def inflight_def tokens_used_def)

subsection \<open>The slot ledger\<close>

text \<open>
  What a request handler relies on: taking a slot is refused at the cap and otherwise adds
  one, giving back a held slot takes one away, and neither touches another key. The
  client's facts (a balanced use leaves the ledger as it was, a slot held is a slot
  counted) are proved here once.
\<close>

locale slot_ledger =
  fixes take :: "'q \<Rightarrow> string \<Rightarrow> int \<Rightarrow> 'e + 'q"
    and give :: "'q \<Rightarrow> string \<Rightarrow> 'q"
    and held :: "'q \<Rightarrow> string \<Rightarrow> int"
    and wf :: "'q \<Rightarrow> bool"
  assumes take_held: "wf q \<Longrightarrow> take q k c = Inr q' \<Longrightarrow>
      held q k < c \<and> wf q' \<and> (\<forall>k'. held q' k' = held q k' + (if k' = k then 1 else 0))"
    and take_refused: "wf q \<Longrightarrow> take q k c = Inl e \<Longrightarrow> c \<le> held q k"
    and give_held: "wf q \<Longrightarrow> 0 < held q k \<Longrightarrow>
      wf (give q k) \<and> (\<forall>k'. held (give q k) k' = held q k' - (if k' = k then 1 else 0))"
    and held_nonneg: "wf q \<Longrightarrow> 0 \<le> held q k"
begin

lemma take_bound: "wf q \<Longrightarrow> take q k c = Inr q' \<Longrightarrow> held q' k \<le> c"
  using take_held by fastforce

lemma take_positive: "wf q \<Longrightarrow> take q k c = Inr q' \<Longrightarrow> 0 < held q' k"
  using take_held [of q k c q'] held_nonneg [of q k] by auto

lemma take_give: "wf q \<Longrightarrow> take q k c = Inr q' \<Longrightarrow> held (give q' k) k' = held q k'"
  using take_held [of q k c q'] give_held [of q' k] take_positive [of q k c q'] by simp

lemma take_give_wf: "wf q \<Longrightarrow> take q k c = Inr q' \<Longrightarrow> wf (give q' k)"
  using take_held [of q k c q'] give_held [of q' k] take_positive [of q k c q'] by simp

lemma take_after_give: "wf q \<Longrightarrow> 0 < held q k \<Longrightarrow> held q k \<le> c \<Longrightarrow> \<exists>q'. take (give q k) k c = Inr q'"
proof -
  assume a: "wf q" "0 < held q k" "held q k \<le> c"
  then have g: "wf (give q k)" "held (give q k) k = held q k - 1"
    using give_held [of q k] by auto
  show ?thesis
  proof (cases "take (give q k) k c")
    case (Inl e)
    with take_refused [OF g(1) Inl] g(2) a(3) show ?thesis by simp
  qed auto
qed

end

interpretation ledger: slot_ledger acquire release inflight quota_ok
proof unfold_locales
  show "inflight q k < c \<and> quota_ok q' \<and> (\<forall>k'. inflight q' k' = inflight q k' + (if k' = k then 1 else 0))"
    if "quota_ok q" and "acquire q k c = Inr q'" for q k c q'
    using acquire_ok [OF that] inflight_acquire [OF that(2)] that(2)
    by (simp add: acquire_Inr)
  show "c \<le> inflight q k" if "quota_ok q" and "acquire q k c = Inl e" for q k c e
    using that by (simp add: acquire_Inl)
  show "quota_ok (release q k) \<and> (\<forall>k'. inflight (release q k) k' = inflight q k' - (if k' = k then 1 else 0))"
    if "quota_ok q" and "0 < inflight q k" for q k
    using that release_ok by simp
  show "0 \<le> inflight q k" if "quota_ok q" for q k
    using that by (simp add: quota_ok_def)
qed

subsection \<open>Requests sharing one tracker\<close>

text \<open>
  The gateway handles requests concurrently on one event loop, so what the tracker sees
  is an interleaving of the atomic pieces of many requests. A request of an API key with
  both limits is admitted (budget check, then \<open>acquire\<close>, with no \<open>await\<close> between), runs,
  and finishes (\<open>release\<close>, then \<open>record_usage\<close>, again with no \<open>await\<close> between). \<open>quota_sys\<close>
  pairs the tracker with the live requests, as a list of the keys that hold a slot.
\<close>

record quota_sys =
  qs_quota :: quota_tracker
  qs_live :: "string list"

definition quota_admit :: "quota_tracker \<Rightarrow> string \<Rightarrow> int \<Rightarrow> int \<Rightarrow> quota_exceeded + quota_tracker" where
  "quota_admit q keyid token_budget max_concurrency =
     (case check_budget q keyid token_budget of
        Inl e \<Rightarrow> Inl e
      | Inr _ \<Rightarrow> acquire q keyid max_concurrency)"

definition quota_finish :: "quota_tracker \<Rightarrow> string \<Rightarrow> int \<Rightarrow> quota_tracker" where
  "quota_finish q keyid n = record_usage (release q keyid) keyid n"

inductive quota_step ::
  "(string \<Rightarrow> int) \<Rightarrow> (string \<Rightarrow> int) \<Rightarrow> int \<Rightarrow> quota_sys \<Rightarrow> quota_sys \<Rightarrow> bool"
  for budget :: "string \<Rightarrow> int" and cap :: "string \<Rightarrow> int" and most :: int
where
  admit: "quota_admit (qs_quota s) k (budget k) (cap k) = Inr q' \<Longrightarrow>
    quota_step budget cap most s \<lparr>qs_quota = q', qs_live = k # qs_live s\<rparr>"
| refuse: "quota_admit (qs_quota s) k (budget k) (cap k) = Inl e \<Longrightarrow> quota_step budget cap most s s"
| finish: "k \<in> set (qs_live s) \<Longrightarrow> n \<le> most \<Longrightarrow>
    quota_step budget cap most s
      \<lparr>qs_quota = quota_finish (qs_quota s) k n, qs_live = remove1 k (qs_live s)\<rparr>"

inductive_cases quota_stepE [elim]: "quota_step budget cap most s t"

inductive quota_reachable ::
  "(string \<Rightarrow> int) \<Rightarrow> (string \<Rightarrow> int) \<Rightarrow> int \<Rightarrow> quota_sys \<Rightarrow> bool"
  for budget :: "string \<Rightarrow> int" and cap :: "string \<Rightarrow> int" and most :: int
where
  start: "quota_reachable budget cap most \<lparr>qs_quota = new_quota, qs_live = []\<rparr>"
| step: "quota_reachable budget cap most s \<Longrightarrow> quota_step budget cap most s t \<Longrightarrow>
    quota_reachable budget cap most t"

definition quota_inv :: "(string \<Rightarrow> int) \<Rightarrow> (string \<Rightarrow> int) \<Rightarrow> int \<Rightarrow> quota_sys \<Rightarrow> bool" where
  "quota_inv budget cap most s \<longleftrightarrow>
     quota_ok (qs_quota s) \<and>
     (\<forall>k. inflight (qs_quota s) k = int (count_list (qs_live s) k)) \<and>
     (\<forall>k. inflight (qs_quota s) k \<le> max 0 (cap k)) \<and>
     (\<forall>k. tokens_used (qs_quota s) k + inflight (qs_quota s) k * most
        \<le> max 0 (budget k - 1 + max 0 (cap k) * most))"


lemma quota_admit_Inr:
  "quota_admit q k b c = Inr q' \<longleftrightarrow> tokens_used q k < b \<and> acquire q k c = Inr q'"
  by (auto simp: quota_admit_def check_budget_def)

lemma quota_admit_ok:
  assumes "quota_ok q" and "quota_admit q k b c = Inr q'"
  shows "quota_ok q' \<and> tokens_used q k < b \<and> tokens_used q' k' = tokens_used q k' \<and>
         inflight q k < c \<and> inflight q' k' = inflight q k' + (if k' = k then 1 else 0)"
proof -
  have "tokens_used q k < b" and acq: "acquire q k c = Inr q'"
    using assms(2) by (simp_all add: quota_admit_Inr)
  with ledger.take_held [OF assms(1) acq] tokens_acquire [OF acq] show ?thesis by simp
qed

lemma quota_finish_ok:
  assumes "quota_ok q" and "0 < inflight q k"
  shows "quota_ok (quota_finish q k n) \<and>
         inflight (quota_finish q k n) k' = inflight q k' - (if k' = k then 1 else 0) \<and>
         tokens_used (quota_finish q k n) k' = tokens_used q k' + (if k' = k then max 0 n else 0)"
  using assms ledger.give_held [of q k] by (simp add: quota_finish_def record_usage_ok)

lemma count_list_remove1:
  "k \<in> set xs \<Longrightarrow> int (count_list (remove1 k xs) k') = int (count_list xs k') - (if k' = k then 1 else 0)"
  by (induction xs) auto

lemma count_list_pos: "k \<in> set xs \<Longrightarrow> 0 < count_list xs k"
  by (induction xs) auto

lemma quota_invI:
  assumes "quota_ok (qs_quota s)"
    and "\<And>k. inflight (qs_quota s) k = int (count_list (qs_live s) k)"
    and "\<And>k. inflight (qs_quota s) k \<le> max 0 (cap k)"
    and "\<And>k. tokens_used (qs_quota s) k + inflight (qs_quota s) k * most
        \<le> max 0 (budget k - 1 + max 0 (cap k) * most)"
  shows "quota_inv budget cap most s"
  using assms unfolding quota_inv_def by blast

lemma quota_invD:
  assumes "quota_inv budget cap most s"
  shows "quota_ok (qs_quota s)"
    and "inflight (qs_quota s) k = int (count_list (qs_live s) k)"
    and "inflight (qs_quota s) k \<le> max 0 (cap k)"
    and "tokens_used (qs_quota s) k + inflight (qs_quota s) k * most
        \<le> max 0 (budget k - 1 + max 0 (cap k) * most)"
  using assms unfolding quota_inv_def by blast+

lemma quota_inv_init: "quota_inv budget cap most \<lparr>qs_quota = new_quota, qs_live = []\<rparr>"
  by (rule quota_invI) (simp_all add: new_quota_ok)

lemma quota_inv_admit:
  assumes inv: "quota_inv budget cap most s" and most: "0 \<le> most"
    and adm: "quota_admit (qs_quota s) k (budget k) (cap k) = Inr q'"
  shows "quota_inv budget cap most \<lparr>qs_quota = q', qs_live = k # qs_live s\<rparr>"
proof -
  note a = quota_admit_ok [OF quota_invD(1) [OF inv] adm]
  have cap: "inflight q' k \<le> cap k" using a [of k] by simp
  have nn: "0 \<le> inflight q' j" for j using a [of k] by (simp add: quota_ok_def)
  have "inflight q' k * most \<le> max 0 (cap k) * most"
    using cap nn [of k] most by (intro mult_right_mono) auto
  then have new: "tokens_used q' k + inflight q' k * most \<le> budget k - 1 + max 0 (cap k) * most"
    using a [of k] by simp
  show ?thesis
  proof (rule quota_invI, simp_all only: quota_sys.simps)
    show "quota_ok q'" using a by blast
    show "inflight q' j = int (count_list (k # qs_live s) j)" for j
      using a [of j] quota_invD(2) [OF inv, of j] by simp
    show "inflight q' j \<le> max 0 (cap j)" for j
      using a [of j] quota_invD(3) [OF inv, of j] cap by (cases "j = k") auto
    show "tokens_used q' j + inflight q' j * most \<le> max 0 (budget j - 1 + max 0 (cap j) * most)" for j
      using a [of j] quota_invD(4) [OF inv, of j] new by (cases "j = k") auto
  qed
qed

lemma quota_inv_finish:
  assumes inv: "quota_inv budget cap most s" and most: "0 \<le> most"
    and k: "k \<in> set (qs_live s)" and n: "n \<le> most"
  shows "quota_inv budget cap most
           \<lparr>qs_quota = quota_finish (qs_quota s) k n, qs_live = remove1 k (qs_live s)\<rparr>"
proof -
  have "0 < inflight (qs_quota s) k"
    using quota_invD(2) [OF inv, of k] count_list_pos [OF k] by simp
  note f = quota_finish_ok [OF quota_invD(1) [OF inv] this, of n]
  have n': "max 0 n \<le> most" using n most by simp
  show ?thesis
  proof (rule quota_invI, simp_all only: quota_sys.simps)
    let ?q = "quota_finish (qs_quota s) k n"
    show "quota_ok ?q" using f by blast
    show "inflight ?q j = int (count_list (remove1 k (qs_live s)) j)" for j
      using f [of j] quota_invD(2) [OF inv, of j] count_list_remove1 [OF k, of j] by simp
    show "inflight ?q j \<le> max 0 (cap j)" for j
      using f [of j] quota_invD(3) [OF inv, of j] by (cases "j = k") auto
    have e: "(i - 1) * most = i * most - most" for i by (simp add: algebra_simps)
    show "tokens_used ?q j + inflight ?q j * most \<le> max 0 (budget j - 1 + max 0 (cap j) * most)" for j
      using f [of j] quota_invD(4) [OF inv, of j] n' by (cases "j = k") (auto simp: e)
  qed
qed

lemma quota_inv_step:
  "quota_step budget cap most s t \<Longrightarrow> 0 \<le> most \<Longrightarrow> quota_inv budget cap most s \<Longrightarrow>
   quota_inv budget cap most t"
  by (induction rule: quota_step.induct) (simp_all add: quota_inv_admit quota_inv_finish)

lemma quota_reachable_inv:
  "quota_reachable budget cap most s \<Longrightarrow> 0 \<le> most \<Longrightarrow> quota_inv budget cap most s"
  by (induction rule: quota_reachable.induct) (simp_all add: quota_inv_init quota_inv_step)

text \<open>C9. However requests interleave, the in-flight counter of a key is exactly the number
  of its requests that hold a slot, it never passes the key's concurrency cap, and when no
  request of the key is live the counter is back at 0: no slot leaks and none is handed
  out twice.\<close>

theorem inflight_counts_live_requests:
  assumes "quota_reachable budget cap most s" and "0 \<le> most"
  shows "inflight (qs_quota s) k = int (count_list (qs_live s) k) \<and>
         inflight (qs_quota s) k \<le> max 0 (cap k) \<and>
         (k \<notin> set (qs_live s) \<longrightarrow> inflight (qs_quota s) k = 0)"
  using quota_invD(2,3) [OF quota_reachable_inv [OF assms]] by (auto simp: count_list_0_iff)

lemma quota_reachable_budget:
  assumes "quota_reachable budget cap most s" and "0 \<le> most" and "1 \<le> budget k" and "0 \<le> cap k"
  shows "tokens_used (qs_quota s) k \<le> budget k - 1 + cap k * most"
proof -
  have inv: "quota_inv budget cap most s" using assms(1,2) by (rule quota_reachable_inv)
  have "0 \<le> inflight (qs_quota s) k * most"
    using quota_invD(2) [OF inv, of k] assms(2) by simp
  moreover have "tokens_used (qs_quota s) k + inflight (qs_quota s) k * most
      \<le> max 0 (budget k - 1 + max 0 (cap k) * most)"
    using inv by (rule quota_invD(4))
  moreover have "0 \<le> cap k * most" using assms(2,4) by simp
  ultimately show ?thesis using assms(3,4) by simp
qed

text \<open>C10. The token budget can be overshot only by what was in flight: if no request costs
  more than \<open>most\<close> tokens, the tokens a key has used never exceed its budget minus one plus
  \<open>most\<close> for each concurrent slot of its cap.\<close>

theorem budget_overshoot_bounded:
  assumes "quota_reachable budget cap most s" and "0 \<le> most" and "1 \<le> budget k" and "0 \<le> cap k"
  shows "tokens_used (qs_quota s) k \<le> budget k - 1 + cap k * most"
  using assms by (rule quota_reachable_budget)

lemma tokens_monotone:
  assumes "quota_step budget cap most s t" and "0 \<le> most" and "quota_inv budget cap most s"
  shows "tokens_used (qs_quota s) k \<le> tokens_used (qs_quota t) k"
  using assms(1)
proof cases
  case (admit j q')
  have "quota_ok (qs_quota s)" using assms(3) by (simp add: quota_inv_def)
  from quota_admit_ok [OF this admit(2)] admit(1) show ?thesis by simp
next
  case (finish j n)
  then show ?thesis by (simp add: quota_finish_def)
qed simp

text \<open>A run of two requests of one key with cap 2 and budget 10: both are admitted, both
  finish at 8 tokens, and the budget is overshot to 16.\<close>

definition two_requests :: "quota_sys list" where
  "two_requests =
     (let q0 = new_quota; q1 = q0\<lparr>q_inflight := (q_inflight q0)(''k'' \<mapsto> 1)\<rparr>;
          q2 = q1\<lparr>q_inflight := (q_inflight q1)(''k'' \<mapsto> 2)\<rparr>;
          q3 = quota_finish q2 ''k'' 8; q4 = quota_finish q3 ''k'' 8
      in [\<lparr>qs_quota = q1, qs_live = [''k'']\<rparr>, \<lparr>qs_quota = q2, qs_live = [''k'', ''k'']\<rparr>,
          \<lparr>qs_quota = q3, qs_live = [''k'']\<rparr>, \<lparr>qs_quota = q4, qs_live = []\<rparr>])"

lemma two_requests_reachable:
  "quota_reachable (\<lambda>_. 10) (\<lambda>_. 2) 8 (two_requests ! 1)"
  "quota_reachable (\<lambda>_. 10) (\<lambda>_. 2) 8 (two_requests ! 3)"
proof -
  let ?R = "quota_reachable (\<lambda>_. 10) (\<lambda>_. 2) 8"
  let ?S = "quota_step (\<lambda>_. 10) (\<lambda>_. 2) 8"
  have "?S \<lparr>qs_quota = new_quota, qs_live = []\<rparr> (two_requests ! 0)"
    unfolding two_requests_def Let_def nth_Cons_0
    by (rule quota_step.admit [where k = "''k''", of "\<lparr>qs_quota = new_quota, qs_live = []\<rparr>", simplified])
      (simp add: quota_admit_Inr acquire_Inr)
  with quota_reachable.start have r0: "?R (two_requests ! 0)"
    by (rule quota_reachable.step)
  have "?S (two_requests ! 0) (two_requests ! 1)"
    using quota_step.admit [where k = "''k''" and s = "two_requests ! 0" and cap = "\<lambda>_. 2" and budget = "\<lambda>_. 10" and most = 8
        and q' = "qs_quota (two_requests ! 1)"]
    by (simp add: two_requests_def Let_def quota_admit_Inr acquire_Inr inflight_def tokens_used_def new_quota_def)
  with r0 show r1: "?R (two_requests ! 1)"
    by (rule quota_reachable.step)
  have "?S (two_requests ! 1) (two_requests ! 2)"
    using quota_step.finish [where k = "''k''" and s = "two_requests ! 1" and cap = "\<lambda>_. 2" and budget = "\<lambda>_. 10" and most = 8
        and n = 8]
    by (simp add: two_requests_def Let_def)
  with r1 have r2: "?R (two_requests ! 2)"
    by (rule quota_reachable.step)
  have "?S (two_requests ! 2) (two_requests ! 3)"
    using quota_step.finish [where k = "''k''" and s = "two_requests ! 2" and cap = "\<lambda>_. 2" and budget = "\<lambda>_. 10" and most = 8
        and n = 8]
    by (simp add: two_requests_def Let_def numeral_2_eq_2 numeral_3_eq_3)
  with r2 show "?R (two_requests ! 3)"
    by (rule quota_reachable.step)
qed

theorem inflight_counts_live_requests_witness:
  "inflight (qs_quota (two_requests ! 1)) ''k'' = 2 \<and> inflight (qs_quota (two_requests ! 1)) ''k'' \<le> 2"
  using inflight_counts_live_requests [OF two_requests_reachable(1), of "''k''"]
  by (simp add: two_requests_def Let_def)

theorem budget_overshoot_bounded_witness:
  "tokens_used (qs_quota (two_requests ! 3)) ''k'' = 16 \<and> tokens_used (qs_quota (two_requests ! 3)) ''k'' \<le> 25"
proof -
  have "tokens_used (qs_quota (two_requests ! 3)) ''k'' = 16"
    by (simp add: two_requests_def Let_def quota_finish_def tokens_used_def new_quota_def numeral_3_eq_3
        record_usage_def release_def inflight_def)
  with budget_overshoot_bounded [OF two_requests_reachable(2), of "''k''"] show ?thesis by simp
qed

end
