(* ===== verification/Keys.thy ===== *)
theory Keys
  imports Config
begin

section \<open>API keys (gateway/auth/keys.py)\<close>

text \<open>
  Issuing, storing and verifying API keys. argon2-cffi is a parameter: \<open>hash_fn\<close> is what
  \<open>_hasher.hash\<close> answers, \<open>argon\<close> what \<open>_hasher.verify\<close> does with a hash and a text (match,
  \<open>VerifyMismatchError\<close>, or another exception). \<open>secrets\<close> and the clock are parameters too.
  A record's fields have the types the dataclass declares; a key file with a field of
  another type is outside the model, which says so with the value \<open>Not_modelled\<close> instead of
  guessing where Python would fail. The file is its text; what \<open>save\<close>
  prints is here its JSON value, and in Key_File the text.
\<close>

subsection \<open>Records\<close>

record api_key_record =
  ak_keyid :: string
  ak_hash :: string
  ak_scopes :: "string list"
  ak_expires_at :: "real option"
  ak_revoked :: bool
  ak_label :: string
  ak_token_budget :: "int option"
  ak_max_concurrency :: "int option"

datatype py_failure = Raises py_exn | Not_modelled

definition json_of_real :: "real option \<Rightarrow> json" where
  "json_of_real v = (case v of None \<Rightarrow> JNull | Some x \<Rightarrow> JFloat (Fin x))"

definition json_of_int :: "int option \<Rightarrow> json" where
  "json_of_int v = (case v of None \<Rightarrow> JNull | Some x \<Rightarrow> JInt x)"

definition to_json :: "api_key_record \<Rightarrow> (string \<times> json) list" where
  "to_json r =
     [(''keyid'', JStr (ak_keyid r)),
      (''hash'', JStr (ak_hash r)),
      (''scopes'', JArr (map JStr (ak_scopes r))),
      (''expires_at'', json_of_real (ak_expires_at r)),
      (''revoked'', JBool (ak_revoked r)),
      (''label'', JStr (ak_label r)),
      (''token_budget'', json_of_int (ak_token_budget r)),
      (''max_concurrency'', json_of_int (ak_max_concurrency r))]"

text \<open>The declared type of a field, read off its JSON value.\<close>

fun str_field :: "json \<Rightarrow> py_failure + string" where
  "str_field (JStr s) = Inr s"
| "str_field _ = Inl Not_modelled"

fun strs_field :: "json list \<Rightarrow> py_failure + string list" where
  "strs_field [] = Inr []"
| "strs_field (x # xs) = bindE (str_field x) (\<lambda>s. bindE (strs_field xs) (\<lambda>ss. Inr (s # ss)))"

fun real_field :: "json \<Rightarrow> py_failure + real option" where
  "real_field JNull = Inr None"
| "real_field (JInt i) = Inr (Some (of_int i))"
| "real_field (JFloat (Fin x)) = Inr (Some x)"
| "real_field _ = Inl Not_modelled"

fun int_field :: "json \<Rightarrow> py_failure + int option" where
  "int_field JNull = Inr None"
| "int_field (JInt i) = Inr (Some i)"
| "int_field _ = Inl Not_modelled"

definition get_default :: "(string \<times> json) list \<Rightarrow> string \<Rightarrow> json \<Rightarrow> json" where
  "get_default raw k d = (case dict_get raw k of None \<Rightarrow> d | Some v \<Rightarrow> v)"

definition required :: "(string \<times> json) list \<Rightarrow> string \<Rightarrow> py_failure + json" where
  "required raw k = (case dict_get raw k of None \<Rightarrow> Inl (Raises KeyError) | Some v \<Rightarrow> Inr v)"

definition from_json :: "(string \<times> json) list \<Rightarrow> py_failure + api_key_record" where
  "from_json raw =
     bindE (bindE (required raw ''keyid'') str_field) (\<lambda>keyid.
     bindE (bindE (required raw ''hash'') str_field) (\<lambda>h.
     bindE (let v = get_default raw ''scopes'' JNull in
            if \<not> json_truth v then Inr [] else (case v of JArr xs \<Rightarrow> strs_field xs | _ \<Rightarrow> Inl Not_modelled)) (\<lambda>scopes.
     bindE (real_field (get_default raw ''expires_at'' JNull)) (\<lambda>expires_at.
     let revoked = json_truth (get_default raw ''revoked'' (JBool False)) in
     bindE (str_field (get_default raw ''label'' (JStr []))) (\<lambda>label.
     bindE (int_field (get_default raw ''token_budget'' JNull)) (\<lambda>token_budget.
     bindE (int_field (get_default raw ''max_concurrency'' JNull)) (\<lambda>max_concurrency.
       Inr \<lparr>ak_keyid = keyid, ak_hash = h, ak_scopes = scopes, ak_expires_at = expires_at,
            ak_revoked = revoked, ak_label = label, ak_token_budget = token_budget,
            ak_max_concurrency = max_concurrency\<rparr>)))))))"

subsection \<open>The shape of a key\<close>

datatype auth_error = AuthError

definition KEY_PREFIXES :: "string list" where
  "KEY_PREFIXES = [''bkn_live_'', ''bkn_test_'']"

fun split_key_from :: "string list \<Rightarrow> string \<Rightarrow> auth_error + string \<times> string" where
  "split_key_from [] presented = Inl AuthError"
| "split_key_from (pre # rest) presented =
     (if startswith presented pre then
        (let (keyid, sep, secret) = py_partition CHR ''_'' (drop (length pre) presented) in
         if sep = [] \<or> keyid = [] \<or> secret = [] then Inl AuthError else Inr (keyid, secret))
      else split_key_from rest presented)"

definition split_key :: "string \<Rightarrow> auth_error + string \<times> string" where
  "split_key presented = split_key_from KEY_PREFIXES presented"

text \<open>\<open>keyid\<close> and \<open>secret\<close> are what \<open>secrets.token_hex(6)\<close> and \<open>secrets.token_urlsafe(32)\<close>
  answer, \<open>now\<close> what \<open>time.time()\<close> does.\<close>

definition mint_key ::
  "settings \<Rightarrow> (string \<Rightarrow> string) \<Rightarrow> string \<Rightarrow> string \<Rightarrow> real \<Rightarrow> bool \<Rightarrow> string list option \<Rightarrow>
   real option \<Rightarrow> string \<Rightarrow> int option \<Rightarrow> int option \<Rightarrow> string \<times> api_key_record" where
  "mint_key cfg hash_fn keyid secret now live scopes ttl_sec label token_budget max_concurrency =
     (let pre = (if live then ''bkn_live_'' else ''bkn_test_'');
          plaintext = pre @ keyid @ ''_'' @ secret
      in (plaintext,
          \<lparr>ak_keyid = keyid, ak_hash = hash_fn (secret @ API_KEY_PEPPER cfg),
           ak_scopes = (case scopes of Some (s # ss) \<Rightarrow> s # ss | _ \<Rightarrow> [''chat'']),
           ak_expires_at = (case ttl_sec of Some t \<Rightarrow> if t \<noteq> 0 then Some (now + t) else None | None \<Rightarrow> None),
           ak_revoked = False, ak_label = label, ak_token_budget = token_budget,
           ak_max_concurrency = max_concurrency\<rparr>))"

subsection \<open>The store\<close>

type_synonym key_store = "(string \<times> api_key_record) list"

definition load_entry :: "json \<Rightarrow> py_failure + string \<times> api_key_record" where
  "load_entry v =
     (case v of
        JObj raw \<Rightarrow> bindE (from_json raw) (\<lambda>r. Inr (ak_keyid r, r))
      | _ \<Rightarrow> Inl (Raises TypeError))"

fun load_entries :: "key_store \<Rightarrow> json list \<Rightarrow> py_failure + key_store" where
  "load_entries store [] = Inr store"
| "load_entries store (v # vs) =
     bindE (load_entry v) (\<lambda>(k, r). load_entries (dict_set k r store) vs)"

definition load_keys :: "json \<Rightarrow> py_failure + key_store" where
  "load_keys raw =
     (case raw of
        JObj o' \<Rightarrow>
          (case get_default o' ''keys'' (JArr []) of
             JArr vs \<Rightarrow> load_entries [] vs
           | JNull \<Rightarrow> Inl (Raises TypeError)
           | JBool b \<Rightarrow> Inl (Raises TypeError)
           | JInt i \<Rightarrow> Inl (Raises TypeError)
           | JFloat f \<Rightarrow> Inl (Raises TypeError)
           | JStr s \<Rightarrow> if s = [] then Inr [] else Inl (Raises TypeError)
           | JObj ks \<Rightarrow> if ks = [] then Inr [] else Inl (Raises TypeError))
      | _ \<Rightarrow> Inl (Raises AttributeError))"

text \<open>\<open>reload\<close>: \<open>file\<close> is the text of the key file, if it exists.\<close>

definition reload :: "string option \<Rightarrow> py_failure + key_store" where
  "reload file =
     (case file of
        None \<Rightarrow> Inr []
      | Some text \<Rightarrow>
          (case json_loads (if text = [] then ''{}'' else text) of
             None \<Rightarrow> Inl (Raises ValueError)
           | Some raw \<Rightarrow> load_keys raw))"

definition save_payload :: "key_store \<Rightarrow> json" where
  "save_payload store = JObj [(''keys'', JArr (map (\<lambda>(k, r). JObj (to_json r)) store))]"

definition add_key :: "api_key_record \<Rightarrow> key_store \<Rightarrow> key_store" where
  "add_key r store = dict_set (ak_keyid r) r store"

definition revoke :: "string \<Rightarrow> key_store \<Rightarrow> bool \<times> key_store" where
  "revoke keyid store =
     (case dict_get store keyid of
        None \<Rightarrow> (False, store)
      | Some r \<Rightarrow> (True, dict_set keyid (r\<lparr>ak_revoked := True\<rparr>) store))"

subsection \<open>Verification\<close>

datatype argon_result = Match | Mismatch | Hasher_raised

datatype verify_error = Rejected auth_error | Hasher_error

text \<open>\<open>DUMMY_HASH\<close> stands for the hash computed at import. The result carries every call of
  the hasher, a hash and a text, in order: what an observer can time.\<close>

definition dummy_verify ::
  "string \<Rightarrow> (string \<Rightarrow> string \<Rightarrow> argon_result) \<Rightarrow> (string \<times> string) list \<times> (verify_error + unit)" where
  "dummy_verify DUMMY_HASH argon =
     ([(DUMMY_HASH, ''not-the-value'')],
      case argon DUMMY_HASH ''not-the-value'' of
        Hasher_raised \<Rightarrow> Inl Hasher_error
      | _ \<Rightarrow> Inr ())"

definition verify ::
  "settings \<Rightarrow> string \<Rightarrow> (string \<Rightarrow> string \<Rightarrow> argon_result) \<Rightarrow> real \<Rightarrow> key_store \<Rightarrow> string \<Rightarrow>
   (string \<times> string) list \<times> (verify_error + api_key_record)" where
  "verify cfg DUMMY_HASH argon now store presented =
     (case split_key presented of
        Inl e \<Rightarrow> ([], Inl (Rejected e))
      | Inr (keyid, secret) \<Rightarrow>
          (case dict_get store keyid of
             None \<Rightarrow>
               (let (calls, r) = dummy_verify DUMMY_HASH argon
                in (calls, bindE r (\<lambda>_. Inl (Rejected AuthError))))
           | Some rec \<Rightarrow>
               if ak_revoked rec then ([], Inl (Rejected AuthError))
               else if (case ak_expires_at rec of None \<Rightarrow> False | Some t \<Rightarrow> now > t)
               then ([], Inl (Rejected AuthError))
               else
                 (let text = secret @ API_KEY_PEPPER cfg
                  in ([(ak_hash rec, text)],
                      case argon (ak_hash rec) text of
                        Match \<Rightarrow> Inr rec
                      | Mismatch \<Rightarrow> Inl (Rejected AuthError)
                      | Hasher_raised \<Rightarrow> Inl Hasher_error))))"

subsection \<open>Issuing and splitting\<close>

lemma split_key_live: "split_key (''bkn_live_'' @ t) =
    (let (keyid, sep, secret) = py_partition CHR ''_'' t in
     if sep = [] \<or> keyid = [] \<or> secret = [] then Inl AuthError else Inr (keyid, secret))"
  by (simp add: split_key_def KEY_PREFIXES_def startswith_def)

lemma split_key_test: "split_key (''bkn_test_'' @ t) =
    (let (keyid, sep, secret) = py_partition CHR ''_'' t in
     if sep = [] \<or> keyid = [] \<or> secret = [] then Inl AuthError else Inr (keyid, secret))"
  by (simp add: split_key_def KEY_PREFIXES_def startswith_def)

text \<open>A minted key splits back into exactly the key id and the secret it was made of, live or
  test, even when the secret itself holds underscores (as url-safe tokens may), as long as
  the key id holds none; and only a text with one of the two prefixes splits at all.\<close>

theorem split_minted_key:
  assumes "keyid \<noteq> []" and "CHR ''_'' \<notin> set keyid" and "secret \<noteq> []"
  shows "split_key (fst (mint_key cfg hash_fn keyid secret now live scopes ttl label budget cap)) = Inr (keyid, secret) \<and>
         (\<forall>s x. split_key s = Inr x \<longrightarrow> startswith s ''bkn_live_'' \<or> startswith s ''bkn_test_'')"
proof
  have "py_partition CHR ''_'' (keyid @ CHR ''_'' # secret) = (keyid, ''_'', secret)"
    using assms(2) by (rule py_partition_found)
  then show "split_key (fst (mint_key cfg hash_fn keyid secret now live scopes ttl label budget cap)) = Inr (keyid, secret)"
    using assms(1,3) split_key_live [of "keyid @ CHR ''_'' # secret"] split_key_test [of "keyid @ CHR ''_'' # secret"]
    by (cases live) (simp_all add: mint_key_def Let_def)
  show "\<forall>s x. split_key s = Inr x \<longrightarrow> startswith s ''bkn_live_'' \<or> startswith s ''bkn_test_''"
    by (simp add: split_key_def KEY_PREFIXES_def)
qed

theorem split_minted_key_witness:
  "split_key ''bkn_live_a1_se_cret'' = Inr (''a1'', ''se_cret'')"
  using split_minted_key [of "''a1''" "''se_cret''" default_settings "\<lambda>x. x" 0 True None None "[]" None None]
  by (simp add: mint_key_def)

subsection \<open>The key file\<close>

lemma strs_field_JStr: "strs_field (map JStr ss) = Inr ss"
  by (induction ss) simp_all

lemma from_json_to_json: "from_json (to_json r) = Inr r"
  by (cases r)
    (auto simp: from_json_def to_json_def required_def get_default_def json_of_real_def json_of_int_def
      strs_field_JStr Let_def split: option.split)

lemma load_entries_saved:
  "(\<And>k r. (k, r) \<in> set store \<Longrightarrow> k = ak_keyid r) \<Longrightarrow> distinct (map fst (acc @ store)) \<Longrightarrow>
   load_entries acc (map (\<lambda>(k, r). JObj (to_json r)) store) = Inr (acc @ store)"
proof (induction store arbitrary: acc)
  case (Cons kr store)
  obtain k r where kr: "kr = (k, r)" by (cases kr)
  have k: "k = ak_keyid r" using Cons.prems(1) kr by simp
  have "k \<notin> fst ` set acc" using Cons.prems(2) kr by auto
  then have "dict_set k r acc = acc @ [(k, r)]" by (induction acc) auto
  moreover have "load_entries (acc @ [(k, r)]) (map (\<lambda>(k, r). JObj (to_json r)) store) = Inr ((acc @ [(k, r)]) @ store)"
  proof (rule Cons.IH)
    show "k' = ak_keyid r'" if "(k', r') \<in> set store" for k' r'
      using that by (simp add: Cons.prems(1))
    show "distinct (map fst ((acc @ [(k, r)]) @ store))" using Cons.prems(2) kr by simp
  qed
  ultimately show ?case by (simp add: kr load_entry_def from_json_to_json k [symmetric])
qed simp

definition store_ok :: "key_store \<Rightarrow> bool" where
  "store_ok store \<longleftrightarrow> distinct (map fst store) \<and> (\<forall>(k, r) \<in> set store. k = ak_keyid r)"

lemma dict_set_distinct: "distinct (map fst d) \<Longrightarrow> distinct (map fst (dict_set k v d))"
  by (induction d) auto

lemma add_key_ok: "store_ok store \<Longrightarrow> store_ok (add_key r store)"
  by (auto simp: store_ok_def add_key_def dict_set_distinct dest!: dict_set_vals)

lemma revoke_ok: "store_ok store \<Longrightarrow> store_ok (snd (revoke k store))"
  by (auto simp: store_ok_def revoke_def dict_set_distinct dest!: dict_set_vals dest: map_of_SomeD split: option.split)

datatype store_op = Add api_key_record | Revoke string

definition store_do :: "key_store \<Rightarrow> store_op \<Rightarrow> key_store" where
  "store_do store x = (case x of Add r \<Rightarrow> add_key r store | Revoke k \<Rightarrow> snd (revoke k store))"

interpretation store: invariant_machine store_do store_ok
  by unfold_locales (auto simp: store_do_def add_key_ok revoke_ok split: store_op.split)

lemma save_load: "load_keys (save_payload (foldl store_do [] ops)) = Inr (foldl store_do [] ops)"
proof -
  define st where "st = foldl store_do [] ops"
  have "store_ok st" unfolding st_def by (rule store.run_inv) (simp add: store_ok_def)
  then have "\<And>k r. (k, r) \<in> set st \<Longrightarrow> k = ak_keyid r" and "distinct (map fst ([] @ st))"
    by (auto simp: store_ok_def)
  then have "load_entries [] (map (\<lambda>(k, r). JObj (to_json r)) st) = Inr ([] @ st)"
    by (rule load_entries_saved)
  then show ?thesis
    unfolding st_def [symmetric] by (simp add: load_keys_def save_payload_def get_default_def)
qed

subsection \<open>What verification promises\<close>

definition expired :: "real \<Rightarrow> api_key_record \<Rightarrow> bool" where
  "expired now r = (case ak_expires_at r of None \<Rightarrow> False | Some t \<Rightarrow> now > t)"

lemma verify_known:
  assumes "split_key s = Inr (k, secret)" and "dict_get store k = Some r"
  shows "verify cfg dh argon now store s =
     (if ak_revoked r \<or> expired now r then ([], Inl (Rejected AuthError))
      else ([(ak_hash r, secret @ API_KEY_PEPPER cfg)],
            case argon (ak_hash r) (secret @ API_KEY_PEPPER cfg) of
              Match \<Rightarrow> Inr r | Mismatch \<Rightarrow> Inl (Rejected AuthError) | Hasher_raised \<Rightarrow> Inl Hasher_error))"
  using assms by (simp add: verify_def expired_def Let_def)

lemma verify_unknown:
  assumes "split_key s = Inr (k, secret)" and "dict_get store k = None"
  shows "verify cfg dh argon now store s =
     ([(dh, ''not-the-value'')],
      if argon dh ''not-the-value'' = Hasher_raised then Inl Hasher_error else Inl (Rejected AuthError))"
  using assms by (simp add: verify_def dummy_verify_def split: argon_result.split)

lemma verify_iff_genuine:
  "snd (verify cfg dh argon now store s) = Inr r \<longleftrightarrow>
   (\<exists>k secret. split_key s = Inr (k, secret) \<and> dict_get store k = Some r \<and> \<not> ak_revoked r \<and>
      \<not> expired now r \<and> argon (ak_hash r) (secret @ API_KEY_PEPPER cfg) = Match)"
proof (cases "split_key s")
  case (Inl e)
  then show ?thesis by (simp add: verify_def)
next
  case (Inr ks)
  obtain k secret where ks: "split_key s = Inr (k, secret)" using Inr by (cases ks) auto
  show ?thesis
  proof (cases "dict_get store k")
    case None
    then show ?thesis using ks by (simp add: verify_unknown [OF ks None])
  next
    case (Some r')
    then show ?thesis using ks by (auto simp: verify_known [OF ks Some] split: argon_result.splits)
  qed
qed

lemma verify_accepted:
  "snd (verify cfg dh argon now store s) = Inr r \<Longrightarrow>
   \<exists>k secret. split_key s = Inr (k, secret) \<and> dict_get store k = Some r \<and> \<not> ak_revoked r \<and>
      \<not> expired now r \<and> argon (ak_hash r) (secret @ API_KEY_PEPPER cfg) = Match"
  by (simp add: verify_iff_genuine)

text \<open>Verification accepts exactly the genuine credentials: a presented text yields a record
  if and only if it splits into the id of that stored record and a secret whose peppered text
  the record's own hash matches, and the record is neither revoked nor expired.\<close>

theorem verify_accepts_exactly_genuine:
  "snd (verify cfg dh argon now store s) = Inr r \<longleftrightarrow>
   (\<exists>k secret. split_key s = Inr (k, secret) \<and> dict_get store k = Some r \<and> \<not> ak_revoked r \<and>
      \<not> expired now r \<and> argon (ak_hash r) (secret @ API_KEY_PEPPER cfg) = Match)"
  by (rule verify_iff_genuine)

text \<open>The life of a key: once added, the plaintext \<open>mint_key\<close> handed out verifies (given
  that argon2 matches a text against its own hash) until the key expires, and from the moment
  it is revoked it never verifies again, however the store changes afterwards, short of
  adding a record under the same id.\<close>

theorem minted_key_life:
  assumes "keyid \<noteq> []" and "CHR ''_'' \<notin> set keyid" and "secret \<noteq> []"
    and "mint_key cfg hash_fn keyid secret t0 live scopes ttl label budget cap = (plaintext, r)"
    and "\<And>text. argon (hash_fn text) text = Match"
    and "\<And>r'. Add r' \<in> set ops \<Longrightarrow> ak_keyid r' \<noteq> keyid"
  shows "(\<not> expired now r \<longrightarrow> snd (verify cfg dh argon now (add_key r store) plaintext) = Inr r) \<and>
     \<not> (\<exists>x. snd (verify cfg dh argon now
              (foldl store_do (snd (revoke keyid (add_key r store))) ops) plaintext) = Inr x)"
proof -
  have key: "split_key plaintext = Inr (keyid, secret)"
    using split_key_live [of "keyid @ CHR ''_'' # secret"] split_key_test [of "keyid @ CHR ''_'' # secret"]
      py_partition_found [OF assms(2), of secret] assms(1,3,4)
    by (auto simp: mint_key_def Let_def split: if_splits)
  have r: "ak_keyid r = keyid" "\<not> ak_revoked r" "ak_hash r = hash_fn (secret @ API_KEY_PEPPER cfg)"
    using assms(4) by (auto simp: mint_key_def Let_def)
  have added: "dict_get (add_key r store) keyid = Some r" by (simp add: add_key_def r)
  have gone: "\<exists>r'. dict_get (foldl store_do st ops) keyid = Some r' \<and> ak_revoked r'"
    if "\<exists>r'. dict_get st keyid = Some r' \<and> ak_revoked r'" for st
    using that assms(6)
  proof (induction ops arbitrary: st)
    case (Cons x ops)
    have "\<exists>r'. dict_get (store_do st x) keyid = Some r' \<and> ak_revoked r'"
      using Cons.prems by (cases x) (auto simp: store_do_def add_key_def revoke_def split: option.split)
    then show ?case using Cons.IH [of "store_do st x"] Cons.prems(2) by simp
  qed simp
  have "\<exists>r'. dict_get (snd (revoke keyid (add_key r store))) keyid = Some r' \<and> ak_revoked r'"
    using added by (simp add: revoke_def)
  then obtain r' where r': "dict_get (foldl store_do (snd (revoke keyid (add_key r store))) ops) keyid = Some r'"
    "ak_revoked r'" using gone by blast
  show ?thesis
    using r assms(5) by (simp add: verify_known [OF key added] verify_known [OF key r'(1)] r'(2))
qed

definition toy_argon :: "string \<Rightarrow> string \<Rightarrow> argon_result" where
  "toy_argon h text = (if h = rev text then Match else Mismatch)"

theorem minted_key_life_witness:
  "let (plaintext, r) = mint_key default_settings rev ''a1'' ''s'' 0 True None None [] None None
   in snd (verify default_settings [] toy_argon 5 (add_key r []) plaintext) = Inr r \<and>
      \<not> (\<exists>x. snd (verify default_settings [] toy_argon 5 (snd (revoke ''a1'' (add_key r []))) plaintext) = Inr x)"
proof -
  obtain plaintext r where m: "mint_key default_settings rev ''a1'' ''s'' 0 True None None [] None None = (plaintext, r)"
    by fastforce
  then have "\<not> expired 5 r" by (auto simp: mint_key_def expired_def Let_def)
  with minted_key_life [OF _ _ _ m, of toy_argon "[]" 5 "[]" "[]"] m show ?thesis
    by (simp add: toy_argon_def)
qed

text \<open>How many times the hasher runs tells an observer something after all: an unknown key id
  costs one hash, as a wrong secret does, but a revoked or an expired key is rejected with
  none, so a rejection that comes back without a hash reveals a known id.\<close>

theorem rejection_hash_count:
  assumes "split_key s = Inr (k, secret)"
  shows "length (fst (verify cfg dh argon now store s)) =
     (case dict_get store k of
        None \<Rightarrow> 1
      | Some r \<Rightarrow> if ak_revoked r \<or> expired now r then 0 else 1)"
proof (cases "dict_get store k")
  case None
  then show ?thesis by (simp add: verify_unknown [OF assms None])
next
  case (Some r)
  then show ?thesis by (simp add: verify_known [OF assms Some])
qed

theorem rejection_hash_count_witness:
  "let r = snd (mint_key default_settings rev ''a1'' ''s'' 0 True None (Some 1) [] None None)
   in length (fst (verify default_settings [] toy_argon 5 [(''a1'', r)] ''bkn_live_a1_x'')) = 0 \<and>
      length (fst (verify default_settings [] toy_argon 5 [(''a1'', r)] ''bkn_live_a2_x'')) = 1"
proof -
  have s: "split_key ''bkn_live_a1_x'' = Inr (''a1'', ''x'')" "split_key ''bkn_live_a2_x'' = Inr (''a2'', ''x'')"
    by (simp_all add: split_key_def KEY_PREFIXES_def startswith_def py_partition_def)
  show ?thesis
    by (simp add: rejection_hash_count [OF s(1)] rejection_hash_count [OF s(2)] mint_key_def expired_def Let_def)
qed

end
