(* ===== verification/Auth.thy ===== *)
theory Auth
  imports Keys
begin

section \<open>Authentication (gateway/auth/jwt.py, gateway/auth/__init__.py)\<close>

text \<open>
  The JWT verifier and the dependency every protected route runs. PyJWT is the parameter
  \<open>decode\<close>, which answers for a call with all its arguments the claims, a \<open>PyJWTError\<close>, or
  another exception. The bounded thread the key verification runs in is not modelled (only
  what it returns), nor is the argon2 limiter. \<open>fr\<close> prints a float, for \<open>str\<close>.
\<close>

subsection \<open>The JWT verifier\<close>

definition ALLOWED_ALGORITHMS :: "string list" where
  "ALLOWED_ALGORITHMS = [''RS256'', ''RS384'', ''RS512'', ''ES256'', ''ES384'', ''ES512'']"

record jwt_verifier =
  jv_public_key :: string
  jv_algorithm :: string

definition new_jwt_verifier :: "settings \<Rightarrow> string option \<Rightarrow> string option \<Rightarrow> py_exn + jwt_verifier" where
  "new_jwt_verifier cfg public_key algorithm =
     (let pk = (case public_key of None \<Rightarrow> JWT_PUBLIC_KEY cfg | Some k \<Rightarrow> k);
          alg = (case algorithm of Some (c # cs) \<Rightarrow> c # cs | _ \<Rightarrow> JWT_ALGORITHM cfg)
      in if alg \<notin> set ALLOWED_ALGORITHMS then Inl ValueError
         else Inr \<lparr>jv_public_key = pk, jv_algorithm = alg\<rparr>)"

definition jwt_enabled :: "jwt_verifier \<Rightarrow> bool" where
  "jwt_enabled v \<longleftrightarrow> jv_public_key v \<noteq> []"

type_synonym claims = "(string \<times> json) list"

record jwt_call =
  jc_token :: string
  jc_key :: string
  jc_algorithms :: "string list"
  jc_issuer :: string
  jc_audience :: string
  jc_leeway :: int
  jc_require :: "string list"
  jc_verify_exp :: bool
  jc_verify_aud :: bool
  jc_verify_iss :: bool

datatype decode_result = Claims claims | PyJWTError | Decode_raised py_exn

datatype jwt_error = Jwt_rejected auth_error | Jwt_raised py_exn

definition jwt_call_of :: "settings \<Rightarrow> jwt_verifier \<Rightarrow> string \<Rightarrow> jwt_call" where
  "jwt_call_of cfg v token =
     \<lparr>jc_token = token, jc_key = jv_public_key v, jc_algorithms = [jv_algorithm v],
      jc_issuer = JWT_ISSUER cfg, jc_audience = JWT_AUDIENCE cfg, jc_leeway = JWT_LEEWAY_SEC cfg,
      jc_require = [''exp'', ''iat'', ''sub'', ''iss'', ''aud''],
      jc_verify_exp = True, jc_verify_aud = True, jc_verify_iss = True\<rparr>"

definition jwt_verify :: "settings \<Rightarrow> (jwt_call \<Rightarrow> decode_result) \<Rightarrow> jwt_verifier \<Rightarrow> string \<Rightarrow> jwt_error + claims" where
  "jwt_verify cfg decode v token =
     (if \<not> jwt_enabled v then Inl (Jwt_rejected AuthError)
      else
        (case decode (jwt_call_of cfg v token) of
           Claims c \<Rightarrow> Inr c
         | PyJWTError \<Rightarrow> Inl (Jwt_rejected AuthError)
         | Decode_raised e \<Rightarrow> Inl (Jwt_raised e)))"

text \<open>\<open>a or b\<close> of two values, \<open>dict.get\<close> answering \<open>None\<close> for a missing key.\<close>

definition py_or :: "json \<Rightarrow> json \<Rightarrow> json" where
  "py_or a b = (if json_truth a then a else b)"

definition scopes_of :: "claims \<Rightarrow> py_exn + json list" where
  "scopes_of c =
     (let raw = py_or (py_or (get_default c ''scope'' JNull) (get_default c ''scopes'' JNull)) (JArr []) in
      case raw of
        JStr s \<Rightarrow> Inr (map JStr [w \<leftarrow> py_split s. w \<noteq> []])
      | JArr xs \<Rightarrow> Inr xs
      | JObj ks \<Rightarrow> Inr (map (\<lambda>(k, v). JStr k) ks)
      | _ \<Rightarrow> Inl TypeError)"

subsection \<open>Principals\<close>

record principal =
  pr_subject :: string
  pr_scopes :: "json list"
  pr_method :: string
  pr_keyid :: "string option"
  pr_token_budget :: "int option"
  pr_max_concurrency :: "int option"

definition has_scope :: "principal \<Rightarrow> string \<Rightarrow> bool" where
  "has_scope p scope \<longleftrightarrow> JStr scope \<in> set (pr_scopes p) \<or> JStr ''*'' \<in> set (pr_scopes p)"

text \<open>How authentication fails: the one 401 of \<open>_unauthorized\<close>, or an exception nothing
  catches, which the framework turns into a 500.\<close>

datatype auth_failure = Unauthorized | Crashed

definition key_principal :: "api_key_record \<Rightarrow> principal" where
  "key_principal r =
     \<lparr>pr_subject = ''key:'' @ ak_keyid r, pr_scopes = map JStr (ak_scopes r), pr_method = ''apikey'',
      pr_keyid = Some (ak_keyid r), pr_token_budget = ak_token_budget r,
      pr_max_concurrency = ak_max_concurrency r\<rparr>"

definition jwt_principal :: "(real \<Rightarrow> string) \<Rightarrow> claims \<Rightarrow> py_exn + principal" where
  "jwt_principal fr c =
     bindE (scopes_of c) (\<lambda>scopes.
       Inr \<lparr>pr_subject = py_str fr (get_default c ''sub'' JNull), pr_scopes = scopes, pr_method = ''jwt'',
            pr_keyid = None, pr_token_budget = None, pr_max_concurrency = None\<rparr>)"

definition credential_of :: "string option \<Rightarrow> string option" where
  "credential_of authorization =
     (case authorization of
        None \<Rightarrow> None
      | Some a \<Rightarrow>
          if a = [] \<or> \<not> startswith (py_lower a) ''bearer '' then None
          else (let credential = py_strip (drop (length ''bearer '') a)
                in if credential = [] then None else Some credential))"

definition is_jwt_shape :: "string \<Rightarrow> bool" where
  "is_jwt_shape s \<longleftrightarrow> count_list s CHR ''.'' = 2 \<and> \<not> startswith s ''bkn_''"

text \<open>\<open>require_principal\<close> over its two verifiers. The first component is what \<open>_mark\<close> wrote
  into the request's state, if it ran.\<close>

definition authenticate ::
  "(real \<Rightarrow> string) \<Rightarrow> (string \<Rightarrow> jwt_error + claims) \<Rightarrow> (string \<Rightarrow> verify_error + api_key_record) \<Rightarrow>
   string option \<Rightarrow> string option \<times> (auth_failure + principal)" where
  "authenticate fr verify_jwt verify_key authorization =
     (case credential_of authorization of
        None \<Rightarrow> (None, Inl Unauthorized)
      | Some credential \<Rightarrow>
          if is_jwt_shape credential then
            (case verify_jwt credential of
               Inl (Jwt_rejected e) \<Rightarrow> (None, Inl Unauthorized)
             | Inl (Jwt_raised e) \<Rightarrow> (None, Inl Crashed)
             | Inr c \<Rightarrow>
                 (Some ''jwt'', case jwt_principal fr c of Inl e \<Rightarrow> Inl Crashed | Inr p \<Rightarrow> Inr p))
          else
            (case verify_key credential of
               Inl (Rejected e) \<Rightarrow> (None, Inl Unauthorized)
             | Inl Hasher_error \<Rightarrow> (None, Inl Crashed)
             | Inr r \<Rightarrow> (Some ''apikey'', Inr (key_principal r))))"

definition require_principal ::
  "settings \<Rightarrow> (real \<Rightarrow> string) \<Rightarrow> (jwt_call \<Rightarrow> decode_result) \<Rightarrow> string \<Rightarrow> (string \<Rightarrow> string \<Rightarrow> argon_result) \<Rightarrow>
   real \<Rightarrow> key_store \<Rightarrow> jwt_verifier \<Rightarrow> string option \<Rightarrow> string option \<times> (auth_failure + principal)" where
  "require_principal cfg fr decode DUMMY_HASH argon now store v authorization =
     authenticate fr (jwt_verify cfg decode v) (\<lambda>s. snd (verify cfg DUMMY_HASH argon now store s)) authorization"

subsection \<open>The process-wide singletons\<close>

record auth_state =
  as_key_store :: "key_store option"
  as_jwt_verifier :: "jwt_verifier option"
  as_verify_limit :: "int option"

definition get_key_store :: "string option \<Rightarrow> auth_state \<Rightarrow> (py_failure + key_store) \<times> auth_state" where
  "get_key_store file st =
     (case as_key_store st of
        Some s \<Rightarrow> (Inr s, st)
      | None \<Rightarrow>
          (case reload file of
             Inl e \<Rightarrow> (Inl e, st)
           | Inr s \<Rightarrow> (Inr s, st\<lparr>as_key_store := Some s\<rparr>)))"

definition get_jwt_verifier :: "settings \<Rightarrow> auth_state \<Rightarrow> (py_exn + jwt_verifier) \<times> auth_state" where
  "get_jwt_verifier cfg st =
     (case as_jwt_verifier st of
        Some v \<Rightarrow> (Inr v, st)
      | None \<Rightarrow>
          (case new_jwt_verifier cfg None None of
             Inl e \<Rightarrow> (Inl e, st)
           | Inr v \<Rightarrow> (Inr v, st\<lparr>as_jwt_verifier := Some v\<rparr>)))"

text \<open>The bound on concurrent hashes, built on first use; what the limiter does with it is anyio's.\<close>

definition argon2_limiter :: "settings \<Rightarrow> auth_state \<Rightarrow> int \<times> auth_state" where
  "argon2_limiter cfg st =
     (case as_verify_limit st of
        Some n \<Rightarrow> (n, st)
      | None \<Rightarrow> (AUTH_VERIFY_CONCURRENCY cfg, st\<lparr>as_verify_limit := Some (AUTH_VERIFY_CONCURRENCY cfg)\<rparr>))"

definition reset_auth_singletons :: "auth_state \<Rightarrow> auth_state" where
  "reset_auth_singletons st = st\<lparr>as_key_store := None, as_jwt_verifier := None, as_verify_limit := None\<rparr>"

subsection \<open>Credentials and their verifiers\<close>

text \<open>What a route needs of a verifier: what it accepts is genuine. Over two of them, one per
  kind of credential, the dispatch of \<open>authenticate\<close> is sound.\<close>

locale credential_check =
  fixes check :: "string \<Rightarrow> 'e + 'c"
    and genuine :: "string \<Rightarrow> 'c \<Rightarrow> bool"
  assumes sound: "check s = Inr c \<Longrightarrow> genuine s c"
begin

lemma never_forged: "\<not> (\<exists>c. genuine s c) \<Longrightarrow> \<exists>e. check s = Inl e"
  by (cases "check s") (auto dest: sound)

end

locale bearer_auth =
  jwts: credential_check verify_jwt genuine_jwt + keys: credential_check verify_key genuine_key
  for verify_jwt :: "string \<Rightarrow> jwt_error + claims"
    and genuine_jwt :: "string \<Rightarrow> claims \<Rightarrow> bool"
    and verify_key :: "string \<Rightarrow> verify_error + api_key_record"
    and genuine_key :: "string \<Rightarrow> api_key_record \<Rightarrow> bool"
begin

lemma authenticate_sound:
  assumes "authenticate fr verify_jwt verify_key authorization = (mark, Inr p)"
  shows "\<exists>s. credential_of authorization = Some s \<and> mark = Some (pr_method p) \<and>
     (if is_jwt_shape s
      then \<exists>c. genuine_jwt s c \<and> jwt_principal fr c = Inr p
      else \<exists>r. genuine_key s r \<and> p = key_principal r)"
proof -
  obtain s where s: "credential_of authorization = Some s"
    using assms by (cases "credential_of authorization") (simp_all add: authenticate_def)
  show ?thesis
  proof (cases "is_jwt_shape s")
    case True
    with assms s obtain c where c: "verify_jwt s = Inr c" "jwt_principal fr c = Inr p" "mark = Some ''jwt''"
      by (auto simp: authenticate_def split: sum.splits jwt_error.splits)
    then have "pr_method p = ''jwt''" by (auto simp: jwt_principal_def bindE_Inr)
    with c True s jwts.sound [OF c(1)] show ?thesis by auto
  next
    case False
    with assms s obtain r where r: "verify_key s = Inr r" "p = key_principal r" "mark = Some ''apikey''"
      by (auto simp: authenticate_def split: sum.splits verify_error.splits)
    with False s keys.sound [OF r(1)] show ?thesis by (auto simp: key_principal_def)
  qed
qed

end

definition genuine_jwt :: "settings \<Rightarrow> (jwt_call \<Rightarrow> decode_result) \<Rightarrow> jwt_verifier \<Rightarrow> string \<Rightarrow> claims \<Rightarrow> bool" where
  "genuine_jwt cfg decode v s c \<longleftrightarrow> jwt_enabled v \<and> decode (jwt_call_of cfg v s) = Claims c"

definition genuine_key ::
  "settings \<Rightarrow> (string \<Rightarrow> string \<Rightarrow> argon_result) \<Rightarrow> real \<Rightarrow> key_store \<Rightarrow> string \<Rightarrow> api_key_record \<Rightarrow> bool" where
  "genuine_key cfg argon now store s r \<longleftrightarrow>
     (\<exists>k secret. split_key s = Inr (k, secret) \<and> dict_get store k = Some r \<and> \<not> ak_revoked r \<and>
        \<not> expired now r \<and> argon (ak_hash r) (secret @ API_KEY_PEPPER cfg) = Match)"

lemma jwt_verify_sound: "jwt_verify cfg decode v s = Inr c \<Longrightarrow> genuine_jwt cfg decode v s c"
  by (auto simp: jwt_verify_def genuine_jwt_def split: if_splits decode_result.splits)

interpretation jwt_credentials: credential_check "jwt_verify cfg decode v" "genuine_jwt cfg decode v"
  for cfg decode v
  by unfold_locales (rule jwt_verify_sound)

interpretation key_credentials:
  credential_check "\<lambda>s. snd (verify cfg dh argon now store s)" "genuine_key cfg argon now store"
  for cfg dh argon now store
  by unfold_locales (auto simp: genuine_key_def dest: verify_accepted)

interpretation bearer:
  bearer_auth "jwt_verify cfg decode v" "genuine_jwt cfg decode v"
    "\<lambda>s. snd (verify cfg dh argon now store s)" "genuine_key cfg argon now store"
  for cfg decode v dh argon now store ..

text \<open>C19. Nobody becomes a principal without a genuine credential: whenever the dependency lets
  a request through, the header carried a bearer credential that is either a JWT the
  configured verifier accepted, or an API key whose stored, unrevoked, unexpired record
  matches the presented secret. The principal is exactly the one that credential stands for,
  a JWT's with no key id and no quota, and the metrics mark names the method used.\<close>

theorem require_principal_sound:
  assumes "require_principal cfg fr decode dh argon now store v authorization = (mark, Inr p)"
  shows "\<exists>s. credential_of authorization = Some s \<and> mark = Some (pr_method p) \<and>
     (if is_jwt_shape s
      then \<exists>c. genuine_jwt cfg decode v s c \<and> jwt_principal fr c = Inr p \<and>
             pr_keyid p = None \<and> pr_token_budget p = None \<and> pr_max_concurrency p = None
      else \<exists>r. genuine_key cfg argon now store s r \<and> p = key_principal r)"
proof -
  from bearer.authenticate_sound [OF assms [unfolded require_principal_def]]
  obtain s where s: "credential_of authorization = Some s" "mark = Some (pr_method p)"
    "if is_jwt_shape s then \<exists>c. genuine_jwt cfg decode v s c \<and> jwt_principal fr c = Inr p
     else \<exists>r. genuine_key cfg argon now store s r \<and> p = key_principal r" by blast
  have "pr_keyid p = None \<and> pr_token_budget p = None \<and> pr_max_concurrency p = None"
    if "jwt_principal fr c = Inr p" for c
    using that by (auto simp: jwt_principal_def bindE_Inr)
  then show ?thesis using s by (intro exI [of _ s]) (metis (full_types))
qed

lemma bearer_prefix: "startswith (py_lower (''Bearer '' @ s)) ''bearer ''"
proof -
  have "char_of (98::nat) = CHR ''b''" by (rule char_of_eqI) simp
  then show ?thesis by (simp add: startswith_def py_lower_def py_lower_char_def)
qed

lemma credential_of_bearer:
  "py_strip s = s \<Longrightarrow> s \<noteq> [] \<Longrightarrow> credential_of (Some (''Bearer '' @ s)) = Some s"
  using bearer_prefix [of s] by (simp add: credential_of_def)

definition demo_key :: "string \<times> api_key_record" where
  "demo_key = mint_key default_settings rev ''a1'' ''s'' 0 True None None [] (Some 9) (Some 2)"

definition demo_verifier :: jwt_verifier where
  "demo_verifier = \<lparr>jv_public_key = ''pem'', jv_algorithm = ''RS256''\<rparr>"

lemma demo_key_simps:
  "fst demo_key = ''bkn_live_a1_s''" "ak_keyid (snd demo_key) = ''a1''" "ak_scopes (snd demo_key) = [''chat'']"
  "ak_token_budget (snd demo_key) = Some 9" "ak_max_concurrency (snd demo_key) = Some 2"
  "ak_revoked (snd demo_key) = False" "ak_expires_at (snd demo_key) = None" "ak_hash (snd demo_key) = ''s''"
  by (simp_all add: demo_key_def mint_key_def default_settings_def)

lemma demo_key_verifies:
  "snd (verify default_settings [] toy_argon 5 [(''a1'', snd demo_key)] ''bkn_live_a1_s'') = Inr (snd demo_key)"
  by (simp add: verify_def split_key_def KEY_PREFIXES_def startswith_def py_partition_def demo_key_simps
      toy_argon_def default_settings_def)

lemma demo_credential: "credential_of (Some ''Bearer bkn_live_a1_s'') = Some ''bkn_live_a1_s''"
  using credential_of_bearer [of "''bkn_live_a1_s''"] by (simp add: strip_by_def py_space_def)

lemma demo_authenticates:
  "require_principal default_settings fr decode [] toy_argon 5 [(''a1'', snd demo_key)] v (Some ''Bearer bkn_live_a1_s'')
   = (Some ''apikey'', Inr (key_principal (snd demo_key)))"
  by (simp add: require_principal_def authenticate_def demo_credential is_jwt_shape_def demo_key_verifies)

theorem require_principal_sound_witness:
  "\<exists>r. genuine_key default_settings toy_argon 5 [(''a1'', snd demo_key)] ''bkn_live_a1_s'' r \<and>
       key_principal (snd demo_key) = key_principal r"
  using require_principal_sound [OF demo_authenticates]
  by (simp add: demo_credential is_jwt_shape_def)

text \<open>What is wrong with a key: its shape, an identifier no record has (the hasher is then run on the dummy
  hash), a revoked or expired record, or the secret.\<close>

definition key_refused ::
  "settings \<Rightarrow> string \<Rightarrow> (string \<Rightarrow> string \<Rightarrow> argon_result) \<Rightarrow> real \<Rightarrow> key_store \<Rightarrow> string \<Rightarrow> bool" where
  "key_refused cfg dh argon now store s \<longleftrightarrow>
     (case split_key s of
        Inl e \<Rightarrow> True
      | Inr (keyid, secret) \<Rightarrow>
          (case dict_get store keyid of
             None \<Rightarrow> snd (dummy_verify dh argon) = Inr ()
           | Some rec \<Rightarrow>
               ak_revoked rec \<or> (\<exists>t. ak_expires_at rec = Some t \<and> t < now) \<or>
               argon (ak_hash rec) (secret @ API_KEY_PEPPER cfg) = Mismatch))"

lemma verify_refused: "snd (verify cfg dh argon now store s) = Inl (Rejected AuthError) \<longleftrightarrow> key_refused cfg dh argon now store s"
proof -
  have e: "e = AuthError" for e :: auth_error by (cases e) simp
  have d: "snd (dummy_verify dh argon) \<noteq> Inl (Rejected x)" for x
    by (auto simp: dummy_verify_def split: argon_result.split)
  show ?thesis
    using e d by (auto simp: verify_def key_refused_def split_beta bindE_Inl Let_def split: sum.split option.split argon_result.split)
qed

text \<open>What is wrong with a JWT: no verifier is configured, or PyJWT refuses it.\<close>

definition jwt_refused :: "settings \<Rightarrow> (jwt_call \<Rightarrow> decode_result) \<Rightarrow> jwt_verifier \<Rightarrow> string \<Rightarrow> bool" where
  "jwt_refused cfg decode v s \<longleftrightarrow> (if jwt_enabled v then decode (jwt_call_of cfg v s) = PyJWTError else True)"

text \<open>C20. Every refusal looks the same from outside. Whatever is wrong with the credential (no header, not a
  bearer one, an empty one, a malformed, unknown, revoked or expired key, a wrong secret, a JWT PyJWT
  refuses or that no verifier is configured for), the outcome is the same pair: the refusal, which carries
  nothing, and no authentication method marked for the metrics; and nothing else is refused. What is
  left is an exception of the hasher or of the decoding, which is a crash and not a refusal, or a
  principal, whose method is the one marked; a crash is marked only when it comes from the
  claims of a JWT that was accepted.\<close>

theorem refusals_are_uniform:
  "(require_principal cfg fr decode dh argon now store v authorization = (None, Inl Unauthorized) \<longleftrightarrow>
     (case credential_of authorization of
        None \<Rightarrow> True
      | Some s \<Rightarrow> if is_jwt_shape s then jwt_refused cfg decode v s else key_refused cfg dh argon now store s)) \<and>
   (case require_principal cfg fr decode dh argon now store v authorization of
      (mark, Inl Unauthorized) \<Rightarrow> mark = None
    | (mark, Inl Crashed) \<Rightarrow>
        (case credential_of authorization of
           None \<Rightarrow> False
         | Some s \<Rightarrow>
             if is_jwt_shape s
             then (case decode (jwt_call_of cfg v s) of
                     Claims c \<Rightarrow> mark = Some ''jwt'' \<and> (\<exists>e. jwt_principal fr c = Inl e)
                   | PyJWTError \<Rightarrow> False
                   | Decode_raised e \<Rightarrow> mark = None)
             else mark = None \<and> snd (verify cfg dh argon now store s) = Inl Hasher_error)
    | (mark, Inr p) \<Rightarrow> mark = Some (pr_method p))"
proof (cases "credential_of authorization")
  case None
  then show ?thesis by (simp add: require_principal_def authenticate_def)
next
  case (Some s)
  have e: "e = AuthError" for e :: auth_error by (cases e) simp
  have m: "jwt_principal fr c = Inr p \<Longrightarrow> pr_method p = ''jwt''" for c p
    by (auto simp: jwt_principal_def bindE_Inr)
  show ?thesis
  proof (cases "is_jwt_shape s")
    case True
    then show ?thesis using Some m
      by (auto simp: require_principal_def authenticate_def jwt_verify_def jwt_refused_def split: decode_result.split sum.split)
  next
    case False
    obtain calls r where v: "verify cfg dh argon now store s = (calls, r)" by fastforce
    have "key_refused cfg dh argon now store s \<longleftrightarrow> r = Inl (Rejected AuthError)" using verify_refused [of cfg dh argon now store s] by (simp add: v)
    then show ?thesis using Some False v e
      by (cases r) (auto simp: require_principal_def authenticate_def key_principal_def split: verify_error.split)
  qed
qed

text \<open>C21. Only asymmetric signatures are ever accepted: a verifier can only be built with one of
  the six RS and ES algorithms, and every JWT it accepts went through one call of PyJWT that
  named exactly that algorithm, the configured non-empty public key, issuer and audience,
  required an expiry and checked it.\<close>

theorem jwt_only_asymmetric:
  assumes "new_jwt_verifier cfg pk alg = Inr v" and "jwt_verify cfg decode v token = Inr c"
  shows "\<exists>call a. decode call = Claims c \<and> jc_token call = token \<and> jc_algorithms call = [a] \<and>
     a \<in> {''RS256'', ''RS384'', ''RS512'', ''ES256'', ''ES384'', ''ES512''} \<and>
     jc_key call = (case pk of None \<Rightarrow> JWT_PUBLIC_KEY cfg | Some k \<Rightarrow> k) \<and> jc_key call \<noteq> [] \<and>
     jc_issuer call = JWT_ISSUER cfg \<and> jc_audience call = JWT_AUDIENCE cfg \<and>
     ''exp'' \<in> set (jc_require call) \<and> jc_verify_exp call \<and> jc_verify_aud call \<and> jc_verify_iss call"
proof -
  have "genuine_jwt cfg decode v token c" using assms(2) by (rule jwt_verify_sound)
  with assms(1) show ?thesis
    by (intro exI [of _ "jwt_call_of cfg v token"] exI [of _ "jv_algorithm v"])
      (auto simp: genuine_jwt_def jwt_call_of_def jwt_enabled_def new_jwt_verifier_def Let_def ALLOWED_ALGORITHMS_def
        split: if_splits)
qed

theorem jwt_only_asymmetric_witness:
  "\<exists>(call :: jwt_call) a. jc_algorithms call = [a] \<and> jc_key call = ''pem'' \<and> jc_verify_exp call"
proof -
  have v: "new_jwt_verifier default_settings (Some ''pem'') None = Inr demo_verifier"
    by (simp add: new_jwt_verifier_def demo_verifier_def default_settings_def ALLOWED_ALGORITHMS_def)
  have "jwt_verify default_settings (\<lambda>_. Claims []) demo_verifier ''a.b.c'' = Inr []"
    by (simp add: jwt_verify_def jwt_enabled_def demo_verifier_def)
  from jwt_only_asymmetric [OF v this] show ?thesis unfolding option.case by blast
qed

text \<open>C22. A freshly minted key works end to end: sent as \<open>Bearer <key>\<close> it authenticates as its
  own key id, with the scopes, the token budget and the concurrency cap it was minted with,
  until it expires.\<close>

theorem minted_key_authenticates:
  assumes "mint_key cfg hash_fn keyid secret t0 live (Some (sc # scs)) ttl label budget cap = (plaintext, r)"
    and "keyid \<noteq> []" and "CHR ''_'' \<notin> set keyid" and "secret \<noteq> []" and "\<not> py_space (last secret)"
    and "\<And>text. argon (hash_fn text) text = Match" and "\<not> expired now r"
  shows "\<exists>p. require_principal cfg fr decode dh argon now (add_key r store) v (Some (''Bearer '' @ plaintext))
             = (Some ''apikey'', Inr p) \<and>
         pr_keyid p = Some keyid \<and> pr_token_budget p = budget \<and> pr_max_concurrency p = cap \<and>
         (\<forall>s. has_scope p s \<longleftrightarrow> s \<in> set (sc # scs) \<or> ''*'' \<in> set (sc # scs))"
proof -
  have plain: "plaintext = (if live then ''bkn_live_'' else ''bkn_test_'') @ keyid @ ''_'' @ secret"
    using assms(1) by (auto simp: mint_key_def Let_def)
  then have pre: "startswith plaintext ''bkn_''" and hd: "plaintext \<noteq> []" "hd plaintext = CHR ''b''"
    by (auto simp: startswith_def)
  have last: "last plaintext = last secret" using assms(4) plain by simp
  have strip: "py_strip plaintext = plaintext"
    by (rule strip_by_id) (simp add: hd last assms(5), simp add: py_space_def)
  have cred: "credential_of (Some (''Bearer '' @ plaintext)) = Some plaintext"
    using strip hd(1) by (rule credential_of_bearer)
  have key: "split_key plaintext = Inr (keyid, secret)"
    using split_key_live [of "keyid @ CHR ''_'' # secret"] split_key_test [of "keyid @ CHR ''_'' # secret"]
      py_partition_found [OF assms(3), of secret] assms(2,4)
    by (simp add: plain)
  have r: "ak_keyid r = keyid" "\<not> ak_revoked r" "ak_hash r = hash_fn (secret @ API_KEY_PEPPER cfg)"
    "ak_scopes r = sc # scs" "ak_token_budget r = budget" "ak_max_concurrency r = cap"
    using assms(1) by (auto simp: mint_key_def Let_def)
  have added: "dict_get (add_key r store) keyid = Some r" by (simp add: add_key_def r)
  have "require_principal cfg fr decode dh argon now (add_key r store) v (Some (''Bearer '' @ plaintext)) =
      (Some ''apikey'', Inr (key_principal r))"
    using pre assms(6,7) cred
    by (simp add: require_principal_def authenticate_def is_jwt_shape_def verify_known [OF key added] r)
  then show ?thesis by (auto simp: key_principal_def has_scope_def r)
qed

theorem minted_key_authenticates_witness:
  "\<exists>p. require_principal default_settings (\<lambda>_. []) (\<lambda>_. PyJWTError) [] toy_argon 5
         (add_key (snd (mint_key default_settings rev ''a1'' ''s'' 0 True (Some [''chat'']) None [] (Some 9) None)) [])
         demo_verifier (Some ''Bearer bkn_live_a1_s'') = (Some ''apikey'', Inr p) \<and> pr_token_budget p = Some 9"
proof -
  obtain plaintext r where m:
    "mint_key default_settings rev ''a1'' ''s'' 0 True (Some [''chat'']) None [] (Some 9) None = (plaintext, r)"
    by fastforce
  then have p: "plaintext = ''bkn_live_a1_s''" and "\<not> expired 5 r"
    by (auto simp: mint_key_def expired_def Let_def)
  with minted_key_authenticates [OF m, of toy_argon 5 "\<lambda>_. []" "\<lambda>_. PyJWTError" "[]" "[]" demo_verifier]
  show ?thesis
    by (auto simp: m toy_argon_def py_space_def)
qed

end
