(* ===== verification/Json_Out.thy ===== *)
theory Json_Out
  imports Py_Json "HOL-Library.List_Lexorder" "HOL-Library.Char_ord"
begin

section \<open>Printing JSON (json.dumps) and reading it back\<close>

text \<open>
  \<open>json.dumps(v, ensure_ascii=False)\<close> with its default separators, the printer of the audit
  log and of the stub's stream, and \<open>sort_keys\<close>. A finite float is printed by \<open>repr\<close>, the
  parameter \<open>fr\<close>. The lemmas below end in \<open>loads_dumps\<close>: what is printed is read back.
\<close>

definition escape_char :: "char \<Rightarrow> string" where
  "escape_char c =
     (let n = (of_char c :: nat) in
      if c = CHR 0x22 \<or> c = CHR 0x5C then [CHR 0x5C, c]
      else if n = 8 then [CHR 0x5C, CHR ''b'']
      else if n = 12 then [CHR 0x5C, CHR ''f'']
      else if n = 10 then [CHR 0x5C, CHR ''n'']
      else if n = 13 then [CHR 0x5C, CHR ''r'']
      else if n = 9 then [CHR 0x5C, CHR ''t'']
      else if n < 32 then [CHR 0x5C, CHR ''u'', CHR ''0'', CHR ''0'', hex_digit (n div 16), hex_digit (n mod 16)]
      else [c])"

definition dumps_str :: "string \<Rightarrow> string" where
  "dumps_str s = CHR 0x22 # concat (map escape_char s) @ [CHR 0x22]"

fun json_dumps :: "(real \<Rightarrow> string) \<Rightarrow> json \<Rightarrow> string" where
  "json_dumps fr JNull = ''null''"
| "json_dumps fr (JBool b) = (if b then ''true'' else ''false'')"
| "json_dumps fr (JInt i) = str_int i"
| "json_dumps fr (JFloat (Fin x)) = fr x"
| "json_dumps fr (JFloat PInf) = ''Infinity''"
| "json_dumps fr (JFloat NInf) = ''-Infinity''"
| "json_dumps fr (JFloat NaN) = ''NaN''"
| "json_dumps fr (JStr s) = dumps_str s"
| "json_dumps fr (JArr xs) = ''['' @ py_join '', '' (map (json_dumps fr) xs) @ '']''"
| "json_dumps fr (JObj kvs) =
     ''{'' @ py_join '', '' (map (\<lambda>(k, v). dumps_str k @ '': '' @ json_dumps fr v) kvs) @ ''}''"

text \<open>\<open>sort_keys=True\<close>: every object is printed in the order of its keys. UTF-8 sorts as the
  code points do.\<close>

fun sort_keys :: "json \<Rightarrow> json" where
  "sort_keys (JArr xs) = JArr (map sort_keys xs)"
| "sort_keys (JObj kvs) = JObj (sort_key fst (map (\<lambda>(k, v). (k, sort_keys v)) kvs))"
| "sort_keys v = v"

text \<open>The printer over a layout: how a text is quoted, and what white space stands after an opening
  bracket, after a comma and before a closing bracket at each depth.\<close>

record layout =
  ly_str :: "string \<Rightarrow> string"
  ly_open :: "nat \<Rightarrow> string"
  ly_next :: "nat \<Rightarrow> string"
  ly_close :: "nat \<Rightarrow> string"

fun json_text :: "layout \<Rightarrow> (real \<Rightarrow> string) \<Rightarrow> nat \<Rightarrow> json \<Rightarrow> string" where
  "json_text L fr k (JStr s) = ly_str L s"
| "json_text L fr k (JArr xs) =
     (if xs = [] then ''[]''
      else ''['' @ ly_open L k @ py_join (CHR '','' # ly_next L k) (map (json_text L fr (k + 1)) xs) @ ly_close L k @ '']'')"
| "json_text L fr k (JObj kvs) =
     (if kvs = [] then ''{}''
      else ''{'' @ ly_open L k @
           py_join (CHR '','' # ly_next L k) (map (\<lambda>(key, v). ly_str L key @ '': '' @ json_text L fr (k + 1) v) kvs) @
           ly_close L k @ ''}'')"
| "json_text L fr k v = json_dumps fr v"

definition plain_layout :: layout where
  "plain_layout = \<lparr>ly_str = dumps_str, ly_open = (\<lambda>_. []), ly_next = (\<lambda>_. '' ''), ly_close = (\<lambda>_. [])\<rparr>"

lemma plain_layout_simps [simp]:
  "ly_str plain_layout = dumps_str" "ly_open plain_layout k = []" "ly_next plain_layout k = '' ''" "ly_close plain_layout k = []"
  by (simp_all add: plain_layout_def)

lemma json_text_plain: "json_text plain_layout fr k v = json_dumps fr v"
proof (induction v arbitrary: k)
  case (JArr xs)
  then have e: "map (json_text plain_layout fr (Suc k)) xs = map (json_dumps fr) xs" by simp
  show ?case by (simp add: e)
next
  case (JObj kvs)
  have "json_text plain_layout fr (k + 1) v = json_dumps fr v" if "(key, v) \<in> set kvs" for key v
    using JObj.IH [of "(key, v)" v] that by (simp add: snds.simps)
  then have e: "map (\<lambda>(key, v). ly_str plain_layout key @ '': '' @ json_text plain_layout fr (k + 1) v) kvs =
      map (\<lambda>(key, v). dumps_str key @ '': '' @ json_dumps fr v) kvs" by auto
  show ?case unfolding json_text.simps(3) json_dumps.simps e by (cases kvs) simp_all
qed simp_all

subsection \<open>Texts\<close>

lemma of_char_less [simp]: "(of_char c :: nat) < 256"
  by (cases c) (simp add: of_char_def horner_sum_simps)

lemma hex_val_digit: "n < 16 \<Longrightarrow> hex_val (hex_digit n) = Some n"
  by (simp add: hex_val_def hex_digit_def Let_def)

lemma char_of_controls:
  "char_of (8::nat) = CHR 0x08" "char_of (12::nat) = CHR 0x0C" "char_of (10::nat) = CHR 0x0A"
  "char_of (13::nat) = CHR 0x0D" "char_of (9::nat) = CHR 0x09"
  by (rule char_of_eqI, simp)+

lemma escape_char_cases:
  obtains (quoted) e where "escape_char c = [CHR 0x5C, e]" and "json_escape e = Some c" and "e \<noteq> CHR ''u''"
  | (coded) h l where "escape_char c = [CHR 0x5C, CHR ''u'', CHR ''0'', CHR ''0'', h, l]"
      and "hex4 [CHR ''0'', CHR ''0'', h, l] = Some (of_char c)" and "(of_char c :: nat) < 32"
  | (plain) "escape_char c = [c]" and "c \<noteq> CHR 0x22" and "c \<noteq> CHR 0x5C" and "\<not> (of_char c :: nat) < 32"
proof -
  let ?n = "of_char c :: nat"
  have named: "?n = 8 \<Longrightarrow> c = CHR 0x08" "?n = 12 \<Longrightarrow> c = CHR 0x0C" "?n = 10 \<Longrightarrow> c = CHR 0x0A"
    "?n = 13 \<Longrightarrow> c = CHR 0x0D" "?n = 9 \<Longrightarrow> c = CHR 0x09"
    using char_of_eqI [of c 8] char_of_eqI [of c 12] char_of_eqI [of c 10] char_of_eqI [of c 13] char_of_eqI [of c 9]
      char_of_controls by simp_all
  show thesis
  proof (cases "c = CHR 0x22 \<or> c = CHR 0x5C \<or> ?n \<in> {8, 9, 10, 12, 13}")
    case True
    then have "c \<in> set [CHR 0x22, CHR 0x5C, CHR 0x08, CHR 0x09, CHR 0x0A, CHR 0x0C, CHR 0x0D]"
      using named by fastforce
    then have "\<exists>e \<in> set [CHR 0x22, CHR 0x5C, CHR ''b'', CHR ''f'', CHR ''n'', CHR ''r'', CHR ''t''].
        escape_char c = [CHR 0x5C, e] \<and> json_escape e = Some c \<and> e \<noteq> CHR ''u''"
      unfolding list.set insert_iff
      by (elim disjE) (simp_all add: escape_char_def json_escape_def)
    then show ?thesis using quoted by blast
  next
    case False
    show ?thesis
    proof (cases "?n < 32")
      case True
      have "?n div 16 < 16" using True by simp
      then have "hex4 [CHR ''0'', CHR ''0'', hex_digit (?n div 16), hex_digit (?n mod 16)] = Some ?n"
        by (simp add: hex4_def hex_val_digit) (simp add: hex_val_def)
      then show ?thesis using False True coded by (auto simp: escape_char_def Let_def)
    next
      case F: False
      then show ?thesis using False plain by (auto simp: escape_char_def Let_def)
    qed
  qed
qed

lemma json_str_step: "json_str (escape_char c @ r) = map_option (apfst ((#) c)) (json_str r)"
proof (rule escape_char_cases [of c])
  fix e
  assume "escape_char c = [CHR 0x5C, e]" and "json_escape e = Some c" and "e \<noteq> CHR ''u''"
  then show ?thesis
    by (simp add: json_str.simps json_unescape_def comp_def option.map_comp apfst_def map_prod_def)
next
  fix h l
  assume e: "escape_char c = [CHR 0x5C, CHR ''u'', CHR ''0'', CHR ''0'', h, l]"
    and h: "hex4 [CHR ''0'', CHR ''0'', h, l] = Some (of_char c)" and n: "(of_char c :: nat) < 32"
  from h have h': "hex4 (CHR ''0'' # CHR ''0'' # h # l # r) = Some (of_char c)" by (simp add: hex4_def)
  have "utf8 (of_char c) = [c]" using n by (simp add: utf8_def)
  then show ?thesis using n
    by (simp add: e json_str.simps json_unescape_def h' Let_def apfst_def map_prod_def)
next
  assume "escape_char c = [c]" and "c \<noteq> CHR 0x22" and "c \<noteq> CHR 0x5C" and "\<not> (of_char c :: nat) < 32"
  then show ?thesis by (simp add: json_str.simps)
qed

lemma json_str_dumps: "json_str (concat (map escape_char s) @ CHR 0x22 # r) = Some (s, r)"
  by (induction s) (simp_all add: json_str_step json_str.simps)

lemma hex_digit_plain: "n < 16 \<Longrightarrow> 32 \<le> (of_char (hex_digit n) :: nat)"
  by (simp add: hex_digit_def)

lemma escape_char_clean: "d \<in> set (escape_char c) \<Longrightarrow> 32 \<le> (of_char d :: nat)"
  by (auto simp: escape_char_def Let_def hex_digit_plain split: if_splits)

subsection \<open>Numbers\<close>

lemma of_char_int: "(of_char c :: int) = int (of_char c)"
  by (simp only: of_nat_of_char)

lemma digit_char: "n < 10 \<Longrightarrow> is_digit (char_of (48 + n)) \<and> digit_val (char_of (48 + n)) = int n"
  by (simp add: is_digit_def digit_val_def of_char_int)

lemma nat_digits_digits: "c \<in> set (nat_digits n) \<Longrightarrow> is_digit c"
proof (induction n rule: nat_digits.induct)
  case (1 n)
  show ?case
  proof (cases "n < 10")
    case True
    with 1 digit_char [of n] show ?thesis by (simp add: nat_digits.simps [of n])
  next
    case False
    with 1 digit_char [of "n mod 10"] show ?thesis by (auto simp: nat_digits.simps [of n])
  qed
qed

lemma digits_val_append: "digits_val (xs @ [d]) = 10 * digits_val xs + digit_val d"
  by (simp add: digits_val_def)

lemma digits_val_nat: "digits_val (nat_digits n) = int n"
proof (induction n rule: nat_digits.induct)
  case (1 n)
  show ?case
  proof (cases "n < 10")
    case True
    with digit_char [of n] show ?thesis by (simp add: nat_digits.simps [of n] digits_val_def)
  next
    case False
    have "10 * int (n div 10) + int (n mod 10) = int n"
      using mult_div_mod_eq [of 10 n] by (metis of_nat_add of_nat_mult of_nat_numeral)
    with False 1 digit_char [of "n mod 10"] show ?thesis
      by (simp add: nat_digits.simps [of n] digits_val_append)
  qed
qed

lemma nat_digits_not_Nil [simp]: "nat_digits n \<noteq> []"
  by (simp add: nat_digits.simps [of n])

lemma nat_digits_hd0: "hd (nat_digits n) = CHR ''0'' \<longleftrightarrow> n = 0"
proof (induction n rule: nat_digits.induct)
  case (1 n)
  show ?case
  proof (cases "n < 10")
    case True
    have "char_of (48 + n) = CHR ''0'' \<longleftrightarrow> n = 0"
    proof
      assume "char_of (48 + n) = CHR ''0''"
      then have "of_char (char_of (48 + n) :: char) = (48 :: nat)" by simp
      with True show "n = 0" by simp
    qed (simp add: char_of_digits)
    with True show ?thesis by (simp add: nat_digits.simps [of n])
  next
    case False
    with 1 show ?thesis by (simp add: nat_digits.simps [of n])
  qed
qed

text \<open>What may follow a value inside a printed text.\<close>

definition value_end :: "string \<Rightarrow> bool" where
  "value_end r \<longleftrightarrow> r = [] \<or> hd r \<in> set [CHR '','', CHR '']'', CHR ''}''] \<or> json_space (hd r)"

lemma value_end_plain:
  assumes "value_end r"
  shows "takeWhile is_digit r = []" and "json_fraction r = ([], r)" and "json_exponent r = (None, r)"
  using assms by (cases r; auto simp: value_end_def is_digit_def json_space_def json_fraction_def json_exponent_def Let_def)+

lemma digits_then_end:
  assumes "value_end r"
  shows "takeWhile is_digit (nat_digits n @ r) = nat_digits n" and "dropWhile is_digit (nat_digits n @ r) = r"
proof -
  have d: "\<forall>c \<in> set (nat_digits n). is_digit c" using nat_digits_digits by blast
  have "takeWhile is_digit r = []" using assms by (rule value_end_plain)
  then have "dropWhile is_digit r = r" by (metis append_Nil takeWhile_dropWhile_id)
  then show "takeWhile is_digit (nat_digits n @ r) = nat_digits n" and "dropWhile is_digit (nat_digits n @ r) = r"
    using d \<open>takeWhile is_digit r = []\<close> by (simp_all add: takeWhile_append dropWhile_append)
qed

definition short_int :: "int \<Rightarrow> bool" where
  "short_int i \<longleftrightarrow> length (nat_digits (nat \<bar>i\<bar>)) \<le> max_str_digits"

lemma json_number_int:
  assumes "value_end r" and "short_int i"
  shows "json_number (str_int i @ r) = Some (JInt i, r)"
proof -
  let ?n = "nat \<bar>i\<bar>"
  obtain c t where ct: "nat_digits ?n = c # t" by (cases "nat_digits ?n") auto
  then have dig: "is_digit c" using nat_digits_digits [of c ?n] by simp
  then have c: "c \<noteq> CHR ''-''" by (auto simp: is_digit_def)
  have zero: "c = CHR ''0'' \<longleftrightarrow> ?n = 0" using nat_digits_hd0 [of ?n] ct by simp
  have z: "nat_digits 0 = ''0''" by (simp add: nat_digits.simps char_of_digits)
  have ip: "(case nat_digits ?n @ r of [] \<Rightarrow> ([], []) | x # u \<Rightarrow> if x = CHR ''0'' then ([x], u)
       else (takeWhile is_digit (nat_digits ?n @ r), dropWhile is_digit (nat_digits ?n @ r))) = (nat_digits ?n, r)"
  proof (cases "?n = 0")
    case True
    then show ?thesis by (simp add: z)
  next
    case False
    then show ?thesis using zero ct digits_then_end [OF assms(1), of ?n] by simp
  qed
  have s: "str_int i = (if i < 0 then CHR ''-'' # c # t else c # t)"
    using ct by (cases "i < 0") (simp_all add: str_int_def)
  have neg: "(case str_int i @ r of [] \<Rightarrow> (False, []) | x # u \<Rightarrow> if x = CHR ''-'' then (True, u) else (False, str_int i @ r))
      = (i < 0, nat_digits ?n @ r)"
    using c by (auto simp: s ct)
  show ?thesis
    using assms(2)
    by (simp add: json_number_def neg ip value_end_plain [OF assms(1)] short_int_def digits_val_nat Let_def)
qed

subsection \<open>Values\<close>

text \<open>\<open>repr\<close> prints a float as a decimal that reads back as the same float.\<close>

definition prints_float :: "(real \<Rightarrow> string) \<Rightarrow> real \<Rightarrow> bool" where
  "prints_float fr x \<longleftrightarrow> fr x \<noteq> [] \<and> (\<forall>c \<in> set (fr x). 32 \<le> (of_char c :: nat)) \<and> \<not> json_space (hd (fr x)) \<and> hd (fr x) \<noteq> CHR '']'' \<and>
     (\<forall>n r. value_end r \<longrightarrow> json_value (Suc n) (fr x @ r) = Some (JFloat (Fin x), r))"

fun printable :: "(real \<Rightarrow> string) \<Rightarrow> json \<Rightarrow> bool" where
  "printable fr (JInt i) = short_int i"
| "printable fr (JFloat (Fin x)) = prints_float fr x"
| "printable fr (JArr xs) = (\<forall>x \<in> set xs. printable fr x)"
| "printable fr (JObj kvs) = (distinct (map fst kvs) \<and> (\<forall>(k, v) \<in> set kvs. printable fr v))"
| "printable fr v = True"

lemma value_end_simps [simp]: "value_end []" "value_end (CHR '','' # r)" "value_end (CHR '']'' # r)" "value_end (CHR ''}'' # r)"
  by (simp_all add: value_end_def)

lemma str_int_hd: "\<exists>c t. str_int i = c # t \<and> (is_digit c \<or> c = CHR ''-'')"
proof (cases "i < 0")
  case False
  obtain c t where "nat_digits (nat i) = c # t" by (cases "nat_digits (nat i)") auto
  with False show ?thesis using nat_digits_digits [of c "nat i"] by (simp add: str_int_def)
qed (simp add: str_int_def)

text \<open>A layout that reads: its spaces are white space and a text that fits it is read back.\<close>

definition spaced :: "layout \<Rightarrow> bool" where
  "spaced L \<longleftrightarrow> (\<forall>k. list_all json_space (ly_open L k) \<and> list_all json_space (ly_next L k) \<and> list_all json_space (ly_close L k))"

definition writes :: "layout \<Rightarrow> string \<Rightarrow> bool" where
  "writes L s \<longleftrightarrow> (\<exists>b. ly_str L s = CHR 0x22 # b \<and> (\<forall>r. json_str (b @ r) = Some (s, r)))"

fun fits :: "layout \<Rightarrow> json \<Rightarrow> bool" where
  "fits L (JStr s) = writes L s"
| "fits L (JArr xs) = (\<forall>x \<in> set xs. fits L x)"
| "fits L (JObj kvs) = (\<forall>(k, v) \<in> set kvs. writes L k \<and> fits L v)"
| "fits L v = True"

lemma writes_plain [simp]: "writes plain_layout s"
  using json_str_dumps [of s] by (simp add: writes_def dumps_str_def)

lemma fits_plain [simp]: "fits plain_layout v"
proof (induction v)
  case (JObj kvs)
  have "fits plain_layout v" if "(k, v) \<in> set kvs" for k v using JObj [of "(k, v)" v] that by (simp add: snds.simps)
  then show ?case by auto
qed simp_all

lemma spaced_plain [simp]: "spaced plain_layout"
  by (simp add: spaced_def json_space_def)

lemma text_hd:
  assumes "printable fr v" and "fits L v"
  shows "\<exists>c t. json_text L fr k v = c # t \<and> \<not> json_space c \<and> c \<noteq> CHR '']''"
proof (cases v)
  case (JInt i)
  obtain c t where ct: "str_int i = c # t" "is_digit c \<or> c = CHR ''-''" using str_int_hd by blast
  then have "\<not> json_space c \<and> c \<noteq> CHR '']''" by (auto simp: is_digit_def json_space_def Let_def)
  with JInt ct show ?thesis by simp
next
  case (JFloat f)
  show ?thesis
  proof (cases f)
    case (Fin x)
    with JFloat assms show ?thesis by (cases "fr x") (auto simp: prints_float_def)
  qed (simp_all add: JFloat json_space_def)
next
  case (JStr s)
  with assms show ?thesis by (auto simp: writes_def json_space_def)
qed (simp_all add: json_space_def)

lemma text_ws: "printable fr v \<Longrightarrow> fits L v \<Longrightarrow> json_ws (json_text L fr k v @ r) = json_text L fr k v @ r"
  using text_hd [of fr v L k] by auto

lemma ws_spaces: "list_all json_space w \<Longrightarrow> json_ws (w @ t) = json_ws t"
  by (induction w) simp_all

lemma json_word_int:
  assumes "value_end r" and "short_int i"
  shows "json_value (Suc n) (str_int i @ r) = Some (JInt i, r)"
proof -
  obtain c t where ct: "str_int i = c # t" "is_digit c \<or> c = CHR ''-''" using str_int_hd by blast
  have "t = [] \<or> is_digit (hd t)" if "c = CHR ''-''"
  proof -
    have "i < 0"
    proof (rule ccontr)
      assume "\<not> i < 0"
      then have "CHR ''-'' \<in> set (nat_digits (nat i))" using ct that by (simp add: str_int_def)
      then show False using nat_digits_digits [of "CHR ''-''" "nat i"] by (simp add: is_digit_def)
    qed
    then have "t = nat_digits (nat (- i))" using ct by (simp add: str_int_def)
    then show ?thesis using nat_digits_digits [of "hd t" "nat (- i)"] by (cases t) simp_all
  qed
  then have inf: "\<not> startswith (c # t @ r) ''-Infinity''" using assms(1)
    by (cases t; cases r) (auto simp: startswith_def is_digit_def json_space_def value_end_def Let_def)
  have ne: "c \<noteq> CHR ''n''" "c \<noteq> CHR ''t''" "c \<noteq> CHR ''f''" "c \<noteq> CHR ''N''" "c \<noteq> CHR ''I''"
    "c \<noteq> CHR 0x22" "c \<noteq> CHR ''{''" "c \<noteq> CHR ''[''"
    using ct(2) by (auto simp: is_digit_def)
  have "\<not> startswith (c # t @ r) ''null''" "\<not> startswith (c # t @ r) ''true''" "\<not> startswith (c # t @ r) ''false''"
    "\<not> startswith (c # t @ r) ''NaN''" "\<not> startswith (c # t @ r) ''Infinity''"
    using ne by (simp_all add: startswith_def)
  with inf have "json_word (c # t @ r) = json_number (c # t @ r)" by (simp add: json_word_def)
  then show ?thesis
    using json_number_int [OF assms] ct(1) ne by (simp add: json_value.simps)
qed

subsection \<open>Fuel-free reading\<close>

text \<open>\<open>reads s v r\<close>: the scanner reads \<open>v\<close> off the front of \<open>s\<close> and leaves \<open>r\<close>, with any fuel that
  is enough for \<open>s\<close>.\<close>

definition reads :: "string \<Rightarrow> json \<Rightarrow> string \<Rightarrow> bool" where
  "reads s v r \<longleftrightarrow> (\<forall>n. 2 * length s < n \<longrightarrow> json_value n s = Some (v, r))"

lemma readsI: "(\<And>n. json_value (Suc n) s = Some (v, r)) \<Longrightarrow> reads s v r"
  by (auto simp: reads_def gr0_conv_Suc dest!: less_imp_Suc_add)

lemma reads_less: "reads s v r \<Longrightarrow> length r < length s"
  unfolding reads_def using json_value_less by blast

text \<open>One element and then the rest of a printed array.\<close>

lemma elems_step:
  assumes "reads s v (CHR '','' # w @ t)" and "list_all json_space w" and "json_ws t = t"
    and "\<And>n. 2 * length t + 1 < n \<Longrightarrow> json_elems n (acc @ [v]) t = Some (JArr xs, r)"
    and "2 * length s + 1 < n"
  shows "json_elems n acc s = Some (JArr xs, r)"
proof -
  obtain m where m: "n = Suc m" using assms(5) by (cases n) auto
  have "json_value m s = Some (v, CHR '','' # w @ t)" using assms(1,5) m by (simp add: reads_def)
  moreover have "json_elems m (acc @ [v]) t = Some (JArr xs, r)"
    using assms(4,5) reads_less [OF assms(1)] m by simp
  ultimately show ?thesis using assms(3) ws_spaces [OF assms(2), of t] by (simp add: m json_elems.simps json_space_def)
qed

lemma elems_last:
  assumes "reads s v (w @ CHR '']'' # r)" and "list_all json_space w" and "2 * length s + 1 < n"
  shows "json_elems n acc s = Some (JArr (acc @ [v]), r)"
proof -
  obtain m where m: "n = Suc m" using assms(3) by (cases n) auto
  have "json_value m s = Some (v, w @ CHR '']'' # r)" using assms m by (simp add: reads_def)
  then show ?thesis using ws_spaces [OF assms(2)] by (simp add: m json_elems.simps json_space_def)
qed

lemma join_Cons: "py_join sep (x # xs) = x @ (if xs = [] then [] else sep @ py_join sep xs)"
  by (cases xs) simp_all

lemma value_end_spaces: "list_all json_space w \<Longrightarrow> value_end r \<Longrightarrow> value_end (w @ r)"
  by (cases w) (simp_all add: value_end_def)

lemma elems_text:
  assumes "xs \<noteq> []" and "\<And>x r. x \<in> set xs \<Longrightarrow> value_end r \<Longrightarrow> reads (json_text L fr k x @ r) x r"
    and "\<And>x. x \<in> set xs \<Longrightarrow> printable fr x \<and> fits L x" and "list_all json_space w" and "list_all json_space w'"
    and "2 * length (py_join (CHR '','' # w) (map (json_text L fr k) xs) @ w' @ CHR '']'' # r) + 1 < n"
  shows "json_elems n acc (py_join (CHR '','' # w) (map (json_text L fr k) xs) @ w' @ CHR '']'' # r) = Some (JArr (acc @ xs), r)"
  using assms
proof (induction xs arbitrary: acc n)
  case (Cons x xs)
  show ?case
  proof (cases "xs = []")
    case True
    have "reads (json_text L fr k x @ w' @ CHR '']'' # r) x (w' @ CHR '']'' # r)"
      using Cons.prems(2,5) by (simp add: value_end_spaces)
    from elems_last [OF this Cons.prems(5)] True Cons.prems(6) show ?thesis by simp
  next
    case False
    let ?t = "py_join (CHR '','' # w) (map (json_text L fr k) xs) @ w' @ CHR '']'' # r"
    have rd: "reads (json_text L fr k x @ CHR '','' # w @ ?t) x (CHR '','' # w @ ?t)"
      using Cons.prems(2) by simp
    have ws: "json_ws ?t = ?t"
      using False Cons.prems(3) text_ws [of fr _ L k] by (cases xs) (simp_all add: join_Cons)
    have ih: "json_elems m (acc @ [x]) ?t = Some (JArr ((acc @ [x]) @ xs), r)" if "2 * length ?t + 1 < m" for m
      using Cons.IH [OF False] Cons.prems(2-5) that by simp
    from elems_step [OF rd Cons.prems(4) ws ih, of n] Cons.prems(6) False show ?thesis
      by (simp add: join_Cons)
  qed
qed simp

text \<open>One member and then the rest of a printed object.\<close>

abbreviation text_member :: "layout \<Rightarrow> (real \<Rightarrow> string) \<Rightarrow> nat \<Rightarrow> string \<times> json \<Rightarrow> string" where
  "text_member L fr k \<equiv> (\<lambda>(key, v). ly_str L key @ '': '' @ json_text L fr k v)"

abbreviation dumps_member :: "(real \<Rightarrow> string) \<Rightarrow> string \<times> json \<Rightarrow> string" where
  "dumps_member fr \<equiv> (\<lambda>(k, v). dumps_str k @ '': '' @ json_dumps fr v)"

lemma dict_set_new: "k \<notin> fst ` set d \<Longrightarrow> dict_set k v d = d @ [(k, v)]"
  by (induction d) auto

lemma member_read:
  assumes "reads (json_text L fr k v @ q) v q" and "printable fr v" and "fits L v" and "writes L key"
    and "2 * length (text_member L fr k (key, v) @ q) + 1 < Suc m"
  shows "json_members (Suc m) acc (text_member L fr k (key, v) @ q) =
     (case json_ws q of
        [] \<Rightarrow> None
      | x # r3 \<Rightarrow>
          if x = CHR '','' then json_members m (dict_set key v acc) (json_ws r3)
          else if x = CHR ''}'' then Some (JObj (dict_set key v acc), r3)
          else None)"
proof -
  obtain b where b: "ly_str L key = CHR 0x22 # b" "\<And>r. json_str (b @ r) = Some (key, r)"
    using assms(4) by (auto simp: writes_def)
  have val: "json_value m (json_text L fr k v @ q) = Some (v, q)"
    using assms(1,5) by (simp add: reads_def)
  show ?thesis
    by (simp add: b json_members.simps(2) json_space_def text_ws [OF assms(2,3)] val del: dropWhile.simps)
      (simp add: json_space_def text_ws [OF assms(2,3)] val)
qed

lemma members_text:
  assumes "kvs \<noteq> []" and "\<And>key v r. (key, v) \<in> set kvs \<Longrightarrow> value_end r \<Longrightarrow> reads (json_text L fr k v @ r) v r"
    and "\<And>key v. (key, v) \<in> set kvs \<Longrightarrow> printable fr v \<and> fits L v \<and> writes L key"
    and "distinct (map fst (acc @ kvs))" and "list_all json_space w" and "list_all json_space w'"
    and "2 * length (py_join (CHR '','' # w) (map (text_member L fr k) kvs) @ w' @ CHR ''}'' # r) + 1 < n"
  shows "json_members n acc (py_join (CHR '','' # w) (map (text_member L fr k) kvs) @ w' @ CHR ''}'' # r) = Some (JObj (acc @ kvs), r)"
  using assms
proof (induction kvs arbitrary: acc n)
  case (Cons kv kvs)
  obtain key v where kv: "kv = (key, v)" by (cases kv)
  obtain m where m: "n = Suc m" using Cons.prems(7) by (cases n) auto
  have new: "dict_set key v acc = acc @ [(key, v)]" using Cons.prems(4) kv by (intro dict_set_new) auto
  have pr: "printable fr v" "fits L v" "writes L key" using Cons.prems(3) [of key v] kv by simp_all
  show ?case
  proof (cases "kvs = []")
    case True
    have rd: "reads (json_text L fr k v @ w' @ CHR ''}'' # r) v (w' @ CHR ''}'' # r)"
      using Cons.prems(2) [of key v] Cons.prems(6) kv by (simp add: value_end_spaces)
    have "2 * length (text_member L fr k (key, v) @ w' @ CHR ''}'' # r) + 1 < Suc m" using Cons.prems(7) True kv m by simp
    from member_read [OF rd pr this, of acc] show ?thesis
      using True kv m new ws_spaces [OF Cons.prems(6)] by (simp add: json_space_def)
  next
    case False
    let ?t = "py_join (CHR '','' # w) (map (text_member L fr k) kvs) @ w' @ CHR ''}'' # r"
    have len: "2 * length (text_member L fr k (key, v) @ CHR '','' # w @ ?t) + 1 < Suc m"
      using Cons.prems(7) False kv m by (simp add: join_Cons)
    have rd: "reads (json_text L fr k v @ CHR '','' # w @ ?t) v (CHR '','' # w @ ?t)"
      using Cons.prems(2) [of key v] kv by simp
    have ws: "json_ws (w @ ?t) = ?t"
    proof -
      obtain key' v' ks where k': "kvs = (key', v') # ks" using False by (metis list.exhaust surj_pair)
      then obtain b where "ly_str L key' = CHR 0x22 # b" using Cons.prems(3) [of key' v'] by (auto simp: writes_def)
      then show ?thesis using k' ws_spaces [OF Cons.prems(5)] by (simp add: join_Cons json_space_def)
    qed
    have rest: "reads (json_text L fr k v' @ q) v' q" if "(k', v') \<in> set kvs" "value_end q" for k' v' q
      using that Cons.prems(2) [of k' v'] by auto
    have ih: "json_members m (acc @ [(key, v)]) ?t = Some (JObj ((acc @ [(key, v)]) @ kvs), r)"
    proof (rule Cons.IH [OF False])
      show "printable fr v' \<and> fits L v' \<and> writes L k'" if "(k', v') \<in> set kvs" for k' v' using that Cons.prems(3) [of k' v'] by simp
      show "distinct (map fst ((acc @ [(key, v)]) @ kvs))" using Cons.prems(4) kv by simp
      show "2 * length ?t + 1 < m" using len by simp
    qed (use rest Cons.prems(5,6) in auto)
    have c: "json_ws (CHR '','' # w @ ?t) = CHR '','' # w @ ?t" by (simp add: json_space_def)
    from member_read [OF rd pr len, of acc] ih ws new show ?thesis
      unfolding c list.case m kv by (simp add: False join_Cons)
  qed
qed simp

lemma reads_text:
  "printable fr v \<Longrightarrow> fits L v \<Longrightarrow> spaced L \<Longrightarrow> value_end r \<Longrightarrow> reads (json_text L fr k v @ r) v r"
proof (induction v arbitrary: r k)
  case (JFloat f)
  show ?case
  proof (cases f)
    case (Fin x)
    with JFloat show ?thesis by (intro readsI) (simp add: prints_float_def)
  qed (auto intro!: readsI simp: json_value.simps json_word_def startswith_def)
next
  case (JStr s)
  then obtain b where "ly_str L s = CHR 0x22 # b" "\<And>r. json_str (b @ r) = Some (s, r)" by (auto simp: writes_def)
  then show ?case by (intro readsI) (simp add: json_value.simps)
next
  case (JArr xs)
  show ?case
  proof (cases xs)
    case Nil
    then show ?thesis by (auto intro!: readsI simp: json_value.simps json_space_def)
  next
    case (Cons x ys)
    let ?t = "py_join (CHR '','' # ly_next L k) (map (json_text L fr (k + 1)) xs) @ ly_close L k @ CHR '']'' # r"
    have sp: "list_all json_space (ly_open L k)" "list_all json_space (ly_next L k)" "list_all json_space (ly_close L k)"
      using JArr.prems(3) by (simp_all add: spaced_def)
    obtain c t where ct: "?t = c # t" "\<not> json_space c" "c \<noteq> CHR '']''"
      using text_hd [of fr x L "k + 1"] JArr.prems(1,2) Cons by (auto simp: join_Cons)
    have "json_value n (CHR ''['' # ly_open L k @ ?t) = Some (JArr xs, r)" if n: "2 * length (CHR ''['' # ly_open L k @ ?t) < n" for n
    proof -
      obtain m where m: "n = Suc m" using n by (cases n) auto
      have "json_elems m [] ?t = Some (JArr ([] @ xs), r)"
        using JArr.IH JArr.prems Cons n m sp by (intro elems_text) auto
      then have "json_elems m [] (c # t) = Some (JArr xs, r)" by (simp only: ct append_Nil)
      then show ?thesis using ct(2,3) ws_spaces [OF sp(1), of "c # t"] unfolding ct(1) by (simp add: m json_value.simps)
    qed
    then show ?thesis using Cons by (simp add: reads_def)
  qed
next
  case (JObj kvs)
  show ?case
  proof (cases kvs)
    case Nil
    then show ?thesis by (auto intro!: readsI simp: json_value.simps json_space_def)
  next
    case (Cons kv ks)
    let ?t = "py_join (CHR '','' # ly_next L k) (map (text_member L fr (k + 1)) kvs) @ ly_close L k @ CHR ''}'' # r"
    have sp: "list_all json_space (ly_open L k)" "list_all json_space (ly_next L k)" "list_all json_space (ly_close L k)"
      using JObj.prems(3) by (simp_all add: spaced_def)
    have "writes L (fst kv)" using JObj.prems(2) Cons by (cases kv) simp
    then obtain t where ct: "?t = CHR 0x22 # t"
      using Cons by (cases kv) (auto simp: join_Cons writes_def)
    have "json_value n (CHR ''{'' # ly_open L k @ ?t) = Some (JObj kvs, r)" if n: "2 * length (CHR ''{'' # ly_open L k @ ?t) < n" for n
    proof -
      obtain m where m: "n = Suc m" using n by (cases n) auto
      have "json_members m [] ?t = Some (JObj ([] @ kvs), r)"
      proof (rule members_text)
        show "kvs \<noteq> []" using Cons by simp
        show "reads (json_text L fr (k + 1) v @ q) v q" if "(key, v) \<in> set kvs" "value_end q" for key v q
          using JObj.IH [of "(key, v)" v q "k + 1"] JObj.prems that by (auto simp: snds.simps)
        show "printable fr v \<and> fits L v \<and> writes L key" if "(key, v) \<in> set kvs" for key v using JObj.prems(1,2) that by auto
        show "distinct (map fst ([] @ kvs))" using JObj.prems(1) by simp
        show "2 * length ?t + 1 < m" using n m by simp
      qed (rule sp)+
      then have "json_members m [] (CHR 0x22 # t) = Some (JObj kvs, r)" by (simp only: ct append_Nil)
      then show ?thesis using ws_spaces [OF sp(1), of "CHR 0x22 # t"] unfolding ct by (simp add: m json_value.simps json_space_def)
    qed
    then show ?thesis using Cons by (simp add: reads_def)
  qed
qed (auto intro!: readsI json_word_int simp: json_value.simps json_word_def startswith_def)

subsection \<open>The round trip\<close>

lemma loads_text:
  assumes "printable fr v" and "fits L v" and "spaced L"
  shows "json_loads (json_text L fr k v) = Some v"
proof -
  have "json_ws (json_text L fr k v) = json_text L fr k v" using text_ws [OF assms(1,2), of k "[]"] by simp
  moreover have "reads (json_text L fr k v) v []" using reads_text [OF assms, of "[]" k] by simp
  ultimately show ?thesis by (simp add: json_loads_def reads_def)
qed

lemma loads_dumps_value: "printable fr v \<Longrightarrow> json_loads (json_dumps fr v) = Some v"
  using loads_text [of fr v plain_layout 0] by (simp add: json_text_plain)

text \<open>A printed value is a single line: no control character survives the escaping.\<close>

lemma concat_escape_clean: "d \<in> set (concat (map escape_char s)) \<Longrightarrow> 32 \<le> (of_char d :: nat)"
  using escape_char_clean by auto

lemma set_py_join: "set (py_join sep xs) \<subseteq> set sep \<union> (\<Union>x \<in> set xs. set x)"
  by (induction sep xs rule: py_join.induct) auto

definition clean :: "string \<Rightarrow> bool" where
  "clean s \<longleftrightarrow> (\<forall>c \<in> set s. 32 \<le> (of_char c :: nat))"

lemma clean_simps [simp]: "clean []" "clean (c # s) \<longleftrightarrow> 32 \<le> (of_char c :: nat) \<and> clean s"
  "clean (s @ t) \<longleftrightarrow> clean s \<and> clean t"
  by (auto simp: clean_def)

lemma clean_join: "clean sep \<Longrightarrow> (\<And>x. x \<in> set xs \<Longrightarrow> clean x) \<Longrightarrow> clean (py_join sep xs)"
  using set_py_join [of sep xs] by (auto simp: clean_def)

lemma clean_dumps_str: "clean (dumps_str s)"
  using concat_escape_clean [of _ s] by (auto simp: dumps_str_def clean_def)

lemma clean_nat_digits: "clean (nat_digits n)"
  using nat_digits_digits [of _ n] by (force simp: clean_def is_digit_def Let_def)

lemma clean_dumps: "printable fr v \<Longrightarrow> clean (json_dumps fr v)"
proof (induction v)
  case (JInt i)
  then show ?case by (simp add: str_int_def clean_nat_digits)
next
  case (JFloat f)
  then show ?case by (cases f) (simp_all add: prints_float_def clean_def)
next
  case (JArr xs)
  then show ?case by (auto intro!: clean_join)
next
  case (JObj kvs)
  have "clean (dumps_member fr (k, v))" if "(k, v) \<in> set kvs" for k v
    using JObj.IH [of "(k, v)" v] JObj.prems that by (auto simp: clean_dumps_str snds.simps)
  then show ?case by (auto intro!: clean_join)
qed (simp_all add: clean_dumps_str)

lemma clean_no_newline: "clean s \<Longrightarrow> CHR 0x0A \<notin> set s"
  by (auto simp: clean_def)

subsection \<open>Sorting the keys\<close>

lemma sort_keys_printable: "printable fr v \<Longrightarrow> printable fr (sort_keys v)"
proof (induction v)
  case (JObj kvs)
  let ?kvs = "map (\<lambda>(k, v). (k, sort_keys v)) kvs"
  have m: "map fst ?kvs = map fst kvs" by (induction kvs) auto
  have "distinct (map fst ?kvs)" unfolding m using JObj.prems by simp
  then have "distinct (map fst (sort_key fst ?kvs))"
    by (metis distinct_map distinct_sort set_sort)
  moreover have "printable fr (sort_keys v)" if "(k, v) \<in> set kvs" for k v
    using JObj.IH [of "(k, v)" v] JObj.prems that by (auto simp: snds.simps)
  ultimately show ?case by auto
qed auto

text \<open>A printer of two floats, for the witnesses.\<close>

definition demo_fr :: "real \<Rightarrow> string" where
  "demo_fr x = (if x = 1 / 2 then ''0.5'' else ''1.0'')"

lemma demo_prints: "prints_float demo_fr (1 / 2)"
proof -
  have "json_value (Suc n) (''0.5'' @ r) = Some (JFloat (Fin (1 / 2)), r)" if "value_end r" for n r
    using value_end_plain [OF that] that
    by (cases r) (auto simp: json_value.simps json_word_def startswith_def json_number_def json_fraction_def is_digit_def
        value_end_def json_space_def Let_def digits_val_def digit_val_def to_pyfloat_def float_limit_def json_exponent_def)
  then show ?thesis by (simp add: prints_float_def demo_fr_def json_space_def)
qed

end
