(* ===== verification/Audit_Log.thy ===== *)
theory Audit_Log
  imports Json_Out
begin

section \<open>The metadata-only audit log (gateway/audit.py)\<close>

text \<open>
  One record per request, appended to a file. The log is the list of records written; an
  append that fails (a full disk, a text that cannot be encoded) is swallowed, so \<open>write\<close>
  never raises. The lock makes each append atomic, which one list append is. \<open>model\<close> and
  the two token counts come from a request or an upstream body, so they can be any JSON
  value. The text of the file is the lines of its records, printed by \<open>json.dumps\<close> with sorted keys.
\<close>

record audit_record =
  au_timestamp :: string
  au_event :: string
  au_keyid :: "string option"
  au_subject :: "string option"
  au_auth_method :: "string option"
  au_model :: json
  au_status :: int
  au_latency_ms :: real
  au_prompt_tokens :: json
  au_completion_tokens :: json
  au_upstream :: "string option"
  au_reason :: "string option"
  au_streamed :: bool

type_synonym audit_log = "audit_record list"

definition json_opt :: "string option \<Rightarrow> json" where
  "json_opt v = (case v of None \<Rightarrow> JNull | Some s \<Rightarrow> JStr s)"

text \<open>\<open>asdict\<close>, with the keys in the order \<open>sort_keys\<close> prints them.\<close>

definition audit_payload :: "audit_record \<Rightarrow> (string \<times> json) list" where
  "audit_payload r =
     [(''auth_method'', json_opt (au_auth_method r)),
      (''completion_tokens'', au_completion_tokens r),
      (''event'', JStr (au_event r)),
      (''keyid'', json_opt (au_keyid r)),
      (''latency_ms'', JFloat (Fin (au_latency_ms r))),
      (''model'', au_model r),
      (''prompt_tokens'', au_prompt_tokens r),
      (''reason'', json_opt (au_reason r)),
      (''status'', JInt (au_status r)),
      (''streamed'', JBool (au_streamed r)),
      (''subject'', json_opt (au_subject r)),
      (''timestamp'', JStr (au_timestamp r)),
      (''upstream'', json_opt (au_upstream r))]"

definition audit_write :: "bool \<Rightarrow> audit_record \<Rightarrow> audit_log \<Rightarrow> audit_log" where
  "audit_write io_ok r lg = (if io_ok then lg @ [r] else lg)"

lemma audit_write_keeps: "set lg \<subseteq> set (audit_write io_ok r lg)"
  by (auto simp: audit_write_def)

lemma audit_write_last: "audit_write True r lg = lg @ [r]"
  by (simp add: audit_write_def)

lemma audit_keys_distinct: "distinct (map fst (audit_payload r))"
  by (simp add: audit_payload_def)

subsection \<open>The file\<close>

definition audit_value :: "audit_record \<Rightarrow> json" where
  "audit_value r = sort_keys (JObj (audit_payload r))"

definition audit_line :: "(real \<Rightarrow> string) \<Rightarrow> audit_record \<Rightarrow> string" where
  "audit_line fr r = json_dumps fr (audit_value r) @ [CHR 0x0A]"

definition audit_text :: "(real \<Rightarrow> string) \<Rightarrow> audit_log \<Rightarrow> string" where
  "audit_text fr lg = concat (map (audit_line fr) lg)"

text \<open>What a record must be for its line to read back: its floats printed by a \<open>repr\<close> that can be
  read back, and the three fields that come from outside printable.\<close>

definition audit_printable :: "(real \<Rightarrow> string) \<Rightarrow> audit_record \<Rightarrow> bool" where
  "audit_printable fr r \<longleftrightarrow>
     prints_float fr (au_latency_ms r) \<and> short_int (au_status r) \<and> printable fr (au_model r) \<and>
     printable fr (au_prompt_tokens r) \<and> printable fr (au_completion_tokens r)"

lemma printable_json_opt [simp]: "printable fr (json_opt v)"
  by (simp add: json_opt_def split: option.split)

lemma payload_printable: "audit_printable fr r \<Longrightarrow> printable fr (audit_value r)"
  unfolding audit_value_def by (intro sort_keys_printable) (simp add: audit_printable_def audit_payload_def)

lemma split_lines:
  "(\<And>x. x \<in> set xs \<Longrightarrow> CHR 0x0A \<notin> set x) \<Longrightarrow>
     split_on CHR 0x0A (concat (map (\<lambda>x. x @ [CHR 0x0A]) xs)) = xs @ [[]]"
  by (induction xs) (simp_all add: split_on_append)

lemma audit_reads_back:
  assumes "\<And>r. r \<in> set lg \<Longrightarrow> audit_printable fr r"
  shows "map json_loads (butlast (split_on CHR 0x0A (audit_text fr lg))) =
     map (\<lambda>r. Some (audit_value r)) lg"
proof -
  let ?out = "\<lambda>r. json_dumps fr (audit_value r)"
  have nonl: "CHR 0x0A \<notin> set x" if "x \<in> set (map ?out lg)" for x
    using that assms payload_printable clean_dumps clean_no_newline by auto
  have "split_on CHR 0x0A (audit_text fr lg) = map ?out lg @ [[]]"
    using split_lines [of "map ?out lg", OF nonl] by (simp add: audit_text_def audit_line_def [abs_def] comp_def)
  moreover have "json_loads (?out r) = Some (audit_value r)" if "r \<in> set lg" for r
    using assms [OF that] payload_printable loads_dumps_value by blast
  ultimately show ?thesis by simp
qed

lemma audit_writes: "foldl (\<lambda>lg (io_ok, r). audit_write io_ok r lg) lg ws = lg @ [r. (io_ok, r) \<leftarrow> ws, io_ok]"
  by (induction ws arbitrary: lg) (auto simp: audit_write_def)

text \<open>C34. The audit file reads back record by record: whatever values a request put into a record (a
  model name with quotes, newlines or control characters, any JSON value at all), the file
  is one line per record whose write succeeded, in the order of the writes, and each line
  parses back into exactly that record's fields, so no caller can forge, split or hide a line.\<close>

theorem audit_file_reads_back:
  assumes "\<And>io_ok r. (io_ok, r) \<in> set ws \<Longrightarrow> audit_printable fr r"
  shows "map json_loads (butlast (split_on CHR 0x0A (audit_text fr
       (foldl (\<lambda>lg (io_ok, r). audit_write io_ok r lg) [] ws)))) =
     [Some (audit_value r). (io_ok, r) \<leftarrow> ws, io_ok]"
proof -
  have "audit_printable fr r" if "r \<in> set [r. (io_ok, r) \<leftarrow> ws, io_ok]" for r
    using that assms by auto
  note all = audit_reads_back [of "[r. (io_ok, r) \<leftarrow> ws, io_ok]", OF this]
  have "map (\<lambda>r. Some (audit_value r)) [r. (io_ok, r) \<leftarrow> ws, io_ok] = [Some (audit_value r). (io_ok, r) \<leftarrow> ws, io_ok]"
    by (induction ws) auto
  with all show ?thesis by (simp add: audit_writes)
qed

definition demo_record :: audit_record where
  "demo_record =
     \<lparr>au_timestamp = ''t'', au_event = ''chat.completions'', au_keyid = Some ''a1'', au_subject = Some ''key:a1'',
      au_auth_method = Some ''apikey'', au_model = JStr [CHR 0x22, CHR 0x0A, CHR ''}''], au_status = 400,
      au_latency_ms = 1 / 2, au_prompt_tokens = JInt 0, au_completion_tokens = JInt 0, au_upstream = None,
      au_reason = Some ''model_not_allowed'', au_streamed = False\<rparr>"

theorem audit_file_reads_back_witness:
  "map json_loads (butlast (split_on CHR 0x0A (audit_text demo_fr
      (foldl (\<lambda>lg (io_ok, r). audit_write io_ok r lg) [] [(True, demo_record), (False, demo_record)])))) =
     [Some (audit_value demo_record)]"
proof -
  have "nat_digits 400 = ''400''" "nat_digits 0 = ''0''" by (simp_all add: nat_digits.simps char_of_digits)
  then have "audit_printable demo_fr demo_record"
    using demo_prints by (simp add: audit_printable_def demo_record_def short_int_def max_str_digits_def)
  then show ?thesis
    using audit_file_reads_back [of "[(True, demo_record), (False, demo_record)]" demo_fr] by auto
qed

end
