(* ===== verification/Chat.thy ===== *)
theory Chat
  imports Client Quota Auth Audit_Log
begin

section \<open>The chat route (gateway/routes/chat.py)\<close>

text \<open>
  One handler per request, from the raw body to the response, and the relay of a streamed
  answer. The state is everything the process shares: pool, metrics, quota and audit log.
  \<open>chat_env\<close> gathers what the outside answers: the network of \<open>Client\<close>, the closing of a
  stream, what other tasks do while a chunk is awaited, clock readings, and whether the audit
  file can be written. A token count that is a float is outside the model (the counters are
  integers here); the model says \<open>Not_modelled\<close> there.
\<close>

subsection \<open>State and environment\<close>

record gateway = client_state +
  gw_quota :: quota_tracker
  gw_audit :: audit_log

record chat_env =
  ce_net :: "gateway net"
  ce_close :: "gateway \<Rightarrow> py_exn option \<times> gateway"
  ce_chunk :: "nat \<Rightarrow> gateway \<Rightarrow> gateway"
  ce_timestamp :: string
  ce_latency_ms :: real
  ce_ttft :: real
  ce_audit_ok :: bool
  ce_repr :: "real \<Rightarrow> string"

datatype chat_response =
    Http_error int string "(string \<times> string) list"
  | Json_response json
  | Event_stream string response
  | Failed py_failure

text \<open>A crash is an exception nothing in the handler catches; the framework answers 500.\<close>

subsection \<open>Rejection\<close>

definition write_audit ::
  "chat_env \<Rightarrow> principal \<Rightarrow> json \<Rightarrow> int \<Rightarrow> json \<Rightarrow> json \<Rightarrow> string option \<Rightarrow> string option \<Rightarrow> bool \<Rightarrow>
   gateway \<Rightarrow> gateway" where
  "write_audit env p model status prompt completion upstream reason streamed st =
     st\<lparr>gw_audit := audit_write (ce_audit_ok env)
          \<lparr>au_timestamp = ce_timestamp env, au_event = ''chat.completions'', au_keyid = pr_keyid p,
           au_subject = Some (pr_subject p), au_auth_method = Some (pr_method p), au_model = model,
           au_status = status, au_latency_ms = ce_latency_ms env, au_prompt_tokens = prompt,
           au_completion_tokens = completion, au_upstream = upstream, au_reason = reason,
           au_streamed = streamed\<rparr> (gw_audit st)\<rparr>"

definition reject ::
  "chat_env \<Rightarrow> int \<Rightarrow> string \<Rightarrow> principal \<Rightarrow> json \<Rightarrow> (string \<times> string) list \<Rightarrow> gateway \<Rightarrow>
   chat_response \<times> gateway" where
  "reject env status reason p model headers st =
     (let st = st\<lparr>cs_metrics := record_rejection reason (cs_metrics st)\<rparr>;
          st = write_audit env p model status (JInt 0) (JInt 0) None (Some reason) False st
      in (Http_error status reason headers, st))"

subsection \<open>Validation\<close>

text \<open>What is left of the body when it passes: the model, the body to forward and whether the
  caller asked for a stream; or the status, reason and model of the rejection, or a crash.\<close>

datatype refusal = Refuse int string json | Crash py_exn

fun estimate_prompt_tokens :: "(real \<Rightarrow> string) \<Rightarrow> json list \<Rightarrow> py_exn + int" where
  "estimate_prompt_tokens fr [] = Inr 0"
| "estimate_prompt_tokens fr (m # ms) =
     (case m of
        JObj o' \<Rightarrow>
          bindE (estimate_prompt_tokens fr ms) (\<lambda>n.
            Inr (int (length (py_split (py_str fr (get_default o' ''content'' (JStr []))))) + n))
      | _ \<Rightarrow> Inl AttributeError)"

definition clamp_max_tokens :: "settings \<Rightarrow> json \<Rightarrow> (string \<times> json) list \<Rightarrow> refusal + (string \<times> json) list" where
  "clamp_max_tokens cfg model body =
     (let requested = get_default body ''max_tokens'' JNull in
      if requested = JNull then Inr (dict_set ''max_tokens'' (JInt (MAX_COMPLETION_TOKENS cfg)) body)
      else
        (case py_int requested of
           Inl e \<Rightarrow> if e = TypeError \<or> e = ValueError then Inl (Refuse 400 ''max_tokens_invalid'' model) else Inl (Crash e)
         | Inr wanted \<Rightarrow>
             if wanted < 1 then Inl (Refuse 400 ''max_tokens_invalid'' model)
             else Inr (dict_set ''max_tokens'' (JInt (min wanted (MAX_COMPLETION_TOKENS cfg))) body)))"

definition model_allowed :: "settings \<Rightarrow> json \<Rightarrow> bool" where
  "model_allowed cfg model = (case model of JStr s \<Rightarrow> s \<in> set (ALLOWED_MODELS cfg) | _ \<Rightarrow> False)"

definition chat_validate ::
  "settings \<Rightarrow> (real \<Rightarrow> string) \<Rightarrow> principal \<Rightarrow> string \<Rightarrow> refusal + json \<times> (string \<times> json) list \<times> bool" where
  "chat_validate cfg fr p raw =
     (if int (length raw) > MAX_BODY_BYTES cfg then Inl (Refuse 413 ''body_too_large'' JNull)
      else
        (case json_loads_bytes raw of
           None \<Rightarrow> Inl (Refuse 400 ''invalid_json'' JNull)
         | Some (JObj body) \<Rightarrow>
             (let model = get_default body ''model'' JNull in
              if \<not> has_scope p ''chat'' then Inl (Refuse 403 ''scope_denied'' model)
              else if \<not> model_allowed cfg model then Inl (Refuse 400 ''model_not_allowed'' model)
              else
                (case get_default body ''messages'' JNull of
                   JArr (m # ms) \<Rightarrow>
                     (case estimate_prompt_tokens fr (m # ms) of
                        Inl e \<Rightarrow> Inl (Crash e)
                      | Inr n \<Rightarrow>
                          if n > MAX_PROMPT_TOKENS cfg then Inl (Refuse 400 ''prompt_too_long'' model)
                          else
                            bindE (clamp_max_tokens cfg model body) (\<lambda>body.
                              Inr (model, body, json_truth (get_default body ''stream'' JNull))))
                 | _ \<Rightarrow> Inl (Refuse 400 ''messages_required'' model)))
         | Some _ \<Rightarrow> Inl (Refuse 400 ''invalid_body'' JNull)))"

subsection \<open>Quota\<close>

text \<open>The budget check and the slot: the reason of a refusal, or the key to release later and
  the tracker.\<close>

definition quota_gate :: "principal \<Rightarrow> quota_tracker \<Rightarrow> string + string option \<times> quota_tracker" where
  "quota_gate p q =
     bindE (case (pr_keyid p, pr_token_budget p) of
              (Some k, Some b) \<Rightarrow> check_budget q k b
            | _ \<Rightarrow> Inr ()) (\<lambda>_.
       case (pr_keyid p, pr_max_concurrency p) of
         (Some k, Some c) \<Rightarrow> bindE (acquire q k c) (\<lambda>q. Inr (Some k, q))
       | _ \<Rightarrow> Inr (None, q))"

definition release_slot :: "string option \<Rightarrow> gateway \<Rightarrow> gateway" where
  "release_slot k st = (case k of None \<Rightarrow> st | Some k \<Rightarrow> st\<lparr>gw_quota := release (gw_quota st) k\<rparr>)"

subsection \<open>Counting tokens\<close>

text \<open>A reported token count, once it is truthy, as \<open>Counter.inc\<close> takes it: a negative number
  is a \<open>ValueError\<close>, a text or a container a \<open>TypeError\<close>.\<close>

fun token_count :: "json \<Rightarrow> py_failure + int" where
  "token_count (JInt i) = (if i < 0 then Inl (Raises ValueError) else Inr i)"
| "token_count (JBool b) = Inr (if b then 1 else 0)"
| "token_count (JFloat f) = Inl Not_modelled"
| "token_count JNull = Inr 0"
| "token_count _ = Inl (Raises TypeError)"

definition count_kind :: "string \<Rightarrow> string \<Rightarrow> json \<Rightarrow> gateway \<Rightarrow> py_failure + int \<times> gateway" where
  "count_kind label kind v st =
     (if \<not> json_truth v then Inr (0, st)
      else bindE (token_count v) (\<lambda>n.
        Inr (n, st\<lparr>cs_metrics := (cs_metrics st)\<lparr>tokens_total :=
                     inc (label, kind) n (tokens_total (cs_metrics st))\<rparr>\<rparr>)))"

definition charge_usage ::
  "settings \<Rightarrow> json \<Rightarrow> (string \<times> json) list \<Rightarrow> string option \<Rightarrow> gateway \<Rightarrow> py_failure option \<times> gateway" where
  "charge_usage cfg model usage keyid st =
     (let label = safe_model cfg model;
          prompt = get_default usage ''prompt_tokens'' JNull;
          completion = get_default usage ''completion_tokens'' JNull
      in if prompt = JNull \<and> completion = JNull then
           (None, st\<lparr>cs_metrics := (cs_metrics st)\<lparr>requests_missing_usage_total :=
                       inc label 1 (requests_missing_usage_total (cs_metrics st))\<rparr>\<rparr>)
         else
           (case count_kind label ''prompt'' prompt st of
              Inl e \<Rightarrow> (Some e, st)
            | Inr (n, st) \<Rightarrow>
                (case count_kind label ''completion'' completion st of
                   Inl e \<Rightarrow> (Some e, st)
                 | Inr (m, st) \<Rightarrow>
                     (None, case keyid of
                              None \<Rightarrow> st
                            | Some k \<Rightarrow> st\<lparr>gw_quota := record_usage (gw_quota st) k (n + m)\<rparr>))))"

subsection \<open>Streaming: before the first byte\<close>

definition stream_body :: "(string \<times> json) list \<Rightarrow> (string \<times> json) list" where
  "stream_body body =
     (let (v, body) = dict_setdefault ''stream_options'' (JObj []) body;
          options = (case v of JObj o' \<Rightarrow> o' | _ \<Rightarrow> [])
      in dict_set ''stream_options'' (JObj (snd (dict_setdefault ''include_usage'' (JBool True) options))) body)"

definition MAX_ERROR_BODY_BYTES :: nat where "MAX_ERROR_BODY_BYTES = 64 * 1024"

text \<open>Whether the drain stops for the bound before the stream's own end.\<close>

fun drained_early :: "nat \<Rightarrow> string list \<Rightarrow> bool" where
  "drained_early seen [] = False"
| "drained_early seen (c # cs) =
     (seen + length c \<ge> MAX_ERROR_BODY_BYTES \<or> drained_early (seen + length c) cs)"

definition drain_error :: "chat_env \<Rightarrow> response \<Rightarrow> gateway \<Rightarrow> py_exn option \<times> gateway" where
  "drain_error env resp st =
     (let e = (if drained_early 0 (rs_chunks resp) then None else rs_end resp);
          passes = (case e of None \<Rightarrow> None | Some x \<Rightarrow> if is_Exception x then None else Some x);
          (ce, st) = ce_close env st
      in (case ce of Some x \<Rightarrow> Some x | None \<Rightarrow> passes, st))"

definition stream_open ::
  "settings \<Rightarrow> chat_env \<Rightarrow> principal \<Rightarrow> json \<Rightarrow> (string \<times> json) list \<Rightarrow> gateway \<Rightarrow>
   net_event list \<times> (send_failure + chat_response) \<times> gateway" where
  "stream_open cfg env p model body st =
     (let (tr, r, st) = open_stream cfg (ce_net env) ''/chat/completions'' (JObj (stream_body body)) st in
      case r of
        Inl e \<Rightarrow> (tr, Inl e, st)
      | Inr (upstream, resp) \<Rightarrow>
          if rs_status resp \<ge> 400 then
            (let (e, st) = drain_error env resp st in
             case e of
               Some x \<Rightarrow> (tr, Inl (Passed x), st)
             | None \<Rightarrow>
                 (let (h, st) = reject env (rs_status resp) ''upstream_error'' p model [] st in (tr, Inr h, st)))
          else (tr, Inr (Event_stream upstream resp), st))"

text \<open>\<open>_stream\<close>: any \<open>Exception\<close> on the way (the rejection is one) gives the slot back.\<close>

definition stream_start ::
  "settings \<Rightarrow> chat_env \<Rightarrow> principal \<Rightarrow> json \<Rightarrow> string option \<Rightarrow> (string \<times> json) list \<Rightarrow> gateway \<Rightarrow>
   net_event list \<times> (send_failure + chat_response) \<times> gateway" where
  "stream_start cfg env p model release_keyid body st =
     (let (tr, r, st) = stream_open cfg env p model body st;
          kept = (case r of
                    Inl (Passed x) \<Rightarrow> \<not> is_Exception x
                  | Inr (Event_stream u resp) \<Rightarrow> True
                  | _ \<Rightarrow> False)
      in (tr, r, if kept then st else release_slot release_keyid st))"

subsection \<open>The handler\<close>

definition retry_after_header :: "pyfloat \<Rightarrow> py_exn + (string \<times> string) list" where
  "retry_after_header wait =
     (case wait of
        Fin x \<Rightarrow> Inr [(''Retry-After'', str_int (max 1 \<lceil>x\<rceil>))]
      | NaN \<Rightarrow> Inl ValueError
      | _ \<Rightarrow> Inl OverflowError)"

definition upstream_failure ::
  "chat_env \<Rightarrow> principal \<Rightarrow> json \<Rightarrow> send_failure \<Rightarrow> gateway \<Rightarrow> chat_response \<times> gateway" where
  "upstream_failure env p model e st =
     (case e of
        AllReplicasOpen wait \<Rightarrow>
          (case retry_after_header wait of
             Inl x \<Rightarrow> (Failed (Raises x), st)
           | Inr headers \<Rightarrow> reject env 503 ''all_replicas_open'' p model headers st)
      | UpstreamUnreachable x u \<Rightarrow> reject env 502 ''upstream_unreachable'' p model [] st
      | Passed x \<Rightarrow> (Failed (Raises x), st))"

definition answer_complete ::
  "settings \<Rightarrow> chat_env \<Rightarrow> principal \<Rightarrow> json \<Rightarrow> string \<Rightarrow> response \<Rightarrow> gateway \<Rightarrow> chat_response \<times> gateway" where
  "answer_complete cfg env p model upstream resp st =
     (case (if rs_status resp < 400 then json_loads_bytes (rs_content resp) else Some (JObj [])) of
        None \<Rightarrow> reject env 502 ''upstream_bad_response'' p model [] st
      | Some (JObj payload) \<Rightarrow>
          (case py_or (get_default payload ''usage'' JNull) (JObj []) of
             JObj usage \<Rightarrow>
               (case charge_usage cfg model usage (pr_keyid p) st of
                  (Some e, st) \<Rightarrow> (Failed e, st)
                | (None, st) \<Rightarrow>
                    (let st = write_audit env p model (rs_status resp)
                                (get_default usage ''prompt_tokens'' (JInt 0))
                                (get_default usage ''completion_tokens'' (JInt 0)) (Some upstream)
                                (if rs_status resp < 400 then None else Some ''upstream_error'') False st
                     in if rs_status resp \<ge> 400 then (Http_error (rs_status resp) ''upstream error'' [], st)
                        else (Json_response (JObj payload), st)))
           | _ \<Rightarrow> (Failed (Raises AttributeError), st))
      | Some _ \<Rightarrow> (Failed (Raises AttributeError), st))"

definition chat_forward ::
  "settings \<Rightarrow> chat_env \<Rightarrow> principal \<Rightarrow> json \<Rightarrow> (string \<times> json) list \<Rightarrow> bool \<Rightarrow> string option \<Rightarrow> gateway \<Rightarrow>
   net_event list \<times> chat_response \<times> gateway" where
  "chat_forward cfg env p model body streaming release_keyid st =
     (if streaming then
        (let (tr, r, st) = stream_start cfg env p model release_keyid body st in
         case r of
           Inl e \<Rightarrow> (let (h, st) = upstream_failure env p model e st in (tr, h, st))
         | Inr h \<Rightarrow> (tr, h, st))
      else
        (let (tr, r, st) = request cfg (ce_net env) ''/chat/completions'' (JObj body) st in
         case r of
           Inl e \<Rightarrow>
             (let (h, st) = upstream_failure env p model e st in (tr, h, release_slot release_keyid st))
         | Inr (upstream, resp) \<Rightarrow>
             (let (h, st) = answer_complete cfg env p model upstream resp (release_slot release_keyid st)
              in (tr, h, st))))"

definition chat_completions ::
  "settings \<Rightarrow> chat_env \<Rightarrow> principal \<Rightarrow> string \<Rightarrow> gateway \<Rightarrow> net_event list \<times> chat_response \<times> gateway" where
  "chat_completions cfg env p raw st =
     (case chat_validate cfg (ce_repr env) p raw of
        Inl (Crash e) \<Rightarrow> ([], Failed (Raises e), st)
      | Inl (Refuse status reason model) \<Rightarrow>
          (let (h, st) = reject env status reason p model [] st in ([], h, st))
      | Inr (model, body, streaming) \<Rightarrow>
          (case quota_gate p (gw_quota st) of
             Inl reason \<Rightarrow> (let (h, st) = reject env 429 reason p model [] st in ([], h, st))
           | Inr (release_keyid, q) \<Rightarrow>
               chat_forward cfg env p model body streaming release_keyid (st\<lparr>gw_quota := q\<rparr>)))"

subsection \<open>The relay of a stream\<close>

fun split_event :: "string \<Rightarrow> (string \<times> string) option" where
  "split_event [] = None"
| "split_event (c # cs) =
     (if startswith (c # cs) [CHR 0x0A, CHR 0x0A] then Some ([], drop 2 (c # cs))
      else map_option (\<lambda>(e, r). (c # e, r)) (split_event cs))"

fun parse_usage_lines :: "string list \<Rightarrow> py_exn + (string \<times> json) list option" where
  "parse_usage_lines [] = Inr None"
| "parse_usage_lines (line # rest) =
     (if \<not> startswith line ''data:'' then parse_usage_lines rest
      else
        (let text = bytes_strip (drop (length ''data:'') line) in
         if text = ''[DONE]'' then Inr None
         else
           (case json_loads_bytes text of
              None \<Rightarrow> Inr None
            | Some (JObj payload) \<Rightarrow>
                (case get_default payload ''usage'' JNull of
                   JObj usage \<Rightarrow> Inr (Some usage)
                 | _ \<Rightarrow> parse_usage_lines rest)
            | Some _ \<Rightarrow> Inl AttributeError)))"

definition parse_usage_frame :: "string \<Rightarrow> py_exn + (string \<times> json) list option" where
  "parse_usage_frame raw_event = parse_usage_lines (split_on CHR 0x0A raw_event)"

text \<open>What the relay keeps of the bytes so far: the unfinished event and the last usage seen, or
  the exception a frame raised (the buffer is never read again then).\<close>

datatype scan_state = Scanning string "(string \<times> json) list" | Frame_raised py_exn "(string \<times> json) list"

lemma split_event_less: "split_event s = Some (e, r) \<Longrightarrow> length r < length s"
  by (induction s arbitrary: e r) (auto split: if_splits)

function scan_events :: "string \<Rightarrow> (string \<times> json) list \<Rightarrow> scan_state" where
  "scan_events buf usage =
     (case split_event buf of
        None \<Rightarrow> Scanning buf usage
      | Some (raw_event, buf) \<Rightarrow>
          (case parse_usage_frame raw_event of
             Inl e \<Rightarrow> Frame_raised e usage
           | Inr None \<Rightarrow> scan_events buf usage
           | Inr (Some u) \<Rightarrow> scan_events buf u))"
  by pat_completeness auto
termination by (relation "measure (\<lambda>(buf, usage). length buf)") (auto dest: split_event_less)

declare scan_events.simps [simp del]

definition feed_chunk :: "scan_state \<Rightarrow> string \<Rightarrow> scan_state" where
  "feed_chunk s chunk =
     (case s of Scanning buf usage \<Rightarrow> scan_events (buf @ chunk) usage | Frame_raised e usage \<Rightarrow> s)"

definition ERROR_FRAMES :: "string list" where
  "ERROR_FRAMES =
     [''data: {'' @ [CHR 0x22] @ ''error'' @ [CHR 0x22] @ '': {'' @ [CHR 0x22] @ ''message'' @ [CHR 0x22] @ '': '' @
        [CHR 0x22] @ ''upstream stream failed'' @ [CHR 0x22] @ '', '',
      [CHR 0x22] @ ''type'' @ [CHR 0x22] @ '': '' @ [CHR 0x22] @ ''upstream_stream_broken'' @ [CHR 0x22] @ ''}}'' @
        [CHR 0x0A, CHR 0x0A]]"

definition observe_ttft :: "settings \<Rightarrow> chat_env \<Rightarrow> json \<Rightarrow> gateway \<Rightarrow> gateway" where
  "observe_ttft cfg env model st =
     st\<lparr>cs_metrics := (cs_metrics st)\<lparr>time_to_first_token_seconds :=
          observe_value (safe_model cfg model) (ce_ttft env) (time_to_first_token_seconds (cs_metrics st))\<rparr>\<rparr>"

text \<open>The loop over the chunks: what it yields, the last usage, the exception that ends it (the
  stream's own end, if no frame raises before) and the state.\<close>

fun relay_loop ::
  "settings \<Rightarrow> chat_env \<Rightarrow> json \<Rightarrow> py_exn option \<Rightarrow> nat \<Rightarrow> bool \<Rightarrow> string \<Rightarrow> (string \<times> json) list \<Rightarrow>
   string list \<Rightarrow> gateway \<Rightarrow> string list \<times> (string \<times> json) list \<times> py_exn option \<times> gateway" where
  "relay_loop cfg env model ending i first buf usage [] st = ([], usage, ending, ce_chunk env i st)"
| "relay_loop cfg env model ending i first buf usage (chunk # chunks) st =
     (let st = ce_chunk env i st;
          st = (if first \<and> chunk \<noteq> [] then observe_ttft cfg env model st else st);
          first = (first \<and> chunk = [])
      in case scan_events (buf @ chunk) usage of
           Frame_raised e usage \<Rightarrow> ([], usage, Some e, st)
         | Scanning buf usage \<Rightarrow>
             (let (out, usage, e, st) = relay_loop cfg env model ending (i + 1) first buf usage chunks st
              in (chunk # out, usage, e, st)))"

text \<open>\<open>relay\<close>: the chunks it yields, what it raises at its end, and the state.\<close>

definition relay ::
  "settings \<Rightarrow> chat_env \<Rightarrow> principal \<Rightarrow> json \<Rightarrow> string option \<Rightarrow> string \<Rightarrow> response \<Rightarrow> gateway \<Rightarrow>
   string list \<times> py_failure option \<times> gateway" where
  "relay cfg env p model release_keyid upstream resp st =
     (let (out, usage, e, st) = relay_loop cfg env model (rs_end resp) 0 True [] [] (rs_chunks resp) st;
          broken = (case e of None \<Rightarrow> False | Some x \<Rightarrow> is_Exception x);
          (out, st) = (if broken
             then (out @ ERROR_FRAMES, st\<lparr>cs_metrics := record_rejection ''upstream_stream_broken'' (cs_metrics st)\<rparr>)
             else (out, st));
          (ce, st) = ce_close env st
      in case ce of
           Some x \<Rightarrow> (out, Some (Raises x), st)
         | None \<Rightarrow>
             (let st = release_slot release_keyid st;
                  (ue, st) = charge_usage cfg model usage (pr_keyid p) st
              in case ue of
                   Some f \<Rightarrow> (out, Some f, st)
                 | None \<Rightarrow>
                     (out, (if broken then None else map_option Raises e),
                      write_audit env p model (rs_status resp)
                        (py_or (get_default usage ''prompt_tokens'' (JInt 0)) (JInt 0))
                        (py_or (get_default usage ''completion_tokens'' (JInt 0)) (JInt 0)) (Some upstream)
                        (if broken then Some ''upstream_stream_broken'' else None) True st)))"

end
