(* ===== verification/Chat_Laws.thy ===== *)
theory Chat_Laws
  imports Chat
begin

section \<open>What the chat route promises\<close>

text \<open>
  Properties of the handler and of the relay: what reaches a GPU, what is recorded, that
  slots balance, that a stream passes through unchanged.
\<close>

subsection \<open>Validation\<close>

lemma model_allowed_iff: "model_allowed cfg m \<longleftrightarrow> (\<exists>s. m = JStr s \<and> s \<in> set (ALLOWED_MODELS cfg))"
  by (simp add: model_allowed_def split: json.split)

lemma chat_validate_Inr:
  assumes "chat_validate cfg fr p raw = Inr (model, body', streaming)"
  shows "\<exists>body ms n. int (length raw) \<le> MAX_BODY_BYTES cfg \<and> json_loads_bytes raw = Some (JObj body) \<and>
     has_scope p ''chat'' \<and> get_default body ''model'' JNull = model \<and>
     model_allowed cfg model \<and> get_default body ''messages'' JNull = JArr ms \<and> ms \<noteq> [] \<and>
     estimate_prompt_tokens fr ms = Inr n \<and> n \<le> MAX_PROMPT_TOKENS cfg \<and>
     clamp_max_tokens cfg model body = Inr body' \<and>
     streaming = json_truth (get_default body' ''stream'' JNull)"
  using assms
  by (auto simp: chat_validate_def bindE_Inr Let_def
      split: if_splits option.splits json.splits list.splits sum.splits)

lemma chat_validate_refuse:
  "chat_validate cfg fr p raw = Inl (Refuse status reason model) \<Longrightarrow>
   reason \<in> set REJECT_REASONS \<and> status \<in> {400, 403, 413}"
  by (auto simp: chat_validate_def clamp_max_tokens_def bindE_Inl Let_def REJECT_REASONS_def
      split: if_splits option.splits json.splits list.splits sum.splits)

lemma get_default_set: "get_default (dict_set k v d) k' dv = (if k' = k then v else get_default d k' dv)"
  by (simp add: get_default_def)

lemma stream_body_get: "k \<noteq> ''stream_options'' \<Longrightarrow> dict_get (stream_body b) k = dict_get b k"
  by (simp add: stream_body_def dict_setdefault_def Let_def split: option.split)

lemma stream_open_bodies:
  "stream_open cfg env p model body st = (tr, r, st') \<Longrightarrow> set (sent_bodies tr) \<subseteq> {JObj (stream_body body)}"
  by (auto simp: stream_open_def Let_def split: prod.splits sum.splits if_splits option.splits
      dest!: with_retry_bodies)

lemma chat_forward_bodies:
  "chat_forward cfg env p model body streaming rk st = (tr, h, st') \<Longrightarrow>
   set (sent_bodies tr) \<subseteq> {JObj (if streaming then stream_body body else body)}"
  by (auto simp: chat_forward_def stream_start_def Let_def split: prod.splits sum.splits if_splits
      dest!: with_retry_bodies stream_open_bodies)

lemma chat_completions_sent:
  assumes "chat_completions cfg env p raw st = (tr, h, st')" and "b \<in> set (sent_bodies tr)"
  shows "\<exists>model body streaming. chat_validate cfg (ce_repr env) p raw = Inr (model, body, streaming) \<and>
     b = JObj (if streaming then stream_body body else body)"
proof (cases "chat_validate cfg (ce_repr env) p raw")
  case (Inl e)
  with assms show ?thesis
    by (cases e) (auto simp: chat_completions_def split: prod.splits)
next
  case (Inr v)
  obtain model body streaming where v: "v = (model, body, streaming)" by (cases v)
  with assms Inr show ?thesis
    by (auto simp: chat_completions_def split: sum.splits prod.splits dest!: chat_forward_bodies)
qed

text \<open>The ceiling on the completion a caller may ask for, and the usage frame a stream is asked for
  unless the caller declined it.\<close>

definition ceiled :: "settings \<Rightarrow> (string \<times> json) list \<Rightarrow> int \<Rightarrow> bool" where
  "ceiled cfg body t \<longleftrightarrow>
     (let requested = get_default body ''max_tokens'' JNull in
      if requested = JNull then t = MAX_COMPLETION_TOKENS cfg
      else (\<exists>wanted \<ge> 1. py_int requested = Inr wanted \<and> t = min wanted (MAX_COMPLETION_TOKENS cfg)))"

definition usage_asked :: "json option \<Rightarrow> json option \<Rightarrow> bool" where
  "usage_asked given sent \<longleftrightarrow>
     (let options = (case given of Some (JObj o') \<Rightarrow> o' | _ \<Rightarrow> []) in
      \<exists>opts. sent = Some (JObj opts) \<and>
        (\<forall>k. dict_get opts k = (if k = ''include_usage'' then Some (get_default options k (JBool True)) else dict_get options k)))"

lemma clamp_ceiled:
  "clamp_max_tokens cfg model body = Inr body' \<Longrightarrow>
   \<exists>t. body' = dict_set ''max_tokens'' (JInt t) body \<and> ceiled cfg body t"
  by (auto simp: clamp_max_tokens_def ceiled_def Let_def split: if_splits sum.splits)

lemma stream_body_usage: "usage_asked (dict_get b ''stream_options'') (dict_get (stream_body b) ''stream_options'')"
  by (auto simp: usage_asked_def stream_body_def dict_setdefault_def get_default_def Let_def split: option.split json.split)

text \<open>C2. Only a validated request reaches a replica, and what reaches it is the caller's body but for the
  two fields the gateway owns. Whatever bytes arrive, every body sent comes from a JSON object within the
  size limit, of a principal with the \<open>chat\<close> scope, for an allowed model, with a non-empty message
  list estimated within the prompt limit. Its \<open>max_tokens\<close> is the integer the caller asked for, at least
  1, cut to the ceiling, or the ceiling when none was asked for. When the caller asked for a stream, its
  \<open>stream_options\<close> are the caller's (none, if they were no object) with \<open>include_usage\<close> true unless
  the caller had set it; otherwise they are untouched. Every other field is the caller's.\<close>

theorem only_validated_bodies_are_sent:
  assumes "chat_completions cfg env p raw st = (tr, h, st')" and "b \<in> set (sent_bodies tr)"
  shows "\<exists>body sent s ms n t. b = JObj sent \<and> int (length raw) \<le> MAX_BODY_BYTES cfg \<and>
     json_loads_bytes raw = Some (JObj body) \<and> has_scope p ''chat'' \<and>
     dict_get body ''model'' = Some (JStr s) \<and> s \<in> set (ALLOWED_MODELS cfg) \<and>
     dict_get body ''messages'' = Some (JArr ms) \<and> ms \<noteq> [] \<and>
     estimate_prompt_tokens (ce_repr env) ms = Inr n \<and> n \<le> MAX_PROMPT_TOKENS cfg \<and>
     dict_get sent ''max_tokens'' = Some (JInt t) \<and> ceiled cfg body t \<and>
     (if json_truth (get_default body ''stream'' JNull)
      then usage_asked (dict_get body ''stream_options'') (dict_get sent ''stream_options'')
      else dict_get sent ''stream_options'' = dict_get body ''stream_options'') \<and>
     (\<forall>k. k \<notin> {''max_tokens'', ''stream_options''} \<longrightarrow> dict_get sent k = dict_get body k)"
proof -
  obtain model body' streaming where
    v: "chat_validate cfg (ce_repr env) p raw = Inr (model, body', streaming)"
    and b: "b = JObj (if streaming then stream_body body' else body')"
    using chat_completions_sent [OF assms] by blast
  obtain body ms n where f: "int (length raw) \<le> MAX_BODY_BYTES cfg" "json_loads_bytes raw = Some (JObj body)"
    "has_scope p ''chat''" "get_default body ''model'' JNull = model" "model_allowed cfg model"
    "get_default body ''messages'' JNull = JArr ms" "ms \<noteq> []" "estimate_prompt_tokens (ce_repr env) ms = Inr n"
    "n \<le> MAX_PROMPT_TOKENS cfg" "clamp_max_tokens cfg model body = Inr body'"
    "streaming = json_truth (get_default body' ''stream'' JNull)"
    using chat_validate_Inr [OF v] by blast
  obtain s where s: "model = JStr s" "s \<in> set (ALLOWED_MODELS cfg)" using f(5) by (auto simp: model_allowed_iff)
  have got: "get_default d k JNull = x \<Longrightarrow> x \<noteq> JNull \<Longrightarrow> dict_get d k = Some x" for d k x
    by (auto simp: get_default_def split: option.splits)
  obtain t where t: "body' = dict_set ''max_tokens'' (JInt t) body" "ceiled cfg body t"
    using clamp_ceiled [OF f(10)] by blast
  have str: "streaming = json_truth (get_default body ''stream'' JNull)" using f(11) t(1) by (simp add: get_default_set)
  let ?sent = "if streaming then stream_body body' else body'"
  have sent: "dict_get ?sent k = dict_get body' k" if "k \<noteq> ''stream_options''" for k
    using that by (simp add: stream_body_get)
  show ?thesis
  proof (intro exI conjI)
    show "b = JObj ?sent" by (rule b)
    show "dict_get body ''model'' = Some (JStr s)" using got [OF f(4)] s(1) by simp
    show "dict_get body ''messages'' = Some (JArr ms)" using got [OF f(6)] by simp
    show "dict_get ?sent ''max_tokens'' = Some (JInt t)" using sent [of "''max_tokens''"] t(1) by simp
    show "if json_truth (get_default body ''stream'' JNull)
      then usage_asked (dict_get body ''stream_options'') (dict_get ?sent ''stream_options'')
      else dict_get ?sent ''stream_options'' = dict_get body ''stream_options''"
      using stream_body_usage [of body'] t(1) by (simp add: str)
    show "\<forall>k. k \<notin> {''max_tokens'', ''stream_options''} \<longrightarrow> dict_get ?sent k = dict_get body k"
      using sent t(1) by simp
  qed (use f t s(2) in simp_all)
qed

subsection \<open>A request to play with\<close>

definition quo :: string where "quo = [CHR 0x22]"

definition demo_raw :: string where
  "demo_raw = ''{'' @ quo @ ''model'' @ quo @ '':'' @ quo @ ''Qwen/Qwen3-8B-AWQ'' @ quo @ '','' @ quo @ ''messages'' @ quo @
     '':[{'' @ quo @ ''content'' @ quo @ '':'' @ quo @ ''hi'' @ quo @ ''}]}''"

definition demo_body :: "(string \<times> json) list" where
  "demo_body = [(''model'', JStr ''Qwen/Qwen3-8B-AWQ''), (''messages'', JArr [JObj [(''content'', JStr ''hi'')]])]"

definition demo_sent :: "(string \<times> json) list" where
  "demo_sent = demo_body @ [(''max_tokens'', JInt 2048)]"

definition demo_principal :: principal where
  "demo_principal = \<lparr>pr_subject = ''key:a1'', pr_scopes = [JStr ''chat''], pr_method = ''apikey'',
     pr_keyid = Some ''a1'', pr_token_budget = Some 9, pr_max_concurrency = Some 1\<rparr>"

definition demo_answer :: string where
  "demo_answer = ''{'' @ quo @ ''usage'' @ quo @ '':{'' @ quo @ ''prompt_tokens'' @ quo @ '':3,'' @ quo @
     ''completion_tokens'' @ quo @ '':4}}''"

definition demo_response :: response where
  "demo_response = \<lparr>rs_status = 200, rs_headers = Map.empty, rs_content = demo_answer, rs_chunks = [], rs_end = None\<rparr>"

definition quiet_env :: "http_outcome \<Rightarrow> chat_env" where
  "quiet_env x = \<lparr>ce_net = still_net x 1, ce_close = (\<lambda>st. (None, st)), ce_chunk = (\<lambda>_ st. st), ce_timestamp = ''t'',
     ce_latency_ms = 1, ce_ttft = 1, ce_audit_ok = True, ce_repr = (\<lambda>_. [])\<rparr>"

definition demo_gateway :: gateway where
  "demo_gateway = \<lparr>cs_pool = cs_pool fresh_single, cs_metrics = new_metrics, gw_quota = new_quota, gw_audit = []\<rparr>"

lemma demo_loads: "json_loads_bytes demo_raw = Some (JObj demo_body)"
  by code_simp

lemma demo_answer_loads:
  "json_loads_bytes demo_answer = Some (JObj [(''usage'', JObj [(''prompt_tokens'', JInt 3), (''completion_tokens'', JInt 4)])])"
  by code_simp

lemma demo_length: "length demo_raw < 1000"
  by (simp add: demo_raw_def quo_def)

lemma demo_scope: "has_scope demo_principal ''chat''"
  by (simp add: has_scope_def demo_principal_def)

lemma demo_principal_simps:
  "pr_keyid demo_principal = Some ''a1''" "pr_max_concurrency demo_principal = Some 1"
  "pr_token_budget demo_principal = Some 9"
  by (simp_all add: demo_principal_def)

lemma demo_limits [simp]:
  "MAX_BODY_BYTES default_settings = 1048576" "MAX_PROMPT_TOKENS default_settings = 7000"
  "MAX_COMPLETION_TOKENS default_settings = 2048"
  by (simp_all add: default_settings_def)

lemma demo_validates_for:
  "has_scope p ''chat'' \<Longrightarrow>
     chat_validate default_settings fr p demo_raw = Inr (JStr ''Qwen/Qwen3-8B-AWQ'', demo_sent, False)"
  using demo_length
  by (simp add: chat_validate_def demo_loads demo_body_def get_default_def model_allowed_def
      default_models py_split_def py_space_def clamp_max_tokens_def demo_sent_def Let_def)

lemma demo_validates:
  "chat_validate default_settings fr demo_principal demo_raw = Inr (JStr ''Qwen/Qwen3-8B-AWQ'', demo_sent, False)"
  using demo_scope by (rule demo_validates_for)

lemma demo_gate:
  "quota_gate demo_principal new_quota = Inr (Some ''a1'', new_quota\<lparr>q_inflight := [''a1'' \<mapsto> 1]\<rparr>)"
  by (simp add: quota_gate_def demo_principal_def check_budget_def acquire_def new_quota_def tokens_used_def)

text \<open>One send of a request on a pool with a single closed replica that answers well.\<close>

lemma single_answer:
  fixes st :: "'a client_state_scheme"
  assumes "BREAKER_ENABLED cfg" and "pool_ok (cs_pool st)" and "up_urls (cs_pool st) = [u]"
    and "up_client (cs_pool st) \<noteq> None" and "rb_state (breaker_of (cs_pool st) u) = CLOSED" and "rs_status resp < 400"
  shows "\<exists>p m. with_retry cfg (still_net (Answer resp) t) path body stream st =
     ([Sent u (attempt_url path u) body (Inr (Answer resp))], Inr (u, resp), st\<lparr>cs_pool := p, cs_metrics := m\<rparr>)"
  using assms
  by (auto simp: with_retry_def retry_loop.simps [of _ _ _ _ _ 0] single_pick [OF assms(2,1,3)] send_and_record_def
      pool_client_def still_net_def count_upstream_def attempt_url_def Let_def) (intro exI, rule refl)

lemma single_cancel:
  fixes st :: "'a client_state_scheme"
  assumes "BREAKER_ENABLED cfg" and "pool_ok (cs_pool st)" and "up_urls (cs_pool st) = [u]"
    and "up_client (cs_pool st) \<noteq> None" and "rb_state (breaker_of (cs_pool st) u) = CLOSED"
  shows "\<exists>tr st'. with_retry cfg (still_net (Send_raised (Python CancelledError)) t) path body stream st =
     (tr, Inl (Passed CancelledError), st')"
  using assms
  by (auto simp: with_retry_def retry_loop.simps [of _ _ _ _ _ 0] single_pick [OF assms(2,1,3)] send_and_record_def
      pool_client_def still_net_def uncaught_def is_Exception_def attempt_url_def Let_def)

lemma demo_forwards:
  "\<exists>p m. with_retry default_settings (still_net (Answer demo_response) 1) path body stream
       (demo_gateway\<lparr>gw_quota := q\<rparr>) =
     ([Sent ''a'' (attempt_url path ''a'') body (Inr (Answer demo_response))], Inr (''a'', demo_response),
      demo_gateway\<lparr>gw_quota := q, cs_pool := p, cs_metrics := m\<rparr>)"
proof -
  have "rb_state (new_breaker ''a'' ''0'') = CLOSED" by (simp add: new_breaker_def)
  with single_answer [OF default_breaker, of "demo_gateway\<lparr>gw_quota := q\<rparr>" "''a''" demo_response 1 path body stream]
  show ?thesis by (simp add: demo_gateway_def fresh_single_simps demo_response_def)
qed

theorem only_validated_bodies_are_sent_witness:
  "\<exists>tr h st'. chat_completions default_settings (quiet_env (Answer demo_response)) demo_principal demo_raw demo_gateway
     = (tr, h, st') \<and> JObj demo_sent \<in> set (sent_bodies tr) \<and> dict_get demo_sent ''max_tokens'' = Some (JInt 2048)"
proof -
  let ?env = "quiet_env (Answer demo_response)"
  obtain p m where f: "with_retry default_settings (still_net (Answer demo_response) 1) ''/chat/completions'' (JObj demo_sent)
      False (demo_gateway\<lparr>gw_quota := new_quota\<lparr>q_inflight := [''a1'' \<mapsto> 1]\<rparr>\<rparr>) =
      ([Sent ''a'' (attempt_url ''/chat/completions'' ''a'') (JObj demo_sent) (Inr (Answer demo_response))],
       Inr (''a'', demo_response), demo_gateway\<lparr>gw_quota := new_quota\<lparr>q_inflight := [''a1'' \<mapsto> 1]\<rparr>, cs_pool := p, cs_metrics := m\<rparr>)"
    using demo_forwards by blast
  have g: "gw_quota demo_gateway = new_quota" by (simp add: demo_gateway_def)
  have c: "\<exists>h st'. chat_completions default_settings ?env demo_principal demo_raw demo_gateway =
      ([Sent ''a'' (attempt_url ''/chat/completions'' ''a'') (JObj demo_sent) (Inr (Answer demo_response))], h, st')"
    using f by (auto simp: chat_completions_def demo_validates g demo_gate chat_forward_def quiet_env_def split: prod.splits)
  then obtain h st' where h: "chat_completions default_settings ?env demo_principal demo_raw demo_gateway =
      ([Sent ''a'' (attempt_url ''/chat/completions'' ''a'') (JObj demo_sent) (Inr (Answer demo_response))], h, st')" by blast
  from only_validated_bodies_are_sent [OF h, of "JObj demo_sent"] h show ?thesis
    by (auto simp: demo_sent_def demo_body_def)
qed

subsection \<open>Refusals\<close>

lemma reject_effect:
  assumes "reason \<in> set REJECT_REASONS" and "ce_audit_ok env"
  shows "\<exists>r st'. reject env status reason p model headers st = (Http_error status reason headers, st') \<and>
     gw_audit st' = gw_audit st @ [r] \<and> au_status r = status \<and> au_reason r = Some reason \<and> au_model r = model \<and>
     au_keyid r = pr_keyid p \<and> au_prompt_tokens r = JInt 0 \<and> au_completion_tokens r = JInt 0 \<and>
     cs_pool st' = cs_pool st \<and> gw_quota st' = gw_quota st \<and>
     cs_metrics st' = (cs_metrics st)\<lparr>rejections_total := inc reason 1 (rejections_total (cs_metrics st))\<rparr>"
  using assms by (simp add: reject_def write_audit_def audit_write_def record_rejection_known)

lemma reject_fields [simp]:
  "gw_quota (snd (reject env status reason p model headers st)) = gw_quota st"
  "cs_pool (snd (reject env status reason p model headers st)) = cs_pool st"
  "fst (reject env status reason p model headers st) = Http_error status reason headers"
  by (simp_all add: reject_def write_audit_def Let_def)

text \<open>C27. A request the gateway refuses before forwarding costs nothing and is recorded once: no
  send, no slot, no token, no breaker moves; exactly one audit record and one count, both with
  the reason the caller is told, which is one of the known reasons; the status is 400, 403,
  413 or, for a quota, 429.\<close>

theorem refused_once_and_free:
  assumes "ce_audit_ok env"
    and "chat_validate cfg (ce_repr env) p raw = Inl (Refuse status reason model) \<or>
         (\<exists>body streaming. chat_validate cfg (ce_repr env) p raw = Inr (model, body, streaming) \<and>
            quota_gate p (gw_quota st) = Inl reason \<and> status = 429)"
  shows "\<exists>r st'. chat_completions cfg env p raw st = ([], Http_error status reason [], st') \<and>
     reason \<in> set REJECT_REASONS \<and> status \<in> {400, 403, 413, 429} \<and>
     gw_audit st' = gw_audit st @ [r] \<and> au_status r = status \<and> au_reason r = Some reason \<and> au_model r = model \<and>
     cs_pool st' = cs_pool st \<and> gw_quota st' = gw_quota st \<and>
     cs_metrics st' = (cs_metrics st)\<lparr>rejections_total := inc reason 1 (rejections_total (cs_metrics st))\<rparr>"
proof -
  have "chat_completions cfg env p raw st = (let (h, st) = reject env status reason p model [] st in ([], h, st))"
    using assms(2) by (auto simp: chat_completions_def)
  moreover have "reason \<in> set REJECT_REASONS \<and> status \<in> {400, 403, 413, 429}"
    using assms(2)
  proof (elim disjE exE conjE)
    assume "chat_validate cfg (ce_repr env) p raw = Inl (Refuse status reason model)"
    then show ?thesis using chat_validate_refuse by blast
  next
    assume "quota_gate p (gw_quota st) = Inl reason" and "status = 429"
    then show ?thesis
      by (auto simp: quota_gate_def bindE_Inl check_budget_Inl acquire_Inl REJECT_REASONS_def split: option.splits)
  qed
  ultimately show ?thesis
    using reject_effect [of reason env status p model "[]" st] assms(1) by auto
qed

theorem refused_once_and_free_witness:
  "\<exists>r st'. chat_completions default_settings (quiet_env (Answer demo_response))
        (demo_principal\<lparr>pr_scopes := []\<rparr>) demo_raw demo_gateway = ([], Http_error 403 ''scope_denied'' [], st') \<and>
     gw_audit st' = [r] \<and> au_status r = 403"
proof -
  let ?p = "demo_principal\<lparr>pr_scopes := []\<rparr>"
  have v: "chat_validate default_settings (ce_repr (quiet_env (Answer demo_response))) ?p demo_raw =
      Inl (Refuse 403 ''scope_denied'' (JStr ''Qwen/Qwen3-8B-AWQ''))"
    using demo_length
    by (simp add: chat_validate_def demo_loads has_scope_def demo_body_def get_default_def Let_def)
  have a: "ce_audit_ok (quiet_env (Answer demo_response))" by (simp add: quiet_env_def)
  from refused_once_and_free [OF a disjI1 [OF v], of demo_gateway] show ?thesis
    by (auto simp: demo_gateway_def)
qed

text \<open>Two malformed bodies are not refused but crash the handler, which the framework answers
  with a 500 and nothing records: a \<open>max_tokens\<close> that JSON reads as an infinity (\<open>Infinity\<close> or
  \<open>1e999\<close>), whose \<open>int()\<close> raises an \<open>OverflowError\<close> the handler does not catch, and a message
  that is not an object.\<close>

theorem unguarded_values_crash:
  assumes "int (length raw) \<le> MAX_BODY_BYTES cfg" and "json_loads_bytes raw = Some (JObj body)"
    and "has_scope p ''chat''" and "model_allowed cfg (get_default body ''model'' JNull)"
    and "get_default body ''messages'' JNull = JArr (m # ms)"
  shows "(estimate_prompt_tokens (ce_repr env) (m # ms) = Inr n \<and> n \<le> MAX_PROMPT_TOKENS cfg \<and>
            get_default body ''max_tokens'' JNull \<in> {JFloat PInf, JFloat NInf} \<longrightarrow>
          chat_completions cfg env p raw st = ([], Failed (Raises OverflowError), st)) \<and>
         ((\<forall>x. m \<noteq> JObj x) \<longrightarrow>
          chat_completions cfg env p raw st = ([], Failed (Raises AttributeError), st))"
proof (intro conjI impI)
  assume a: "estimate_prompt_tokens (ce_repr env) (m # ms) = Inr n \<and> n \<le> MAX_PROMPT_TOKENS cfg \<and>
      get_default body ''max_tokens'' JNull \<in> {JFloat PInf, JFloat NInf}"
  then have "clamp_max_tokens cfg (get_default body ''model'' JNull) body = Inl (Crash OverflowError)"
    by (auto simp: clamp_max_tokens_def)
  with a assms show "chat_completions cfg env p raw st = ([], Failed (Raises OverflowError), st)"
    by (simp add: chat_completions_def chat_validate_def Let_def del: estimate_prompt_tokens.simps)
next
  assume "\<forall>x. m \<noteq> JObj x"
  with assms show "chat_completions cfg env p raw st = ([], Failed (Raises AttributeError), st)"
    by (cases m) (simp_all add: chat_completions_def chat_validate_def Let_def)
qed

definition infinite_raw :: string where
  "infinite_raw = ''{'' @ quo @ ''model'' @ quo @ '':'' @ quo @ ''Qwen/Qwen3-8B-AWQ'' @ quo @ '','' @ quo @ ''messages'' @ quo @
     '':[{'' @ quo @ ''content'' @ quo @ '':'' @ quo @ ''hi'' @ quo @ ''}],'' @ quo @ ''max_tokens'' @ quo @ '':Infinity}''"

lemma infinite_loads:
  "json_loads_bytes infinite_raw = Some (JObj (demo_body @ [(''max_tokens'', JFloat PInf)]))"
  by code_simp

theorem unguarded_values_crash_witness:
  "chat_completions default_settings (quiet_env (Answer demo_response)) demo_principal infinite_raw demo_gateway =
   ([], Failed (Raises OverflowError), demo_gateway)"
proof -
  have l: "int (length infinite_raw) \<le> MAX_BODY_BYTES default_settings"
    by (simp add: infinite_raw_def quo_def)
  have m: "model_allowed default_settings (get_default (demo_body @ [(''max_tokens'', JFloat PInf)]) ''model'' JNull)"
    by (simp add: model_allowed_def get_default_def demo_body_def default_models)
  have ms: "get_default (demo_body @ [(''max_tokens'', JFloat PInf)]) ''messages'' JNull =
      JArr [JObj [(''content'', JStr ''hi'')]]"
    by (simp add: get_default_def demo_body_def)
  have "estimate_prompt_tokens (ce_repr (quiet_env (Answer demo_response))) [JObj [(''content'', JStr ''hi'')]] = Inr 1"
    by (simp add: get_default_def py_split_def py_space_def)
  then show ?thesis
    using unguarded_values_crash [OF l infinite_loads demo_scope m ms, of "quiet_env (Answer demo_response)" 1 demo_gateway]
    by (simp add: get_default_def demo_body_def)
qed

subsection \<open>Slots\<close>

text \<open>What other tasks do while this request awaits is arbitrary; to speak of this request's own
  slot, they are assumed to leave the in-flight count of its key alone.\<close>

definition env_keeps :: "(gateway \<Rightarrow> bool) \<Rightarrow> chat_env \<Rightarrow> bool" where
  "env_keeps P env \<longleftrightarrow>
     net_keeps P (ce_net env) \<and> (\<forall>st. P st \<longrightarrow> P (snd (ce_close env st))) \<and> (\<forall>i st. P st \<longrightarrow> P (ce_chunk env i st))"

definition others_keep_slots :: "chat_env \<Rightarrow> string \<Rightarrow> bool" where
  "others_keep_slots env k \<longleftrightarrow> (\<forall>n. env_keeps (\<lambda>st. inflight (gw_quota st) k = n) env)"

abbreviation slots :: "gateway \<Rightarrow> string \<Rightarrow> int" where
  "slots st k \<equiv> inflight (gw_quota st) k"

lemma slots_with_retry:
  assumes "others_keep_slots env k" and "with_retry cfg (ce_net env) path body stream st = (tr, r, st')"
  shows "slots st' k = slots st k"
proof -
  have keep: "net_keeps (\<lambda>s. slots s k = slots st k) (ce_net env)"
    using assms(1) by (simp add: others_keep_slots_def env_keeps_def)
  have "client_keeps cfg (\<lambda>s :: gateway. slots s k = slots st k)" by (simp add: client_keeps_def count_upstream_def Let_def)
  from with_retry_keeps [OF keep this, of st path body stream]
  have "slots (snd (snd (with_retry cfg (ce_net env) path body stream st))) k = slots st k" by simp
  with assms(2) show ?thesis by simp
qed

lemma slots_close: "others_keep_slots env k \<Longrightarrow> slots (snd (ce_close env st)) k = slots st k"
  by (auto simp: others_keep_slots_def env_keeps_def)

lemma slots_chunk: "others_keep_slots env k \<Longrightarrow> slots (ce_chunk env i st) k = slots st k"
  by (auto simp: others_keep_slots_def env_keeps_def)

lemma slots_drain: "others_keep_slots env k \<Longrightarrow> slots (snd (drain_error env resp st)) k = slots st k"
  using slots_close [of env k st] by (cases "ce_close env st") (simp add: drain_error_def)

lemma slots_write_audit [simp]: "gw_quota (write_audit env p model s a b u r x st) = gw_quota st"
  by (simp add: write_audit_def)

lemma slots_upstream_failure [simp]: "gw_quota (snd (upstream_failure env p model e st)) = gw_quota st"
  by (simp add: upstream_failure_def split: send_failure.split sum.split)

lemma slots_count_kind: "count_kind label kind v st = Inr (n, st') \<Longrightarrow> gw_quota st' = gw_quota st"
  by (auto simp: count_kind_def bindE_Inr split: if_splits)

lemma slots_charge [simp]: "slots (snd (charge_usage cfg model usage keyid st)) k = slots st k"
  by (auto simp: charge_usage_def Let_def split: sum.splits option.splits dest!: slots_count_kind)

lemma slots_answer: "slots (snd (answer_complete cfg env p model u resp st)) k = slots st k"
proof -
  have c: "slots st' k = slots st k" if "charge_usage cfg model usage (pr_keyid p) st = (e, st')" for e st' usage
    using slots_charge [of cfg model usage "pr_keyid p" st k] that by simp
  show ?thesis
    by (auto simp: answer_complete_def Let_def split: option.splits json.splits prod.splits dest!: c)
qed

lemma slots_release:
  "slots (release_slot rk st) k = (if rk = Some k then max 0 (slots st k - 1) else slots st k)"
  by (simp add: release_slot_def split: option.split)

lemma slots_stream_open:
  assumes "others_keep_slots env k" and "stream_open cfg env p model body st = (tr, r, st')"
  shows "slots st' k = slots st k"
proof -
  obtain tr1 r1 st1 where w: "open_stream cfg (ce_net env) ''/chat/completions'' (JObj (stream_body body)) st = (tr1, r1, st1)"
    by (metis prod_cases3)
  have s1: "slots st1 k = slots st k" using slots_with_retry [OF assms(1) w] .
  have d: "slots st2 k = slots st1 k" if "drain_error env resp st1 = (e, st2)" for resp e st2
    using slots_drain [OF assms(1), of resp st1] that by simp
  have j: "slots st3 k = slots st2 k" if "reject env s x p model hs st2 = (h, st3)" for s x hs st2 h st3
    using reject_fields(1) [of env s x p model hs st2] that by simp
  show ?thesis
    using assms(2) w s1
    by (auto simp: stream_open_def Let_def split: sum.splits prod.splits if_splits option.splits dest!: d j)
qed

lemma slots_forward:
  assumes keep: "others_keep_slots env k" and pos: "rk = Some k \<Longrightarrow> 1 \<le> slots st k"
    and f: "chat_forward cfg env p model body streaming rk st = (tr, h, st')"
  shows "slots st' k = slots st k -
     (if rk = Some k \<and> \<not> (streaming \<and> ((\<exists>u resp. h = Event_stream u resp) \<or> h = Failed (Raises CancelledError)))
      then 1 else 0)"
proof (cases streaming)
  case False
  obtain tr1 r st1 where w: "request cfg (ce_net env) ''/chat/completions'' (JObj body) st = (tr1, r, st1)"
    by (metis prod_cases3)
  note s1 = slots_with_retry [OF keep w]
  show ?thesis
  proof (cases r)
    case (Inl e)
    obtain h2 st2 where uf: "upstream_failure env p model e st1 = (h2, st2)" by fastforce
    have "gw_quota (snd (upstream_failure env p model e st1)) = gw_quota st1" by simp
    then have "gw_quota st2 = gw_quota st1" unfolding uf by simp
    then show ?thesis using f w s1 pos False Inl uf
      by (auto simp: chat_forward_def slots_release split: if_splits)
  next
    case (Inr ur)
    obtain u resp where ur: "ur = (u, resp)" by (cases ur)
    obtain h2 st2 where ac: "answer_complete cfg env p model u resp (release_slot rk st1) = (h2, st2)" by fastforce
    have "slots (snd (answer_complete cfg env p model u resp (release_slot rk st1))) k = slots (release_slot rk st1) k"
      by (rule slots_answer)
    then have "slots st2 k = slots (release_slot rk st1) k" unfolding ac by simp
    then show ?thesis using f w s1 pos False Inr ur ac
      by (auto simp: chat_forward_def slots_release split: if_splits)
  qed
next
  case True
  obtain tr1 r st1 where w: "stream_open cfg env p model body st = (tr1, r, st1)" by (metis prod_cases3)
  note s1 = slots_stream_open [OF keep w]
  show ?thesis
  proof (cases r)
    case (Inl e)
    have u: "slots (snd (upstream_failure env p model e st2)) k = slots st2 k" for st2 by simp
    have h: "h = fst (upstream_failure env p model e st2)" "st' = snd (upstream_failure env p model e st2)"
      if "st2 = (if \<exists>x. e = Passed x \<and> \<not> is_Exception x then st1 else release_slot rk st1)" for st2
      using f w True Inl that
      by (auto simp: chat_forward_def stream_start_def Let_def split: prod.splits send_failure.splits if_splits)
    show ?thesis
    proof (cases "\<exists>x. e = Passed x \<and> \<not> is_Exception x")
      case T: True
      then have "h = Failed (Raises CancelledError)" using h(1) by (auto simp: upstream_failure_def is_Exception_def)
      moreover have "slots st' k = slots st1 k" using h(2) T u by simp
      ultimately show ?thesis using True s1 by simp
    next
      case F: False
      then have "fst (upstream_failure env p model e st2) \<noteq> Failed (Raises CancelledError)" for st2
        by (auto simp: upstream_failure_def is_Exception_def retry_after_header_def reject_def Let_def
            split: send_failure.split sum.splits pyfloat.splits)
      moreover have "\<not> (\<exists>u resp. fst (upstream_failure env p model e st2) = Event_stream u resp)" for st2
        by (auto simp: upstream_failure_def reject_def Let_def split: send_failure.split sum.splits)
      moreover have "slots st' k = slots (release_slot rk st1) k" using h(2) F u by simp
      ultimately show ?thesis using h(1) F s1 pos by (auto simp: slots_release)
    qed
  next
    case (Inr x)
    have "(\<exists>s r hs. x = Http_error s r hs) \<or> (\<exists>u resp. x = Event_stream u resp)"
      using w Inr
      by (auto simp: stream_open_def reject_def Let_def split: prod.splits sum.splits if_splits option.splits)
    then show ?thesis using f w True Inr s1 pos
      by (auto simp: chat_forward_def stream_start_def slots_release Let_def split: prod.splits if_splits)
  qed
qed

lemma quota_gate_Inr:
  assumes "quota_gate p q = Inr (rk, q')"
  shows "(rk = Some k) = (pr_keyid p = Some k \<and> pr_max_concurrency p \<noteq> None) \<and>
     inflight q' k = inflight q k + (if rk = Some k then 1 else 0)"
  using assms
  by (auto simp: quota_gate_def bindE_Inr inflight_acquire split: option.splits)

lemma handler_slots:
  assumes "others_keep_slots env k" and "0 \<le> slots st k"
    and "chat_completions cfg env p raw st = (tr, h, st')"
  shows "slots st' k = slots st k +
     (if pr_keyid p = Some k \<and> pr_max_concurrency p \<noteq> None \<and>
         (\<exists>model body. chat_validate cfg (ce_repr env) p raw = Inr (model, body, True)) \<and>
         ((\<exists>u resp. h = Event_stream u resp) \<or> h = Failed (Raises CancelledError))
      then 1 else 0)"
proof (cases "chat_validate cfg (ce_repr env) p raw")
  case (Inl e)
  have "gw_quota st' = gw_quota st"
  proof (cases e)
    case (Refuse s r m)
    obtain h2 st2 where "reject env s r p m [] st = (h2, st2)" by fastforce
    moreover from this have "gw_quota st2 = gw_quota st" using reject_fields(1) [of env s r p m "[]" st] by simp
    ultimately show ?thesis using assms(3) Inl Refuse by (simp add: chat_completions_def)
  next
    case (Crash x)
    with assms(3) Inl show ?thesis by (simp add: chat_completions_def)
  qed
  with Inl show ?thesis by simp
next
  case (Inr v)
  obtain model body streaming where v: "v = (model, body, streaming)" by (cases v)
  show ?thesis
  proof (cases "quota_gate p (gw_quota st)")
    case (Inl reason)
    obtain h2 st2 where r: "reject env 429 reason p model [] st = (h2, st2)" by fastforce
    have "h2 = Http_error 429 reason [] \<and> gw_quota st2 = gw_quota st"
      using reject_fields [of env 429 reason p model "[]" st] by (simp add: r)
    with assms(3) Inr Inl v r show ?thesis by (auto simp: chat_completions_def)
  next
    case (Inr rq)
    obtain rk q where rq: "rq = (rk, q)" by (cases rq)
    have gate: "(rk = Some k) = (pr_keyid p = Some k \<and> pr_max_concurrency p \<noteq> None)"
      "slots (st\<lparr>gw_quota := q\<rparr>) k = slots st k + (if rk = Some k then 1 else 0)"
      using quota_gate_Inr [of p "gw_quota st" rk q k] Inr rq by simp_all
    have f: "chat_forward cfg env p model body streaming rk (st\<lparr>gw_quota := q\<rparr>) = (tr, h, st')"
      using assms(3) Inr \<open>chat_validate cfg (ce_repr env) p raw = Inr v\<close> v rq by (simp add: chat_completions_def)
    have "rk = Some k \<Longrightarrow> 1 \<le> slots (st\<lparr>gw_quota := q\<rparr>) k" using gate(2) assms(2) by simp
    from slots_forward [OF assms(1) this f] gate
      \<open>chat_validate cfg (ce_repr env) p raw = Inr v\<close> v show ?thesis by auto
  qed
qed

text \<open>C3. A request gives back the slot it takes, whatever happens: counting only this request's
  own effect, the in-flight count of every key is the same after the handler as before it, on
  success, refusal, upstream failure and crash alike. There are two exceptions, both for a
  streamed request of a key with a cap: when the handler hands a stream over, the slot is held
  for the relay; and when the handler is cancelled while it waits for the upstream, the slot
  is never given back, since \<open>except Exception\<close> does not see a cancellation.\<close>

theorem handler_returns_its_slot:
  assumes "others_keep_slots env k" and "0 \<le> slots st k"
    and "chat_completions cfg env p raw st = (tr, h, st')"
  shows "slots st' k = slots st k +
     (if pr_keyid p = Some k \<and> pr_max_concurrency p \<noteq> None \<and>
         (\<exists>model body. chat_validate cfg (ce_repr env) p raw = Inr (model, body, True)) \<and>
         ((\<exists>u resp. h = Event_stream u resp) \<or> h = Failed (Raises CancelledError))
      then 1 else 0)"
  using assms by (rule handler_slots)

lemma quiet_env_keeps: "others_keep_slots (quiet_env x) k"
  by (simp add: others_keep_slots_def env_keeps_def net_keeps_def quiet_env_def still_net_def)

definition stream_raw :: string where
  "stream_raw = ''{'' @ quo @ ''model'' @ quo @ '':'' @ quo @ ''Qwen/Qwen3-8B-AWQ'' @ quo @ '','' @ quo @ ''messages'' @ quo @
     '':[{'' @ quo @ ''content'' @ quo @ '':'' @ quo @ ''hi'' @ quo @ ''}],'' @ quo @ ''stream'' @ quo @ '':true}''"

lemma stream_loads: "json_loads_bytes stream_raw = Some (JObj (demo_body @ [(''stream'', JBool True)]))"
  by code_simp

lemma stream_validates:
  "chat_validate default_settings fr demo_principal stream_raw =
     Inr (JStr ''Qwen/Qwen3-8B-AWQ'', demo_body @ [(''stream'', JBool True), (''max_tokens'', JInt 2048)], True)"
proof -
  have "length stream_raw < 1000" by (simp add: stream_raw_def quo_def)
  then show ?thesis
    by (simp add: chat_validate_def stream_loads demo_scope demo_body_def get_default_def model_allowed_def
        default_models py_split_def py_space_def clamp_max_tokens_def Let_def)
qed

lemma cancelled_stream:
  "\<exists>tr st'. chat_completions default_settings (quiet_env (Send_raised (Python CancelledError))) demo_principal stream_raw
     demo_gateway = (tr, Failed (Raises CancelledError), st')"
proof -
  let ?st = "demo_gateway\<lparr>gw_quota := new_quota\<lparr>q_inflight := [''a1'' \<mapsto> 1]\<rparr>\<rparr>"
  have "rb_state (new_breaker ''a'' ''0'') = CLOSED" by (simp add: new_breaker_def)
  then have "\<exists>tr st'. with_retry default_settings (still_net (Send_raised (Python CancelledError)) 1) path body stream ?st =
      (tr, Inl (Passed CancelledError), st')" for path body stream
    using single_cancel [OF default_breaker, of ?st "''a''" 1 path body stream]
    by (simp add: demo_gateway_def fresh_single_simps)
  then obtain tr st' where "with_retry default_settings (still_net (Send_raised (Python CancelledError)) 1)
      ''/chat/completions'' (JObj (stream_body (demo_body @ [(''stream'', JBool True), (''max_tokens'', JInt 2048)]))) True ?st =
      (tr, Inl (Passed CancelledError), st')" by blast
  moreover have "gw_quota demo_gateway = new_quota" by (simp add: demo_gateway_def)
  ultimately show ?thesis
    by (simp add: chat_completions_def stream_validates demo_gate chat_forward_def stream_start_def stream_open_def
        quiet_env_def upstream_failure_def)
qed

theorem handler_returns_its_slot_witness:
  "\<exists>tr st'. chat_completions default_settings (quiet_env (Send_raised (Python CancelledError))) demo_principal stream_raw
     demo_gateway = (tr, Failed (Raises CancelledError), st') \<and> slots st' ''a1'' = 1"
proof -
  obtain tr st' where c: "chat_completions default_settings (quiet_env (Send_raised (Python CancelledError)))
      demo_principal stream_raw demo_gateway = (tr, Failed (Raises CancelledError), st')"
    using cancelled_stream by blast
  have "slots demo_gateway ''a1'' = 0" by (simp add: demo_gateway_def)
  with handler_returns_its_slot [OF quiet_env_keeps _ c, of "''a1''"] c show ?thesis
    by (simp add: stream_validates demo_principal_simps)
qed

end
