(* ===== verification/Relay_Laws.thy ===== *)
theory Relay_Laws
  imports Chat_Laws
begin

section \<open>What the relay of a stream promises\<close>

text \<open>
  The scanner that looks for usage frames is independent of how the bytes are cut into
  chunks, the bytes pass through unchanged, and the slot is given back at the end.
\<close>

subsection \<open>The scanner\<close>

lemma feed_chunk_simps [simp]:
  "feed_chunk (Scanning buf usage) c = scan_events (buf @ c) usage"
  "feed_chunk (Frame_raised e usage) c = Frame_raised e usage"
  by (simp_all add: feed_chunk_def)

lemma split_event_append: "split_event a = Some (e, r) \<Longrightarrow> split_event (a @ b) = Some (e, r @ b)"
proof (induction a arbitrary: e)
  case (Cons c cs)
  show ?case
  proof (cases "startswith (c # cs) [CHR 0x0A, CHR 0x0A]")
    case True
    then obtain t where "c # cs = [CHR 0x0A, CHR 0x0A] @ t" by (auto simp: startswith_iff)
    with Cons.prems True show ?thesis by (auto simp: startswith_def)
  next
    case False
    with Cons.prems obtain e' where e': "split_event cs = Some (e', r)" "e = c # e'"
      by (auto split: if_splits)
    then obtain d ds where "cs = d # ds" by (cases cs) auto
    with False have "\<not> startswith (c # cs @ b) [CHR 0x0A, CHR 0x0A]" by (simp add: startswith_def)
    with Cons.IH [OF e'(1)] e'(2) show ?thesis by simp
  qed
qed simp

lemma scan_none: "split_event buf = None \<Longrightarrow> scan_events buf usage = Scanning buf usage"
  by (simp add: scan_events.simps)

lemma scan_append: "scan_events (buf @ ys) usage = feed_chunk (scan_events buf usage) ys"
proof (induction buf usage rule: scan_events.induct)
  case (1 buf usage)
  show ?case
  proof (cases "split_event buf")
    case None
    then show ?thesis by (simp add: scan_none feed_chunk_def)
  next
    case (Some er)
    obtain e r where er: "er = (e, r)" by (cases er)
    have ys: "split_event (buf @ ys) = Some (e, r @ ys)" using Some er by (simp add: split_event_append)
    show ?thesis
    proof (cases "parse_usage_frame e")
      case (Inl x)
      then show ?thesis
        using Some er ys by (simp add: scan_events.simps [of buf] scan_events.simps [of "buf @ ys"] feed_chunk_def)
    next
      case (Inr o')
      then show ?thesis
        using Some er ys 1 by (cases o') (simp_all add: scan_events.simps [of buf] scan_events.simps [of "buf @ ys"])
    qed
  qed
qed

definition scan_good :: "scan_state \<Rightarrow> bool" where
  "scan_good s = (case s of Scanning buf usage \<Rightarrow> split_event buf = None | Frame_raised e usage \<Rightarrow> True)"

lemma scan_events_good: "scan_good (scan_events buf usage)"
proof (induction buf usage rule: scan_events.induct)
  case (1 buf usage)
  show ?case
  proof (cases "split_event buf")
    case None
    then show ?thesis by (simp add: scan_none scan_good_def)
  next
    case (Some er)
    obtain e r where er: "er = (e, r)" by (cases er)
    show ?thesis
    proof (cases "parse_usage_frame e")
      case (Inl x)
      then show ?thesis using Some er by (simp add: scan_events.simps [of buf] scan_good_def)
    next
      case (Inr o')
      then show ?thesis using Some er 1 by (cases o') (simp_all add: scan_events.simps [of buf])
    qed
  qed
qed

interpretation scanner: chunk_scanner feed_chunk scan_good
proof unfold_locales
  show "feed_chunk s (xs @ ys) = feed_chunk (feed_chunk s xs) ys" if "scan_good s" for s xs ys
  proof (cases s)
    case (Scanning buf usage)
    then show ?thesis using scan_append [of "buf @ xs" ys usage] by (simp add: feed_chunk_def)
  qed (simp add: feed_chunk_def)
  show "scan_good (feed_chunk s xs)" if "scan_good s" for s xs
    using that by (cases s) (simp_all add: scan_events_good)
  show "feed_chunk s [] = s" if "scan_good s" for s
    using that by (cases s) (simp_all add: feed_chunk_def scan_good_def scan_none)
qed

definition scan_all :: "string list \<Rightarrow> scan_state" where
  "scan_all chunks = foldl feed_chunk (Scanning [] []) chunks"

lemma scan_all_concat: "scan_all chunks = scan_events (concat chunks) []"
  using scanner.feed_concat [of "Scanning [] []" chunks] by (simp add: scan_all_def scan_good_def feed_chunk_def)

lemma parse_usage_lines_raises: "parse_usage_lines ls = Inl x \<Longrightarrow> x = AttributeError"
  by (induction ls) (auto simp: Let_def split: if_splits option.splits json.splits)

lemma scan_raises: "scan_events buf usage = Frame_raised x u \<Longrightarrow> x = AttributeError"
proof (induction buf usage rule: scan_events.induct)
  case (1 buf usage)
  then show ?case
    by (subst (asm) (2) scan_events.simps)
      (auto simp: parse_usage_frame_def split: option.splits sum.splits dest: parse_usage_lines_raises)
qed

lemma foldl_feed_raised [simp]: "foldl feed_chunk (Frame_raised x u) cs = Frame_raised x u"
  by (induction cs) (simp_all add: feed_chunk_def)

subsection \<open>The loop\<close>

text \<open>What the loop yields, finds and ends with depends on the scan alone.\<close>

lemma relay_loop_outcome:
  assumes "relay_loop cfg env model ending i first buf usage chunks st = (out, usage', e, st')"
  shows "case foldl feed_chunk (Scanning buf usage) chunks of
           Scanning b u \<Rightarrow> out = chunks \<and> usage' = u \<and> e = ending
         | Frame_raised x u \<Rightarrow> (\<exists>n < length chunks. out = take n chunks) \<and> usage' = u \<and> e = Some x"
  using assms
proof (induction chunks arbitrary: i first buf usage st out)
  case (Cons c chunks)
  show ?case
  proof (cases "scan_events (buf @ c) usage")
    case (Frame_raised x u)
    with Cons.prems show ?thesis by (auto simp: Let_def)
  next
    case (Scanning b u)
    define st1 where "st1 = (if first \<and> c \<noteq> [] then observe_ttft cfg env model (ce_chunk env i st) else ce_chunk env i st)"
    obtain out2 u2 e2 st2 where r: "relay_loop cfg env model ending (i + 1) (first \<and> c = []) b u chunks st1
        = (out2, u2, e2, st2)" by (metis prod_cases4)
    have o: "out = c # out2" "usage' = u2" "e = e2" "st' = st2"
      using Cons.prems Scanning r by (auto simp: st1_def [symmetric] Let_def)
    have f: "foldl feed_chunk (Scanning buf usage) (c # chunks) = foldl feed_chunk (Scanning b u) chunks"
      using Scanning by (simp add: feed_chunk_def)
    from Cons.IH [OF r [folded o(2-4)]] show ?thesis
      unfolding f o(1) by (auto split: scan_state.splits intro: exI [of _ "Suc _"])
  qed
qed simp

lemma relay_output:
  assumes "relay cfg env p model rk upstream resp st = (out, f, st')"
  shows "case scan_all (rs_chunks resp) of
           Scanning b u \<Rightarrow>
             out = rs_chunks resp @ (if \<exists>x. rs_end resp = Some x \<and> is_Exception x then ERROR_FRAMES else [])
         | Frame_raised x u \<Rightarrow>
             x = AttributeError \<and> (\<exists>n < length (rs_chunks resp). out = take n (rs_chunks resp) @ ERROR_FRAMES)"
proof -
  obtain out1 usage e st1 where l: "relay_loop cfg env model (rs_end resp) 0 True [] [] (rs_chunks resp) st
      = (out1, usage, e, st1)" by (metis prod_cases4)
  have out: "out = out1 @ (if \<exists>x. e = Some x \<and> is_Exception x then ERROR_FRAMES else [])"
    using assms l by (auto simp: relay_def Let_def split: prod.splits option.splits if_splits)
  from relay_loop_outcome [OF l, folded scan_all_def] out show ?thesis
    using scan_raises [of "concat (rs_chunks resp)" "[]"]
    by (auto simp: is_Exception_def scan_all_concat split: scan_state.splits)
qed

text \<open>C28. A stream passes through the gateway byte for byte, chunk by chunk: the caller receives
  exactly the chunks of the upstream, in order, followed by nothing when the upstream ended
  well, and by one explicit error event when it broke. The only other way a stream can end is
  a frame whose \<open>data:\<close> is JSON but no object: it cuts the stream short at some chunk,
  with the same error event.\<close>

theorem relay_passes_through:
  assumes "relay cfg env p model rk upstream resp st = (out, f, st')"
  shows "case scan_all (rs_chunks resp) of
           Scanning b u \<Rightarrow>
             out = rs_chunks resp @ (if \<exists>x. rs_end resp = Some x \<and> is_Exception x then ERROR_FRAMES else [])
         | Frame_raised x u \<Rightarrow>
             x = AttributeError \<and> (\<exists>n < length (rs_chunks resp). out = take n (rs_chunks resp) @ ERROR_FRAMES)"
  using assms by (rule relay_output)

definition nl :: string where "nl = [CHR 0x0A]"

text \<open>An upstream's stream of two events, the second with the usage, cut in an awkward place.\<close>

definition demo_events :: "string list" where
  "demo_events =
     [''data: {}'' @ nl, nl @ ''data: {'' @ quo @ ''usage'' @ quo @ '':{'' @ quo @ ''prompt_tokens'' @ quo @ '':5}}'' @ nl @ nl]"

definition demo_stream :: response where
  "demo_stream = \<lparr>rs_status = 200, rs_headers = Map.empty, rs_content = [], rs_chunks = demo_events, rs_end = Some ValueError\<rparr>"

lemma demo_scan: "scan_all demo_events = Scanning [] [(''prompt_tokens'', JInt 5)]"
  by code_simp

theorem relay_passes_through_witness:
  "\<exists>f st'. relay default_settings (quiet_env (Answer demo_response)) demo_principal JNull None ''a'' demo_stream demo_gateway
     = (demo_events @ ERROR_FRAMES, f, st')"
proof -
  obtain out f st' where r: "relay default_settings (quiet_env (Answer demo_response)) demo_principal JNull None ''a'' demo_stream demo_gateway
      = (out, f, st')" by (metis prod_cases3)
  from relay_passes_through [OF this] have "out = demo_events @ ERROR_FRAMES"
    by (simp add: demo_stream_def demo_scan is_Exception_def)
  with r show ?thesis by blast
qed

subsection \<open>How the bytes are cut does not matter\<close>

lemma relay_loop_state:
  assumes "\<And>i st. ce_chunk env i st = st" and "split_event buf = None"
    and "relay_loop cfg env model ending i first buf usage chunks st = (out, usage', e, st')"
  shows "st' = (if first \<and> (\<exists>c \<in> set chunks. c \<noteq> []) then observe_ttft cfg env model st else st)"
  using assms(2,3)
proof (induction chunks arbitrary: i first buf usage st out)
  case Nil
  then show ?case by (simp add: assms(1))
next
  case (Cons c chunks)
  define st1 where "st1 = (if first \<and> c \<noteq> [] then observe_ttft cfg env model st else st)"
  show ?case
  proof (cases "scan_events (buf @ c) usage")
    case (Frame_raised x u)
    then have "c \<noteq> []" using Cons.prems(1) scan_none by (cases c) auto
    with Frame_raised Cons.prems(2) show ?thesis by (auto simp: Let_def assms(1))
  next
    case (Scanning b u)
    obtain out2 u2 e2 st2 where r: "relay_loop cfg env model ending (i + 1) (first \<and> c = []) b u chunks st1
        = (out2, u2, e2, st2)" by (metis prod_cases4)
    have o: "out = c # out2" "usage' = u2" "e = e2" "st' = st2"
      using Cons.prems(2) Scanning r by (auto simp: st1_def [symmetric] Let_def assms(1))
    have "split_event b = None" using scan_events_good [of "buf @ c" usage] Scanning by (simp add: scan_good_def)
    from Cons.IH [OF this r [folded o(2-4)]] show ?thesis by (auto simp: st1_def)
  qed
qed

text \<open>C29. How the network cuts a stream into chunks is invisible in everything the gateway
  records: for two streams with the same bytes, the relay ends in the same state (the tokens
  charged, the metrics, the audit record, the slot, the exception), and, unless a frame
  cut it short, the bytes the caller receives are the same.\<close>

theorem relay_ignores_chunking:
  assumes "\<And>i st. ce_chunk env i st = st" and "concat chunks1 = concat chunks2"
    and "relay cfg env p model rk upstream (resp\<lparr>rs_chunks := chunks1\<rparr>) st = (out1, f1, st1)"
    and "relay cfg env p model rk upstream (resp\<lparr>rs_chunks := chunks2\<rparr>) st = (out2, f2, st2)"
  shows "f1 = f2 \<and> st1 = st2 \<and> ((\<forall>x u. scan_all chunks1 \<noteq> Frame_raised x u) \<longrightarrow> concat out1 = concat out2)"
proof -
  obtain o1 u1 e1 s1 where l1: "relay_loop cfg env model (rs_end resp) 0 True [] [] chunks1 st = (o1, u1, e1, s1)"
    by (metis prod_cases4)
  obtain o2 u2 e2 s2 where l2: "relay_loop cfg env model (rs_end resp) 0 True [] [] chunks2 st = (o2, u2, e2, s2)"
    by (metis prod_cases4)
  have same: "scan_all chunks1 = scan_all chunks2" using assms(2) by (simp add: scan_all_concat)
  have "(\<exists>c \<in> set chunks1. c \<noteq> []) = (\<exists>c \<in> set chunks2. c \<noteq> [])"
    using assms(2) by (metis concat_eq_Nil_conv)
  then have s: "s1 = s2"
    using relay_loop_state [OF assms(1) _ l1] relay_loop_state [OF assms(1) _ l2] by simp
  have ue: "u1 = u2 \<and> e1 = e2"
    using relay_loop_outcome [OF l1, folded scan_all_def] relay_loop_outcome [OF l2, folded scan_all_def] same
    by (auto split: scan_state.splits)
  have "f1 = f2 \<and> st1 = st2"
    using assms(3,4) l1 l2 s ue by (auto simp: relay_def Let_def split: prod.splits option.splits if_splits)
  moreover have "concat out1 = concat out2" if "\<forall>x u. scan_all chunks1 \<noteq> Frame_raised x u"
    using relay_output [OF assms(3)] relay_output [OF assms(4)] same assms(2) that
    by (auto split: scan_state.splits)
  ultimately show ?thesis by blast
qed

theorem relay_ignores_chunking_witness:
  "snd (relay default_settings (quiet_env (Answer demo_response)) demo_principal JNull None ''a'' demo_stream demo_gateway) =
   snd (relay default_settings (quiet_env (Answer demo_response)) demo_principal JNull None ''a''
          (demo_stream\<lparr>rs_chunks := [concat demo_events]\<rparr>) demo_gateway)"
proof -
  let ?relay = "\<lambda>chunks. relay default_settings (quiet_env (Answer demo_response)) demo_principal JNull None ''a''
          (demo_stream\<lparr>rs_chunks := chunks\<rparr>) demo_gateway"
  obtain out1 f1 st1 where r1: "?relay demo_events = (out1, f1, st1)" by (metis prod_cases3)
  obtain out2 f2 st2 where r2: "?relay [concat demo_events] = (out2, f2, st2)" by (metis prod_cases3)
  have "f1 = f2 \<and> st1 = st2"
    using relay_ignores_chunking [OF _ _ r1 r2] by (simp add: quiet_env_def)
  moreover have "demo_stream\<lparr>rs_chunks := demo_events\<rparr> = demo_stream" by (simp add: demo_stream_def)
  ultimately show ?thesis using r1 r2 by simp
qed

subsection \<open>The slot of a stream\<close>

lemma slots_relay_loop:
  "others_keep_slots env k \<Longrightarrow>
   relay_loop cfg env model ending i first buf usage chunks st = (out, u, e, st') \<Longrightarrow> slots st' k = slots st k"
proof (induction chunks arbitrary: i first buf usage st out)
  case Nil
  then show ?case by (auto simp: slots_chunk)
next
  case (Cons c chunks)
  define st1 where "st1 = (if first \<and> c \<noteq> [] then observe_ttft cfg env model (ce_chunk env i st) else ce_chunk env i st)"
  have s1: "slots st1 k = slots st k" using Cons.prems(1) by (simp add: st1_def slots_chunk observe_ttft_def)
  show ?case
  proof (cases "scan_events (buf @ c) usage")
    case (Frame_raised x u')
    with Cons.prems(2) s1 show ?thesis by (auto simp: st1_def Let_def)
  next
    case (Scanning b u')
    obtain out2 u2 e2 st2 where r: "relay_loop cfg env model ending (i + 1) (first \<and> c = []) b u' chunks st1
        = (out2, u2, e2, st2)" by (metis prod_cases4)
    have "u = u2" "e = e2" "st' = st2"
      using Cons.prems(2) Scanning r by (auto simp: st1_def [symmetric] Let_def)
    with Cons.IH [OF Cons.prems(1) r [folded this]] s1 show ?thesis by simp
  qed
qed

lemma relay_slots:
  assumes "others_keep_slots env k" and "rk = Some k \<longrightarrow> 1 \<le> slots st k"
    and "\<And>st. fst (ce_close env st) = closing"
    and "relay cfg env p model rk upstream resp st = (out, f, st')"
  shows "slots st' k = slots st k - (if rk = Some k \<and> closing = None then 1 else 0) \<and>
         (\<forall>x. closing = Some x \<longrightarrow> f = Some (Raises x) \<and> (\<exists>s. st' = snd (ce_close env s)))"
proof -
  obtain out1 usage e st1 where l: "relay_loop cfg env model (rs_end resp) 0 True [] [] (rs_chunks resp) st
      = (out1, usage, e, st1)" by (metis prod_cases4)
  have s1: "slots st1 k = slots st k" using slots_relay_loop [OF assms(1) l] .
  define st2 where "st2 = (if \<exists>x. e = Some x \<and> is_Exception x
      then st1\<lparr>cs_metrics := record_rejection ''upstream_stream_broken'' (cs_metrics st1)\<rparr> else st1)"
  have s2: "slots st2 k = slots st k" using s1 by (simp add: st2_def)
  obtain st3 where c: "ce_close env st2 = (closing, st3)" using assms(3) [of st2] by (metis prod.collapse)
  have s3: "slots st3 k = slots st k" using slots_close [OF assms(1), of st2] c s2 by simp
  obtain ue st4 where u: "charge_usage cfg model usage (pr_keyid p) (release_slot rk st3) = (ue, st4)" by fastforce
  have s4: "slots st4 k = slots (release_slot rk st3) k"
    using slots_charge [of cfg model usage "pr_keyid p" "release_slot rk st3" k] u by simp
  have "snd (snd (relay cfg env p model rk upstream resp st)) = st3 \<and>
      fst (snd (relay cfg env p model rk upstream resp st)) = Some (Raises x)" if "closing = Some x" for x
    using l c that by (cases e) (auto simp: relay_def st2_def Let_def split: prod.splits)
  moreover have "slots (snd (snd (relay cfg env p model rk upstream resp st))) k = slots st4 k" if "closing = None"
    using l c that u by (cases e) (auto simp: relay_def st2_def Let_def split: prod.splits option.splits)
  ultimately show ?thesis
    using assms(2,4) s3 s4 c by (cases closing) (auto simp: slots_release intro: exI [of _ st2])
qed

text \<open>C4. A relay that runs gives back the slot it was handed exactly once, whether the stream
  ends well, breaks or is cancelled, provided that closing the upstream response does not
  itself raise: if it does, that is the last thing that happens, so the slot is kept for ever
  and the request is neither charged nor audited.\<close>

theorem relay_returns_its_slot:
  assumes "others_keep_slots env k" and "rk = Some k \<longrightarrow> 1 \<le> slots st k"
    and "\<And>st. fst (ce_close env st) = closing"
    and "relay cfg env p model rk upstream resp st = (out, f, st')"
  shows "slots st' k = slots st k - (if rk = Some k \<and> closing = None then 1 else 0) \<and>
         (\<forall>x. closing = Some x \<longrightarrow> f = Some (Raises x) \<and> (\<exists>s. st' = snd (ce_close env s)))"
  using assms by (rule relay_slots)

theorem relay_returns_its_slot_witness:
  "\<exists>out f st'. relay default_settings (quiet_env (Answer demo_response)) demo_principal JNull (Some ''a1'') ''a'' demo_stream
      (demo_gateway\<lparr>gw_quota := new_quota\<lparr>q_inflight := [''a1'' \<mapsto> 1]\<rparr>\<rparr>) = (out, f, st') \<and> slots st' ''a1'' = 0"
proof -
  let ?st = "demo_gateway\<lparr>gw_quota := new_quota\<lparr>q_inflight := [''a1'' \<mapsto> 1]\<rparr>\<rparr>"
  obtain out f st' where r: "relay default_settings (quiet_env (Answer demo_response)) demo_principal JNull (Some ''a1'') ''a'' demo_stream ?st
      = (out, f, st')" by (metis prod_cases3)
  have "slots ?st ''a1'' = 1" by (simp add: inflight_def)
  with relay_returns_its_slot [OF quiet_env_keeps _ _ r, of "''a1''" None] r show ?thesis
    by (simp add: quiet_env_def)
qed

end
