(* ===== verification/Routes.thy ===== *)
theory Routes
  imports Client Auth
begin

section \<open>The operational routes (gateway/routes/health.py, models.py, metrics.py)\<close>

text \<open>
  Liveness, readiness, the model list and the metrics endpoint, each as the status and the
  value it answers. The text prometheus_client generates is a parameter.
\<close>

definition healthz :: "(string \<times> json) list" where
  "healthz = [(''status'', JStr ''ok'')]"

text \<open>\<open>health_result\<close> is what \<open>pool.health()\<close> answered (a cancellation is not caught here).\<close>

definition bools_json :: "(string \<times> bool) list \<Rightarrow> json" where
  "bools_json bs = JObj (map (\<lambda>(u, b). (u, JBool b)) bs)"

definition strings_json :: "(string \<times> string) list \<Rightarrow> json" where
  "strings_json ss = JObj (map (\<lambda>(u, s). (u, JStr s)) ss)"

definition readyz :: "(string \<Rightarrow> send_exn + int) \<Rightarrow> upool \<Rightarrow> py_exn + int \<times> (string \<times> json) list" where
  "readyz get p =
     (case health get p of
        Inl e \<Rightarrow>
          if is_Exception e
          then Inr (503, [(''status'', JStr ''error''), (''reason'', JStr (exn_name e)), (''upstreams'', JObj [])])
          else Inl e
      | Inr replicas \<Rightarrow>
          if \<not> (\<exists>(u, ok) \<in> set replicas. ok) then
            Inr (503, [(''status'', JStr ''unavailable''), (''upstreams'', bools_json replicas),
                       (''breakers'', strings_json (snapshot (up_breakers p)))])
          else
            Inr (200, [(''status'', JStr ''ok''), (''upstreams'', bools_json replicas),
                       (''breakers'', strings_json (snapshot (up_breakers p)))]))"

text \<open>\<open>list_models\<close>, behind \<open>require_principal\<close>; \<open>created\<close> is the clock in whole seconds.\<close>

definition list_models :: "settings \<Rightarrow> int \<Rightarrow> (string \<times> json) list" where
  "list_models cfg created =
     [(''object'', JStr ''list''),
      (''data'', JArr (map (\<lambda>m. JObj [(''id'', JStr m), (''object'', JStr ''model''), (''created'', JInt created),
                                       (''owned_by'', JStr ''bkn301'')]) (ALLOWED_MODELS cfg)))]"

definition metrics_route :: "settings \<Rightarrow> string \<Rightarrow> int \<times> string" where
  "metrics_route cfg latest = (if \<not> METRICS_ENABLED cfg then (404, []) else (200, latest))"

subsection \<open>Readiness\<close>

lemma health_from_get:
  "health_from get p out us = Inr reps \<Longrightarrow>
   dict_get reps u = (if u \<in> set us then (case probe get p u of Inr ok \<Rightarrow> Some ok | Inl e \<Rightarrow> None) else dict_get out u)"
proof (induction us arbitrary: out)
  case (Cons v us)
  then obtain ok where "probe get p v = Inr ok" "health_from get p (dict_set v ok out) us = Inr reps"
    by (auto simp: bindE_Inr)
  with Cons.IH [OF this(2)] show ?case by auto
qed simp

lemma health_from_distinct:
  "health_from get p out us = Inr reps \<Longrightarrow> distinct (map fst out) \<Longrightarrow> distinct (map fst reps)"
proof (induction us arbitrary: out)
  case (Cons v us)
  then obtain ok where "health_from get p (dict_set v ok out) us = Inr reps" by (auto simp: bindE_Inr)
  with Cons.IH [OF this] Cons.prems(2) show ?case by (simp add: dict_set_distinct)
qed simp

lemma probe_started:
  assumes "up_client p \<noteq> None"
  shows "probe get p u = (case get (py_rstrip CHR ''/'' u @ ''/models'') of
           Inr status \<Rightarrow> Inr (status < 400)
         | Inl e \<Rightarrow> (case uncaught e of Some x \<Rightarrow> Inl x | None \<Rightarrow> Inr False))"
  using assms by (auto simp: probe_def pool_client_def)

lemma health_from_exn: "health_from get p out us = Inl e \<Longrightarrow> e = CancelledError"
proof (induction us arbitrary: out)
  case (Cons v us)
  have "probe get p v = Inl e \<Longrightarrow> e = CancelledError"
    by (auto simp: probe_def uncaught_def is_Exception_def split: sum.splits send_exn.splits if_splits option.splits)
  with Cons show ?case by (auto simp: bindE_Inl)
qed simp

lemma probe_true:
  assumes "up_client p \<noteq> None"
  shows "(case probe get p u of Inr ok \<Rightarrow> Some ok | Inl e \<Rightarrow> None) = Some True \<longleftrightarrow>
     (\<exists>n < 400. get (py_rstrip CHR ''/'' u @ ''/models'') = Inr n)"
  by (cases "get (py_rstrip CHR ''/'' u @ ''/models'')")
    (auto simp: probe_started [OF assms] split: option.split)

text \<open>Readiness is red exactly when no replica answers: on a started pool, \<open>/readyz\<close> is 200
  if some configured replica answers its \<open>/models\<close> with a status below 400, and 503
  otherwise, in whatever state the breakers are; they are only reported.\<close>

theorem readyz_iff_some_replica:
  assumes "up_client p \<noteq> None" and "readyz get p = Inr (status, payload)"
  shows "status = (if \<exists>u \<in> set (up_urls p). \<exists>n < 400. get (py_rstrip CHR ''/'' u @ ''/models'') = Inr n
                   then 200 else 503) \<and>
         dict_get payload ''breakers'' = Some (strings_json (snapshot (up_breakers p)))"
proof -
  obtain reps where h: "health get p = Inr reps"
    using assms(2) health_from_exn [of get p "[]" "up_urls p"]
    by (cases "health get p") (auto simp: readyz_def health_def is_Exception_def)
  note g = health_from_get [OF h [unfolded health_def]] and d = health_from_distinct [OF h [unfolded health_def]]
  have "(\<exists>(u, ok) \<in> set reps. ok) \<longleftrightarrow> (\<exists>u. dict_get reps u = Some True)"
    using d by (force dest: map_of_SomeD intro: map_of_is_SomeI)
  also have "\<dots> \<longleftrightarrow> (\<exists>u \<in> set (up_urls p). \<exists>n < 400. get (py_rstrip CHR ''/'' u @ ''/models'') = Inr n)"
    by (auto simp: g probe_true [OF assms(1)] split: if_splits)
  finally have any: "(\<exists>(u, ok) \<in> set reps. ok) \<longleftrightarrow>
      (\<exists>u \<in> set (up_urls p). \<exists>n < 400. get (py_rstrip CHR ''/'' u @ ''/models'') = Inr n)" .
  have "(status, payload) = (if \<exists>(u, ok) \<in> set reps. ok
      then (200, [(''status'', JStr ''ok''), (''upstreams'', bools_json reps),
                  (''breakers'', strings_json (snapshot (up_breakers p)))])
      else (503, [(''status'', JStr ''unavailable''), (''upstreams'', bools_json reps),
                  (''breakers'', strings_json (snapshot (up_breakers p)))]))"
    using assms(2) unfolding readyz_def h by (simp split: if_splits)
  then show ?thesis unfolding any by (simp split: if_splits)
qed

theorem readyz_iff_some_replica_witness:
  "\<exists>payload. readyz (\<lambda>_. Inr 200) (cs_pool fresh_single) = Inr (200, payload)"
proof -
  have c: "up_client (cs_pool fresh_single) \<noteq> None" by (simp add: fresh_single_simps)
  have "readyz (\<lambda>_. Inr 200) (cs_pool fresh_single) = Inr (200, snd (projr (readyz (\<lambda>_. Inr 200) (cs_pool fresh_single))))"
    using probe_started [OF c, of "\<lambda>_. Inr 200"]
    by (simp add: readyz_def health_def fresh_single_simps)
  from readyz_iff_some_replica [OF c this] this show ?thesis by metis
qed

lemma list_models_ids:
  "list_models cfg created = [(''object'', JStr ''list''), (''data'', JArr xs)] \<Longrightarrow>
   length xs = length (ALLOWED_MODELS cfg)"
  by (auto simp: list_models_def)

end
