(* ===== verification/Background.thy ===== *)
theory Background
  imports Client
begin

section \<open>The background tasks (gateway/main.py)\<close>

text \<open>
  One pass of each loop of the process: the breaker prober, the scraper and the loop-lag
  monitor. A loop is its passes one after the other, each at its own time, with a sleep in
  between; an ordinary exception ends a pass and not the loop.
\<close>

subsection \<open>The prober\<close>

text \<open>One breaker of a pass. \<open>suspects\<close> is what the poller answers for the URL and the time it is
  asked at; \<open>probe\<close> answers whether the probe succeeded, when it ended, and the registry
  other tasks leave meanwhile (or a cancellation, which ends the task).\<close>

definition prober_visit ::
  "(string \<Rightarrow> real \<Rightarrow> bool) \<Rightarrow> (string \<Rightarrow> registry \<Rightarrow> (py_exn + bool \<times> real) \<times> registry) \<Rightarrow> real \<Rightarrow>
   string \<Rightarrow> registry \<Rightarrow> py_exn option \<times> registry" where
  "prober_visit suspects prober now u r =
     (let (b, r) = registry_get r u in
      if rb_state b = CLOSED then
        (None, registry_apply (\<lambda>b. record_wedge b (suspects u now) now) u r)
      else if due_for_probe b now then
        (let (res, r) = prober u r in
         case res of
           Inl e \<Rightarrow> (Some e, r)
         | Inr (ok, t) \<Rightarrow> (None, registry_apply (\<lambda>b. record_probe b ok t (suspects u t)) u r))
      else (None, r))"

fun prober_pass ::
  "(string \<Rightarrow> real \<Rightarrow> bool) \<Rightarrow> (string \<Rightarrow> registry \<Rightarrow> (py_exn + bool \<times> real) \<times> registry) \<Rightarrow> real \<Rightarrow>
   string list \<Rightarrow> registry \<Rightarrow> py_exn option \<times> registry" where
  "prober_pass suspects prober now [] r = (None, r)"
| "prober_pass suspects prober now (u # us) r =
     (let (e, r) = prober_visit suspects prober now u r in
      case e of
        Some x \<Rightarrow> (Some x, r)
      | None \<Rightarrow> prober_pass suspects prober now us r)"

text \<open>One iteration of \<open>_breaker_prober\<close>: the left value is the cancellation that ends it.\<close>

definition breaker_prober_step ::
  "(string \<Rightarrow> real \<Rightarrow> bool) \<Rightarrow> (string \<Rightarrow> registry \<Rightarrow> (py_exn + bool \<times> real) \<times> registry) \<Rightarrow> real \<Rightarrow>
   registry \<Rightarrow> (py_exn + unit) \<times> registry" where
  "breaker_prober_step suspects prober now r =
     (let (e, r) = prober_pass suspects prober now (map rb_url (registry_iter r)) r in
      (case e of Some x \<Rightarrow> if is_Exception x then Inr () else Inl x | None \<Rightarrow> Inr (), r))"

subsection \<open>The scraper and the lag monitor\<close>

definition scrape_step ::
  "settings \<Rightarrow> (string \<Rightarrow> py_exn + (string \<times> real) list list) \<Rightarrow> (string \<Rightarrow> scrape_response) \<Rightarrow>
   (nat \<Rightarrow> real \<times> real) \<Rightarrow> upool \<Rightarrow> poller \<times> metrics \<Rightarrow> poller \<times> metrics" where
  "scrape_step cfg families answers clock p pm =
     (case pool_client p of
        Inl e \<Rightarrow> pm
      | Inr c \<Rightarrow> poll_once cfg families answers clock (up_urls p) pm)"

definition loop_lag :: "real \<Rightarrow> real \<Rightarrow> real \<Rightarrow> metrics \<Rightarrow> metrics" where
  "loop_lag t0 t1 interval m = m\<lparr>event_loop_lag_seconds := max 0 (t1 - t0 - interval)\<rparr>"

subsection \<open>A replica under the prober\<close>

text \<open>One iteration of the loop with what surrounds it: its time, what the poller and the probes answer
  in it, and what the other tasks did to the registry since the iteration before.\<close>

record prober_turn =
  pt_time :: real
  pt_suspects :: "string \<Rightarrow> real \<Rightarrow> bool"
  pt_prober :: "string \<Rightarrow> registry \<Rightarrow> (py_exn + bool \<times> real) \<times> registry"
  pt_before :: "registry \<Rightarrow> registry"

definition prober_turn_step :: "registry \<Rightarrow> prober_turn \<Rightarrow> registry" where
  "prober_turn_step r x = snd (breaker_prober_step (pt_suspects x) (pt_prober x) (pt_time x) (pt_before x r))"

definition prober_run :: "prober_turn list \<Rightarrow> registry \<Rightarrow> registry" where
  "prober_run xs r = foldl prober_turn_step r xs"

text \<open>The replica \<open>u\<close> is well in a turn: the poller does not suspect it and its probe succeeds, at most
  \<open>\<delta>\<close> seconds after the pass began; no other replica's probe is cancelled, whatever else it answers;
  and the other tasks, which may do anything to the other breakers meanwhile, record no outcome for
  \<open>u\<close>.\<close>

definition well :: "string \<Rightarrow> real \<Rightarrow> prober_turn \<Rightarrow> bool" where
  "well u \<delta> x \<longleftrightarrow>
     (\<forall>t. \<not> pt_suspects x u t) \<and> (\<forall>r. dict_get (pt_before x r) u = dict_get r u) \<and>
     (\<forall>v r. dict_get (snd (pt_prober x v r)) u = dict_get r u \<and>
        (\<exists>ok t. fst (pt_prober x v r) = Inr (ok, t) \<and> (v = u \<longrightarrow> ok \<and> pt_time x \<le> t \<and> t \<le> pt_time x + \<delta>)))"

text \<open>What such a turn at time \<open>t\<close> makes of a breaker.\<close>

definition advanced :: "real \<Rightarrow> real \<Rightarrow> replica_breaker \<Rightarrow> replica_breaker \<Rightarrow> bool" where
  "advanced \<delta> t b b' \<longleftrightarrow>
     (case rb_state b of
        CLOSED \<Rightarrow> rb_state b' = CLOSED
      | OPEN \<Rightarrow>
          if due_for_probe b t
          then rb_state b' = HALF_OPEN \<and> rb_good_probes b' = 1 \<and> (\<exists>t' \<ge> t. t' \<le> t + \<delta> \<and> rb_last_probe_at b' = Some t')
          else b' = b
      | HALF_OPEN \<Rightarrow> if due_for_probe b t then rb_state b' = CLOSED else b' = b)"

definition probes_counted :: "replica_breaker \<Rightarrow> bool" where
  "probes_counted b \<longleftrightarrow>
     (case rb_state b of CLOSED \<Rightarrow> True | OPEN \<Rightarrow> rb_good_probes b = 0 | HALF_OPEN \<Rightarrow> rb_good_probes b = 1)"

definition good_visit :: "replica_breaker \<Rightarrow> real \<Rightarrow> real \<Rightarrow> replica_breaker" where
  "good_visit b t t' =
     (if rb_state b = CLOSED then record_wedge b False t
      else if due_for_probe b t then record_probe b True t' False
      else b)"

lemma good_visit_url: "rb_url (good_visit b t t') = rb_url b"
  by (simp add: good_visit_def record_wedge_def record_probe_def close_breaker_def Let_def)

lemma good_visit_first:
  assumes "probes_counted b" and "t \<le> t'" and "t' \<le> t + \<delta>"
  shows "advanced \<delta> t b (good_visit b t t')"
  using assms
  by (cases "rb_state b")
    (auto simp: advanced_def good_visit_def probes_counted_def record_wedge_def record_probe_def close_breaker_def
      PROBES_TO_CLOSE_def Let_def)

lemma good_visit_again:
  assumes "advanced \<delta> t b c"
  shows "advanced \<delta> t b (good_visit c t t')"
proof (cases "rb_state b = CLOSED \<or> rb_state b = HALF_OPEN \<and> due_for_probe b t")
  case True
  then have "rb_state c = CLOSED" using assms by (auto simp: advanced_def)
  then have "rb_state (good_visit c t t') = CLOSED" by (simp add: good_visit_def record_wedge_def)
  with True show ?thesis by (auto simp: advanced_def)
next
  case False
  then have "rb_state c \<noteq> CLOSED \<and> \<not> due_for_probe c t"
    using assms by (cases "rb_state b") (auto simp: advanced_def due_for_probe_def PROBE_INTERVAL_SEC_def split: if_splits)
  then show ?thesis using assms by (simp add: good_visit_def)
qed

text \<open>A visit of \<open>u\<close> itself, and of another replica.\<close>

lemma visit_self:
  assumes "well u \<delta> x" and "dict_get r u = Some b"
  shows "\<exists>r' t'. prober_visit (pt_suspects x) (pt_prober x) (pt_time x) u r = (None, r') \<and>
     dict_get r' u = Some (good_visit b (pt_time x) t') \<and> pt_time x \<le> t' \<and> t' \<le> pt_time x + \<delta>"
proof -
  obtain r1 t where p: "pt_prober x u r = (Inr (True, t), r1)" "dict_get r1 u = Some b"
    "pt_time x \<le> t" "t \<le> pt_time x + \<delta>"
    using assms unfolding well_def by (metis (full_types) prod.collapse)
  moreover have "\<not> pt_suspects x u s" for s using assms(1) by (simp add: well_def)
  ultimately show ?thesis
    using assms(2) by (auto simp: prober_visit_def good_visit_def registry_get_def registry_apply_def Let_def)
qed

lemma visit_other:
  assumes "well u \<delta> x" and "v \<noteq> u"
  shows "\<exists>r'. prober_visit (pt_suspects x) (pt_prober x) (pt_time x) v r = (None, r') \<and> dict_get r' u = dict_get r u"
proof -
  have g: "dict_get (snd (registry_get r v)) u = dict_get r u" for r
    using assms(2) by (auto simp: registry_get_def Let_def split: option.split)
  have a: "dict_get (registry_apply f v r) u = dict_get r u" for f r
    using assms(2) g [of r] by (simp add: registry_apply_def split_beta)
  obtain ok t r1 where p: "pt_prober x v (snd (registry_get r v)) = (Inr (ok, t), r1)" "dict_get r1 u = dict_get r u"
    using assms(1) g [of r] unfolding well_def by (metis prod.collapse)
  obtain b r0 where "registry_get r v = (b, r0)" by fastforce
  with p g [of r] a show ?thesis by (auto simp: prober_visit_def)
qed

lemma pass_advances:
  assumes "well u \<delta> x" and "probes_counted b"
  shows "dict_get r u = Some c \<Longrightarrow> c = b \<or> advanced \<delta> (pt_time x) b c \<Longrightarrow>
     \<exists>r' c'. prober_pass (pt_suspects x) (pt_prober x) (pt_time x) us r = (None, r') \<and> dict_get r' u = Some c' \<and>
        rb_url c' = rb_url c \<and> (if advanced \<delta> (pt_time x) b c \<or> u \<in> set us then advanced \<delta> (pt_time x) b c' else c' = b)"
proof (induction us arbitrary: r c)
  case (Cons v us)
  show ?case
  proof (cases "v = u")
    case True
    obtain r1 t' where v: "prober_visit (pt_suspects x) (pt_prober x) (pt_time x) u r = (None, r1)"
      "dict_get r1 u = Some (good_visit c (pt_time x) t')" "pt_time x \<le> t'" "t' \<le> pt_time x + \<delta>"
      using visit_self [OF assms(1) Cons.prems(1)] by blast
    have "advanced \<delta> (pt_time x) b (good_visit c (pt_time x) t')"
      using Cons.prems(2) good_visit_first [OF assms(2) v(3,4)] good_visit_again by blast
    with Cons.IH [OF v(2)] v(1) True show ?thesis by (auto simp: good_visit_url)
  next
    case False
    obtain r1 where v: "prober_visit (pt_suspects x) (pt_prober x) (pt_time x) v r = (None, r1)" "dict_get r1 u = dict_get r u"
      using visit_other [OF assms(1) False] by blast
    have "dict_get r1 u = Some c" using v(2) Cons.prems(1) by simp
    from Cons.IH [OF this Cons.prems(2)] v(1) False show ?thesis by auto
  qed
qed auto

lemma turn_advances:
  assumes "well u \<delta> x" and "dict_get r u = Some b" and "rb_url b = u" and "probes_counted b"
  shows "\<exists>b'. dict_get (prober_turn_step r x) u = Some b' \<and> rb_url b' = u \<and> advanced \<delta> (pt_time x) b b'"
proof -
  let ?r = "pt_before x r"
  have g: "dict_get ?r u = Some b" using assms(1,2) by (simp add: well_def)
  then have "u \<in> set (map rb_url (registry_iter ?r))" using assms(3) by (force simp: registry_iter_def dest: map_of_SomeD)
  with pass_advances [OF assms(1,4) g, of "map rb_url (registry_iter ?r)"] assms(3) show ?thesis
    by (auto simp: prober_turn_step_def breaker_prober_step_def)
qed

lemma advanced_counted: "advanced \<delta> t b b' \<Longrightarrow> probes_counted b \<Longrightarrow> probes_counted b'"
  by (cases "rb_state b") (auto simp: advanced_def probes_counted_def split: if_splits)

lemma run_Cons [simp]: "prober_run [] r = r" "prober_run (x # xs) r = prober_run xs (prober_turn_step r x)"
  by (simp_all add: prober_run_def)

text \<open>From a state of \<open>u\<close>'s breaker on, the turns close it.\<close>

definition ends_closed :: "string \<Rightarrow> prober_turn list \<Rightarrow> replica_breaker \<Rightarrow> bool" where
  "ends_closed u xs b \<longleftrightarrow>
     (\<forall>r. dict_get r u = Some b \<longrightarrow> (\<exists>b'. dict_get (prober_run xs r) u = Some b' \<and> rb_state b' = CLOSED))"

lemma ends_closed_Cons:
  assumes "well u \<delta> x" and "rb_url b = u" and "probes_counted b"
    and "\<And>b'. advanced \<delta> (pt_time x) b b' \<Longrightarrow> rb_url b' = u \<Longrightarrow> probes_counted b' \<Longrightarrow> ends_closed u xs b'"
  shows "ends_closed u (x # xs) b"
  unfolding ends_closed_def
proof (intro allI impI)
  fix r assume "dict_get r u = Some b"
  from turn_advances [OF assms(1) this assms(2,3)] obtain b' where
    b': "dict_get (prober_turn_step r x) u = Some b'" "rb_url b' = u" "advanced \<delta> (pt_time x) b b'" by blast
  from assms(4) [OF b'(3,2) advanced_counted [OF b'(3) assms(3)]] b'(1)
  show "\<exists>b'. dict_get (prober_run (x # xs) r) u = Some b' \<and> rb_state b' = CLOSED" by (simp add: ends_closed_def)
qed

lemma closed_run:
  "\<forall>x \<in> set xs. well u \<delta> x \<Longrightarrow> rb_url b = u \<Longrightarrow> rb_state b = CLOSED \<Longrightarrow> ends_closed u xs b"
proof (induction xs arbitrary: b)
  case (Cons x xs)
  then show ?case by (intro ends_closed_Cons [of u \<delta>]) (auto simp: probes_counted_def advanced_def)
qed (simp add: ends_closed_def)

lemma half_open_run:
  "\<forall>x \<in> set xs. well u \<delta> x \<Longrightarrow> rb_url b = u \<Longrightarrow> rb_state b = HALF_OPEN \<Longrightarrow> rb_good_probes b = 1 \<Longrightarrow>
   \<exists>x \<in> set xs. due_for_probe b (pt_time x) \<Longrightarrow> ends_closed u xs b"
proof (induction xs arbitrary: b)
  case (Cons x xs)
  show ?case
  proof (rule ends_closed_Cons [of u \<delta>])
    fix b' assume b': "advanced \<delta> (pt_time x) b b'" "rb_url b' = u"
    show "ends_closed u xs b'"
    proof (cases "due_for_probe b (pt_time x)")
      case True
      then have "rb_state b' = CLOSED" using b'(1) Cons.prems(3) by (simp add: advanced_def)
      then show ?thesis using Cons.prems(1) b'(2) by (intro closed_run) auto
    next
      case False
      then have "b' = b" using b'(1) Cons.prems(3) by (simp add: advanced_def)
      then show ?thesis using Cons False by auto
    qed
  qed (use Cons.prems in \<open>auto simp: probes_counted_def\<close>)
qed simp

text \<open>Ticks no more than \<open>g\<close> seconds apart.\<close>

fun ticking :: "real \<Rightarrow> real \<Rightarrow> real list \<Rightarrow> bool" where
  "ticking g t [] = True"
| "ticking g t (t' # ts) = (t \<le> t' \<and> t' \<le> t + g \<and> ticking g t' ts)"

lemma ticking_ge: "ticking g t ts \<Longrightarrow> x \<in> set ts \<Longrightarrow> t \<le> x"
  by (induction ts arbitrary: t) force+

lemma open_run:
  assumes "rb_url b = u" and "rb_state b = OPEN" and "rb_good_probes b = 0" and "0 \<le> \<delta>"
    and "\<And>t. now \<le> t \<Longrightarrow> due_for_probe b t \<longleftrightarrow> d \<le> t"
  shows "\<forall>x \<in> set xs. well u \<delta> x \<Longrightarrow> ticking g t0 (map pt_time xs) \<Longrightarrow> now \<le> t0 \<Longrightarrow> t0 \<le> d \<Longrightarrow> xs \<noteq> [] \<Longrightarrow>
     d + g + \<delta> + 5 \<le> pt_time (last xs) \<Longrightarrow> ends_closed u xs b"
proof (induction xs arbitrary: t0)
  case (Cons x xs)
  have t: "t0 \<le> pt_time x" "pt_time x \<le> t0 + g" "now \<le> pt_time x" "0 \<le> g" using Cons.prems(2,3) by auto
  have ne: "xs \<noteq> []"
  proof
    assume "xs = []"
    then show False using Cons.prems(4,6) t assms(4) by simp
  qed
  show ?case
  proof (rule ends_closed_Cons [of u \<delta>])
    fix b' assume b': "advanced \<delta> (pt_time x) b b'" "rb_url b' = u"
    show "ends_closed u xs b'"
    proof (cases "d \<le> pt_time x")
      case True
      then obtain t' where h: "rb_state b' = HALF_OPEN" "rb_good_probes b' = 1" "t' \<le> pt_time x + \<delta>"
        "rb_last_probe_at b' = Some t'"
        using b'(1) assms(2) assms(5) [OF t(3)] by (auto simp: advanced_def)
      have "t' + 5 \<le> pt_time (last xs)" using h(3) t(2) Cons.prems(4,6) ne by simp
      then have "due_for_probe b' (pt_time (last xs))" using h by (simp add: due_for_probe_def PROBE_INTERVAL_SEC_def)
      then show ?thesis using Cons.prems(1) ne by (intro half_open_run [OF _ b'(2) h(1,2)]) auto
    next
      case False
      then have "b' = b" using b'(1) assms(2) assms(5) [OF t(3)] by (simp add: advanced_def)
      then show ?thesis using Cons.IH [of "pt_time x"] Cons.prems False t ne by simp
    qed
  qed (use Cons.prems assms in \<open>auto simp: probes_counted_def\<close>)
qed simp

text \<open>C15. A replica that has recovered is put back into service unattended: whatever reachable state its
  breaker is in, if it is not closed, the iterations of the prober's loop over the whole registry,
  beginning at most \<open>g\<close> seconds apart, each finding the replica well with a probe that ends at most
  \<open>\<delta>\<close> seconds into its pass, have closed it once an iteration began \<open>65 + g + \<delta>\<close> seconds later
  or more. Whatever the other replicas answer and whatever the other tasks do to their breakers
  does not delay it; assumed is that no probe is cancelled and no outcome is recorded for the
  replica itself meanwhile.\<close>

theorem prober_recloses:
  assumes "breaker_reachable b now" and "rb_state b \<noteq> CLOSED" and "rb_url b = u" and "dict_get r u = Some b"
    and "\<And>x. x \<in> set xs \<Longrightarrow> well u \<delta> x" and "0 \<le> \<delta>"
    and "ticking g now (map pt_time xs)" and "xs \<noteq> []" and "now + 65 + g + \<delta> \<le> pt_time (last xs)"
  shows "\<exists>b'. dict_get (prober_run xs r) u = Some b' \<and> rb_state b' = CLOSED"
proof -
  have ok: "breaker_ok b now" using assms(1) by (rule breaker_reachable_induct_ok)
  define d where "d = now + seconds_until_probe b now"
  have d: "now \<le> d" "d \<le> now + 60"
    using seconds_until_probe_nonneg [of b now] seconds_until_probe_bound [OF ok] by (simp_all add: d_def)
  have due: "due_for_probe b t \<longleftrightarrow> d \<le> t" if "now \<le> t" for t
    using due_iff_wait [OF ok assms(2) that] by (simp add: d_def)
  have w: "\<forall>x \<in> set xs. well u \<delta> x" using assms(5) by blast
  have "ends_closed u xs b"
  proof (cases "rb_state b")
    case OPEN
    then have "rb_good_probes b = 0" using ok by (simp add: breaker_ok_def)
    with OPEN show ?thesis
      using open_run [OF assms(3) OPEN _ assms(6) due w assms(7)] assms(8,9) d by simp
  next
    case HALF_OPEN
    have l: "now \<le> pt_time (last xs)" using ticking_ge [OF assms(7)] assms(8) by simp
    have "0 \<le> g" using assms(7,8) by (cases xs) auto
    then have "due_for_probe b (pt_time (last xs))" using due [OF l] d assms(6,9) by simp
    moreover have "rb_good_probes b = 1" using ok HALF_OPEN by (simp add: breaker_ok_def)
    ultimately show ?thesis using assms(8) by (intro half_open_run [OF w assms(3) HALF_OPEN]) auto
  qed (use assms(2) in simp)
  with assms(4) show ?thesis by (simp add: ends_closed_def)
qed

definition well_turn :: "real \<Rightarrow> prober_turn" where
  "well_turn t = \<lparr>pt_time = t, pt_suspects = (\<lambda>_ _. False), pt_prober = (\<lambda>v r. (Inr (v = ''a'', t + 1), r)), pt_before = id\<rparr>"

theorem prober_recloses_witness:
  "\<exists>b'. dict_get (prober_run (map well_turn [16, 31, 46, 61, 76, 91])
     [(''down'', new_breaker ''down'' ''0''), (''a'', tripped)]) ''a'' = Some b' \<and> rb_state b' = CLOSED"
proof -
  have "breaker_reachable tripped 1" using tripped_reachable [of 1] by (simp add: tripped_def)
  moreover have "rb_url tripped = ''a''" by (simp add: tripped_def record_failure_def open_breaker_def new_breaker_def Let_def)
  moreover have "rb_state tripped \<noteq> CLOSED" by (simp add: one_tripped_simps)
  ultimately show ?thesis
    by (intro prober_recloses [where \<delta> = 1 and g = 15]) (auto simp: well_def well_turn_def)
qed

end
