(* ===== verification/Gateway.thy ===== *)
theory Gateway
  imports Relay_Laws Routes Background
begin

section \<open>The gateway as a whole\<close>

text \<open>
  The chat endpoint from the HTTP header to the response: authentication, then the handler.
\<close>

datatype served = Unauthenticated int string "(string \<times> string) list" | Auth_crashed | Served chat_response

definition unauthorized :: served where
  "unauthorized = Unauthenticated 401 ''invalid or missing credentials'' [(''WWW-Authenticate'', ''Bearer'')]"

definition serve_chat ::
  "settings \<Rightarrow> chat_env \<Rightarrow> (jwt_call \<Rightarrow> decode_result) \<Rightarrow> string \<Rightarrow> (string \<Rightarrow> string \<Rightarrow> argon_result) \<Rightarrow>
   real \<Rightarrow> key_store \<Rightarrow> jwt_verifier \<Rightarrow> string option \<Rightarrow> string \<Rightarrow> gateway \<Rightarrow>
   net_event list \<times> served \<times> gateway" where
  "serve_chat cfg env decode dh argon now store v authorization raw st =
     (case snd (require_principal cfg (ce_repr env) decode dh argon now store v authorization) of
        Inl Unauthorized \<Rightarrow> ([], unauthorized, st)
      | Inl Crashed \<Rightarrow> ([], Auth_crashed, st)
      | Inr p \<Rightarrow>
          (let (tr, h, st) = chat_completions cfg env p raw st in (tr, Served h, st)))"

subsection \<open>Nothing reaches a replica without a credential\<close>

text \<open>Whenever serving one chat request sends anything upstream, its header carried a JWT the
  configured verifier accepted or an API key whose live stored record matches the secret, and
  that credential grants the \<open>chat\<close> scope.\<close>

lemma serve_chat_guarded:
  assumes "serve_chat cfg env decode dh argon now store v authorization raw st = (tr, h, st')" and "sends tr \<noteq> []"
  shows "\<exists>s p. credential_of authorization = Some s \<and> has_scope p ''chat'' \<and>
     (if is_jwt_shape s
      then \<exists>c. genuine_jwt cfg decode v s c \<and> jwt_principal (ce_repr env) c = Inr p
      else \<exists>r. genuine_key cfg argon now store s r \<and> p = key_principal r)"
proof -
  obtain mark res where a: "require_principal cfg (ce_repr env) decode dh argon now store v authorization = (mark, res)"
    by fastforce
  obtain p where p: "res = Inr p" using assms a
    by (auto simp: serve_chat_def split: sum.splits auth_failure.splits)
  obtain h' where c: "chat_completions cfg env p raw st = (tr, h', st')"
    using assms(1) a p by (auto simp: serve_chat_def split: prod.splits)
  have "sent_bodies tr \<noteq> []" using assms(2) length_sent_bodies [of tr] by (metis length_0_conv)
  then obtain b where "b \<in> set (sent_bodies tr)" by (cases "sent_bodies tr") auto
  from chat_completions_sent [OF c this] have "has_scope p ''chat''" using chat_validate_Inr by blast
  with bearer.authenticate_sound [OF a [unfolded require_principal_def p]] show ?thesis by blast
qed

lemma demo_chat:
  assumes "pr_keyid p = Some ''a1''" and "pr_token_budget p = Some 9" and "pr_max_concurrency p = Some c" and "0 < c"
    and "chat_validate default_settings (\<lambda>_. []) p raw = Inr (model, body, False)"
  shows "\<exists>h st'. chat_completions default_settings (quiet_env (Answer demo_response)) p raw demo_gateway =
     ([Sent ''a'' (attempt_url ''/chat/completions'' ''a'') (JObj body) (Inr (Answer demo_response))], h, st')"
proof -
  let ?q = "new_quota\<lparr>q_inflight := [''a1'' \<mapsto> 1]\<rparr>"
  have g: "quota_gate p (gw_quota demo_gateway) = Inr (Some ''a1'', ?q)"
    using assms(1-4) by (simp add: quota_gate_def check_budget_def acquire_def new_quota_def tokens_used_def demo_gateway_def)
  obtain pl m where f: "request default_settings (still_net (Answer demo_response) 1) ''/chat/completions''
      (JObj body) (demo_gateway\<lparr>gw_quota := ?q\<rparr>) =
      ([Sent ''a'' (attempt_url ''/chat/completions'' ''a'') (JObj body) (Inr (Answer demo_response))],
       Inr (''a'', demo_response), demo_gateway\<lparr>gw_quota := ?q, cs_pool := pl, cs_metrics := m\<rparr>)"
    using demo_forwards [where path = "''/chat/completions''" and body = "JObj body" and stream = False and q = ?q] by blast
  show ?thesis using f g assms(5)
    by (auto simp: chat_completions_def chat_forward_def quiet_env_def split: prod.splits)
qed

lemma demo_key_chat:
  "\<exists>h st'. serve_chat default_settings (quiet_env (Answer demo_response)) decode [] toy_argon 5 [(''a1'', snd demo_key)] v
      (Some ''Bearer bkn_live_a1_s'') demo_raw demo_gateway =
     ([Sent ''a'' (attempt_url ''/chat/completions'' ''a'') (JObj demo_sent) (Inr (Answer demo_response))], h, st')"
proof -
  let ?p = "key_principal (snd demo_key)"
  have scope: "has_scope ?p ''chat''" by (simp add: has_scope_def key_principal_def demo_key_simps)
  have v: "chat_validate default_settings (\<lambda>_. []) ?p demo_raw = Inr (JStr ''Qwen/Qwen3-8B-AWQ'', demo_sent, False)"
    using scope by (rule demo_validates_for)
  have "pr_keyid ?p = Some ''a1''" "pr_token_budget ?p = Some 9" "pr_max_concurrency ?p = Some 2" "(0::int) < 2"
    by (simp_all add: key_principal_def demo_key_simps)
  from demo_chat [OF this v] obtain h st'
    where "chat_completions default_settings (quiet_env (Answer demo_response)) ?p demo_raw demo_gateway =
      ([Sent ''a'' (attempt_url ''/chat/completions'' ''a'') (JObj demo_sent) (Inr (Answer demo_response))], h, st')"
    by blast
  then show ?thesis
    by (simp add: serve_chat_def demo_authenticates)
qed

subsection \<open>An outage answers at once\<close>

lemma with_retry_refused:
  assumes "pick cfg None (net_pick_time net 0) (cs_pool st) = (Inl wait, p)"
  shows "with_retry cfg net path body stream st = ([], Inl (AllReplicasOpen wait), st\<lparr>cs_pool := p\<rparr>)"
  using assms by (simp add: with_retry_def retry_loop.simps [of _ _ _ _ _ 0])

text \<open>C25. During an outage the caller is answered at once: when every replica's breaker is not closed, a
  valid request with quota sends nothing and is answered 503 with a Retry-After between 1 and
  60 seconds, by which time some replica is due for the probe that can close its breaker.\<close>

theorem outage_answers_503:
  assumes "BREAKER_ENABLED cfg" and "pool_ok (cs_pool st)"
    and "\<And>u. u \<in> set (up_urls (cs_pool st)) \<Longrightarrow> breaker_reachable (breaker_of (cs_pool st) u) now"
    and "\<And>u. u \<in> set (up_urls (cs_pool st)) \<Longrightarrow> rb_state (breaker_of (cs_pool st) u) \<noteq> CLOSED"
    and "net_pick_time (ce_net env) 0 = now"
    and "chat_validate cfg (ce_repr env) p raw = Inr (model, body, streaming)"
    and "quota_gate p (gw_quota st) = Inr (rk, q)"
  shows "\<exists>n st'. chat_completions cfg env p raw st =
       ([], Http_error 503 ''all_replicas_open'' [(''Retry-After'', str_int n)], st') \<and>
     1 \<le> n \<and> n \<le> 60 \<and> (\<exists>u \<in> set (up_urls (cs_pool st)). due_for_probe (breaker_of (cs_pool st) u) (now + of_int n))"
proof -
  have "closed_replicas (cs_pool st) = []"
    using assms(4) by (simp add: closed_replicas_def filter_empty_conv allows_def)
  then obtain wait p' where pk: "pick cfg None now (cs_pool st) = (Inl wait, p')"
    using assms(1,2) by (simp add: pick_enabled candidates_None Let_def)
  obtain x where x: "wait = Fin x" "0 \<le> x" "x \<le> 60"
    "\<And>t. now \<le> t \<Longrightarrow> (\<exists>u \<in> set (up_urls (cs_pool st)). due_for_probe (breaker_of (cs_pool st) u) t) \<longleftrightarrow> now + x \<le> t"
    using refusal_wait [OF assms(2,1,3) pk] by blast
  define n where "n = max 1 \<lceil>x\<rceil>"
  have n: "1 \<le> n" "n \<le> 60" "x \<le> of_int n"
    using x(2,3) by (auto simp: n_def ceiling_le_iff le_max_iff_disj intro: order_trans [OF le_of_int_ceiling])
  have due: "\<exists>u \<in> set (up_urls (cs_pool st)). due_for_probe (breaker_of (cs_pool st) u) (now + of_int n)"
    using x(4) [of "now + of_int n"] n by simp
  have w: "with_retry cfg (ce_net env) path b s (st\<lparr>gw_quota := q\<rparr>) =
      ([], Inl (AllReplicasOpen (Fin x)), st\<lparr>gw_quota := q, cs_pool := p'\<rparr>)" for path b s
    using with_retry_refused [of cfg "ce_net env" "st\<lparr>gw_quota := q\<rparr>" wait p' path b s] pk assms(5) x(1) by simp
  have "\<exists>st'. chat_completions cfg env p raw st =
      ([], Http_error 503 ''all_replicas_open'' [(''Retry-After'', str_int n)], st')"
    using assms(6,7)
    by (cases streaming)
      (simp_all add: chat_completions_def chat_forward_def stream_start_def stream_open_def w upstream_failure_def
        retry_after_header_def n_def reject_def Let_def)
  with n due show ?thesis by blast
qed

definition outage_gateway :: gateway where
  "outage_gateway = demo_gateway\<lparr>cs_pool := one_tripped\<rparr>"

theorem outage_answers_503_witness:
  "\<exists>n st'. chat_completions default_settings (quiet_env (Answer demo_response)) demo_principal demo_raw outage_gateway =
     ([], Http_error 503 ''all_replicas_open'' [(''Retry-After'', str_int n)], st') \<and> n \<le> 60"
proof -
  have pool: "cs_pool outage_gateway = one_tripped" and q: "gw_quota outage_gateway = new_quota"
    by (simp_all add: outage_gateway_def demo_gateway_def)
  have ok: "pool_ok (cs_pool outage_gateway)" by (simp add: pool one_tripped_simps)
  have reach: "breaker_reachable (breaker_of (cs_pool outage_gateway) u) 1" if "u \<in> set (up_urls (cs_pool outage_gateway))" for u
    using that tripped_reachable [of 1 "''a''" "''0''"] by (simp add: pool one_tripped_simps tripped_def)
  have shut: "rb_state (breaker_of (cs_pool outage_gateway) u) \<noteq> CLOSED" if "u \<in> set (up_urls (cs_pool outage_gateway))" for u
    using that by (simp add: pool one_tripped_simps)
  have t: "net_pick_time (ce_net (quiet_env (Answer demo_response))) 0 = 1" by (simp add: quiet_env_def still_net_def)
  have g: "quota_gate demo_principal (gw_quota outage_gateway) = Inr (Some ''a1'', new_quota\<lparr>q_inflight := [''a1'' \<mapsto> 1]\<rparr>)"
    by (simp add: q demo_gate)
  from outage_answers_503 [OF default_breaker ok reach shut t demo_validates g] show ?thesis by auto
qed

subsection \<open>What an answered request costs\<close>

lemma count_kind_int:
  "0 \<le> a \<Longrightarrow> \<exists>m. count_kind label kind (JInt a) st = Inr (a, st\<lparr>cs_metrics := m\<rparr>) \<and>
     (\<forall>l. counter_value (tokens_total m) l = counter_value (tokens_total (cs_metrics st)) l + (if l = (label, kind) then a else 0))"
  by (cases "a = 0") (force simp: count_kind_def)+

lemma charge_ints:
  assumes "get_default usage ''prompt_tokens'' JNull = JInt a" and "get_default usage ''completion_tokens'' JNull = JInt b"
    and "0 \<le> a" and "0 \<le> b"
  shows "\<exists>m. charge_usage cfg model usage keyid st =
       (None, (case keyid of None \<Rightarrow> st\<lparr>cs_metrics := m\<rparr>
          | Some k \<Rightarrow> st\<lparr>cs_metrics := m, gw_quota := record_usage (gw_quota st) k (a + b)\<rparr>)) \<and>
     (\<forall>l. counter_value (tokens_total m) l = counter_value (tokens_total (cs_metrics st)) l +
        (if l = (safe_model cfg model, ''prompt'') then a else 0) +
        (if l = (safe_model cfg model, ''completion'') then b else 0))"
proof -
  obtain m1 where m1: "count_kind (safe_model cfg model) ''prompt'' (JInt a) st = Inr (a, st\<lparr>cs_metrics := m1\<rparr>)"
    "\<And>l. counter_value (tokens_total m1) l = counter_value (tokens_total (cs_metrics st)) l +
        (if l = (safe_model cfg model, ''prompt'') then a else 0)"
    using count_kind_int [OF assms(3)] by blast
  obtain m2 where m2: "count_kind (safe_model cfg model) ''completion'' (JInt b) (st\<lparr>cs_metrics := m1\<rparr>) =
      Inr (b, st\<lparr>cs_metrics := m2\<rparr>)"
    "\<And>l. counter_value (tokens_total m2) l = counter_value (tokens_total m1) l +
        (if l = (safe_model cfg model, ''completion'') then b else 0)"
    using count_kind_int [OF assms(4), of "safe_model cfg model" "''completion''" "st\<lparr>cs_metrics := m1\<rparr>"] by auto
  have "charge_usage cfg model usage keyid st =
       (None, (case keyid of None \<Rightarrow> st\<lparr>cs_metrics := m2\<rparr>
          | Some k \<Rightarrow> st\<lparr>cs_metrics := m2, gw_quota := record_usage (gw_quota st) k (a + b)\<rparr>))"
    using assms(1,2) by (simp add: charge_usage_def m1(1) m2(1) split: option.split)
  with m1(2) m2(2) show ?thesis by auto
qed

text \<open>C26. What an answered request costs: when the replica answers below 400 with a usage object, the
  caller gets that payload unchanged, its key is charged the sum of the two token counts and no
  other key anything, the two token counters of the (folded) model rise by exactly those counts,
  and one audit record names the replica, the status, the key and the counts.\<close>

theorem answered_request_is_charged:
  assumes "chat_validate cfg (ce_repr env) p raw = Inr (model, body, False)"
    and "quota_gate p (gw_quota st) = Inr (rk, q)"
    and "request cfg (ce_net env) ''/chat/completions'' (JObj body) (st\<lparr>gw_quota := q\<rparr>) = (tr, Inr (u, resp), st1)"
    and "rs_status resp < 400" and "json_loads_bytes (rs_content resp) = Some (JObj payload)"
    and "get_default payload ''usage'' JNull = JObj usage"
    and "get_default usage ''prompt_tokens'' JNull = JInt a" and "get_default usage ''completion_tokens'' JNull = JInt b"
    and "0 \<le> a" and "0 \<le> b" and "ce_audit_ok env"
  shows "\<exists>st' r. chat_completions cfg env p raw st = (tr, Json_response (JObj payload), st') \<and>
     (\<forall>k. tokens_used (gw_quota st') k = tokens_used (gw_quota st1) k + (if pr_keyid p = Some k then a + b else 0)) \<and>
     (\<forall>l. counter_value (tokens_total (cs_metrics st')) l = counter_value (tokens_total (cs_metrics st1)) l +
        (if l = (safe_model cfg model, ''prompt'') then a else 0) +
        (if l = (safe_model cfg model, ''completion'') then b else 0)) \<and>
     gw_audit st' = gw_audit st1 @ [r] \<and> au_status r = rs_status resp \<and> au_upstream r = Some u \<and>
     au_prompt_tokens r = JInt a \<and> au_completion_tokens r = JInt b \<and> au_keyid r = pr_keyid p \<and>
     au_model r = model \<and> au_reason r = None"
proof -
  let ?st2 = "release_slot rk st1"
  obtain m where m: "charge_usage cfg model usage (pr_keyid p) ?st2 =
       (None, (case pr_keyid p of None \<Rightarrow> ?st2\<lparr>cs_metrics := m\<rparr>
          | Some k \<Rightarrow> ?st2\<lparr>cs_metrics := m, gw_quota := record_usage (gw_quota ?st2) k (a + b)\<rparr>))"
    "\<And>l. counter_value (tokens_total m) l = counter_value (tokens_total (cs_metrics ?st2)) l +
        (if l = (safe_model cfg model, ''prompt'') then a else 0) +
        (if l = (safe_model cfg model, ''completion'') then b else 0)"
    using charge_ints [OF assms(7-10)] by blast
  have ne: "usage \<noteq> []" using assms(7) by (auto simp: get_default_def)
  have g: "get_default usage ''prompt_tokens'' (JInt 0) = JInt a" "get_default usage ''completion_tokens'' (JInt 0) = JInt b"
    using assms(7,8) by (auto simp: get_default_def split: option.splits)
  have r: "tokens_used (gw_quota ?st2) k = tokens_used (gw_quota st1) k" "cs_metrics ?st2 = cs_metrics st1"
    "gw_audit ?st2 = gw_audit st1" for k
    by (simp_all add: release_slot_def split: option.split)
  show ?thesis
    using assms(1-6,9-11) m ne g r
    by (cases "pr_keyid p")
      (simp_all add: chat_completions_def chat_forward_def answer_complete_def py_or_def write_audit_def audit_write_def)
qed

theorem answered_request_is_charged_witness:
  "\<exists>tr st'. chat_completions default_settings (quiet_env (Answer demo_response)) demo_principal demo_raw demo_gateway =
     (tr, Json_response (JObj [(''usage'', JObj [(''prompt_tokens'', JInt 3), (''completion_tokens'', JInt 4)])]), st') \<and>
     tokens_used (gw_quota st') ''a1'' = 7"
proof -
  have g: "quota_gate demo_principal (gw_quota demo_gateway) = Inr (Some ''a1'', new_quota\<lparr>q_inflight := [''a1'' \<mapsto> 1]\<rparr>)"
    using demo_gate by (simp add: demo_gateway_def)
  let ?q = "new_quota\<lparr>q_inflight := [''a1'' \<mapsto> 1]\<rparr>"
  obtain pl m where f: "request default_settings (ce_net (quiet_env (Answer demo_response))) ''/chat/completions''
      (JObj demo_sent) (demo_gateway\<lparr>gw_quota := ?q\<rparr>) =
      ([Sent ''a'' (attempt_url ''/chat/completions'' ''a'') (JObj demo_sent) (Inr (Answer demo_response))],
       Inr (''a'', demo_response), demo_gateway\<lparr>gw_quota := ?q, cs_pool := pl, cs_metrics := m\<rparr>)"
    using demo_forwards [where path = "''/chat/completions''" and body = "JObj demo_sent" and stream = False and q = ?q]
    unfolding quiet_env_def chat_env.simps by blast
  have l: "json_loads_bytes (rs_content demo_response) =
      Some (JObj [(''usage'', JObj [(''prompt_tokens'', JInt 3), (''completion_tokens'', JInt 4)])])"
    by (simp add: demo_response_def demo_answer_loads)
  show ?thesis
    using answered_request_is_charged [OF demo_validates g f _ l, of "[(''prompt_tokens'', JInt 3), (''completion_tokens'', JInt 4)]" 3 4]
    by (fastforce simp: demo_response_def get_default_def demo_principal_simps quiet_env_def tokens_used_def new_quota_def)
qed

subsection \<open>The handler refines the slot ledger\<close>

text \<open>The tokens an answer reports, as the handler counts them.\<close>

definition counted :: "json \<Rightarrow> int" where
  "counted v = (if json_truth v then (case token_count v of Inl _ \<Rightarrow> 0 | Inr n \<Rightarrow> n) else 0)"

definition usage_cost :: "(string \<times> json) list \<Rightarrow> int" where
  "usage_cost usage = counted (get_default usage ''prompt_tokens'' JNull) + counted (get_default usage ''completion_tokens'' JNull)"

definition answer_cost :: "response \<Rightarrow> int" where
  "answer_cost resp =
     (case json_loads_bytes (rs_content resp) of
        Some (JObj payload) \<Rightarrow> (case get_default payload ''usage'' JNull of JObj usage \<Rightarrow> usage_cost usage | _ \<Rightarrow> 0)
      | _ \<Rightarrow> 0)"

lemma counted_nonneg: "0 \<le> counted v"
  by (cases v) (auto simp: counted_def)

lemma usage_cost_nonneg: "0 \<le> usage_cost usage"
  using counted_nonneg by (simp add: usage_cost_def)

lemma answer_cost_nonneg: "0 \<le> answer_cost resp"
  using usage_cost_nonneg by (auto simp: answer_cost_def split: option.split json.split)

lemma count_kind_counted:
  "count_kind label kind v st = Inr (n, st') \<Longrightarrow> n = counted v \<and> gw_quota st' = gw_quota st"
  by (auto simp: count_kind_def counted_def bindE_Inr split: if_splits)

lemma charge_usage_quota:
  assumes "charge_usage cfg model usage (Some k) st = (e, st')"
  shows "gw_quota st' = record_usage (gw_quota st) k (if e = None then usage_cost usage else 0)"
  using assms
  by (auto simp: charge_usage_def usage_cost_def Let_def record_usage_def counted_def
      split: sum.splits if_splits dest!: count_kind_counted)

lemma quota_reachable_trans:
  "(quota_step budget cap most)\<^sup>*\<^sup>* s t \<Longrightarrow> quota_reachable budget cap most s \<Longrightarrow> quota_reachable budget cap most t"
  by (induction rule: rtranclp_induct) (auto intro: quota_reachable.step)

lemma record_usage_0 [simp]: "record_usage q k 0 = q"
  by (simp add: record_usage_def)

lemma answer_complete_quota:
  assumes "pr_keyid p = Some k"
  shows "\<exists>n. gw_quota (snd (answer_complete cfg env p model u resp st)) = record_usage (gw_quota st) k n \<and>
     0 \<le> n \<and> n \<le> answer_cost resp"
proof -
  have c: "0 \<le> answer_cost resp" by (rule answer_cost_nonneg)
  show ?thesis
  proof (cases "rs_status resp < 400")
    case False
    have "gw_quota (snd (answer_complete cfg env p model u resp st)) = record_usage (gw_quota st) k 0"
      using False by (simp add: answer_complete_def get_default_def py_or_def charge_usage_def write_audit_def)
    with c show ?thesis by blast
  next
    case True
    show ?thesis
    proof (cases "\<exists>payload usage. json_loads_bytes (rs_content resp) = Some (JObj payload) \<and>
        get_default payload ''usage'' JNull = JObj usage \<and> usage \<noteq> []")
      case T: True
      then obtain payload usage where pu: "json_loads_bytes (rs_content resp) = Some (JObj payload)"
        "get_default payload ''usage'' JNull = JObj usage" "usage \<noteq> []" by blast
      obtain e st' where ch: "charge_usage cfg model usage (Some k) st = (e, st')" by fastforce
      have "gw_quota (snd (answer_complete cfg env p model u resp st)) = gw_quota st'"
        using True pu ch assms by (cases e) (simp_all add: answer_complete_def py_or_def write_audit_def Let_def)
      with charge_usage_quota [OF ch] pu(1,2) c show ?thesis
        by (intro exI [of _ "if e = None then usage_cost usage else 0"]) (simp add: answer_cost_def)
    next
      case F: False
      have "gw_quota (snd (answer_complete cfg env p model u resp st)) = record_usage (gw_quota st) k 0"
        using True F assms
        by (auto simp: answer_complete_def py_or_def write_audit_def charge_usage_def get_default_def Let_def
            split: option.split json.split)
      with c show ?thesis by blast
    qed
  qed
qed

lemma request_finishes_quota:
  assumes "chat_validate cfg (ce_repr env) p raw = Inr (model, body, False)"
    and "pr_keyid p = Some k" and "quota_gate p (gw_quota st) = Inr (Some k, q)"
    and "request cfg (ce_net env) ''/chat/completions'' (JObj body) (st\<lparr>gw_quota := q\<rparr>) = (tr, r, st1)"
    and "chat_completions cfg env p raw st = (tr', h, st')"
  shows "\<exists>n. gw_quota st' = quota_finish (gw_quota st1) k n \<and> 0 \<le> n \<and>
     (case r of Inl e \<Rightarrow> n = 0 | Inr (u, resp) \<Rightarrow> n \<le> answer_cost resp)"
proof (cases r)
  case (Inl e)
  have "gw_quota st2 = gw_quota st1" if "upstream_failure env p model e st1 = (h2, st2)" for h2 st2
    using slots_upstream_failure [of env p model e st1] that by simp
  with Inl assms show ?thesis
    by (auto simp: chat_completions_def chat_forward_def quota_finish_def release_slot_def split: prod.splits)
next
  case (Inr ur)
  obtain u resp where ur: "ur = (u, resp)" by (cases ur)
  have "st' = snd (answer_complete cfg env p model u resp (release_slot (Some k) st1))"
    using assms Inr ur by (auto simp: chat_completions_def chat_forward_def split: prod.splits)
  with answer_complete_quota [OF assms(2), of cfg env model u resp "release_slot (Some k) st1"] Inr ur
  show ?thesis by (auto simp: quota_finish_def release_slot_def)
qed

text \<open>The handler implements the slot ledger: a non-streamed request of a key with both limits, seen
  from the quota tracker, is one admission (or refusal) and one finish with the tokens it is
  charged, whatever ledger steps other requests make while it waits. So reachable ledger states
  stay reachable, and the invariants of \<open>Quota\<close> (exact in-flight counts, bounded overshoot)
  hold of the running gateway.\<close>

theorem chat_refines_quota:
  assumes "chat_validate cfg (ce_repr env) p raw = Inr (model, body, False)"
    and "pr_keyid p = Some k" and "pr_token_budget p = Some (budget k)" and "pr_max_concurrency p = Some (cap k)"
    and "chat_completions cfg env p raw st = (tr, h, st')"
    and "quota_reachable budget cap most \<lparr>qs_quota = gw_quota st, qs_live = live\<rparr>"
    and "0 \<le> most"
    and "\<And>q tr r st1. request cfg (ce_net env) ''/chat/completions'' (JObj body) (st\<lparr>gw_quota := q\<rparr>) = (tr, r, st1) \<Longrightarrow>
       (\<exists>live'. (quota_step budget cap most)\<^sup>*\<^sup>* \<lparr>qs_quota = q, qs_live = k # live\<rparr>
          \<lparr>qs_quota = gw_quota st1, qs_live = live'\<rparr> \<and> k \<in> set live') \<and>
       (case r of Inl e \<Rightarrow> True | Inr (u, resp) \<Rightarrow> answer_cost resp \<le> most)"
  shows "\<exists>live'. quota_reachable budget cap most \<lparr>qs_quota = gw_quota st', qs_live = live'\<rparr>"
proof (cases "quota_admit (gw_quota st) k (budget k) (cap k)")
  case (Inl e)
  then have "quota_gate p (gw_quota st) = Inl e"
    using assms(2-4) by (auto simp: quota_gate_def quota_admit_def split: sum.splits)
  then have "gw_quota st' = gw_quota st"
    using assms(1,5) reject_fields(1) [of env 429 e p model "[]" st] by (auto simp: chat_completions_def split: prod.splits)
  with assms(6) show ?thesis by auto
next
  case (Inr q)
  have g: "quota_gate p (gw_quota st) = Inr (Some k, q)"
    using Inr assms(2-4) by (auto simp: quota_gate_def quota_admit_def split: sum.splits)
  obtain tr1 r st1 where w: "request cfg (ce_net env) ''/chat/completions'' (JObj body) (st\<lparr>gw_quota := q\<rparr>) = (tr1, r, st1)"
    by (rule prod_cases3)
  obtain live' where during: "(quota_step budget cap most)\<^sup>*\<^sup>* \<lparr>qs_quota = q, qs_live = k # live\<rparr>
      \<lparr>qs_quota = gw_quota st1, qs_live = live'\<rparr>" "k \<in> set live'" using assms(8) [OF w] by blast
  obtain n where n: "gw_quota st' = quota_finish (gw_quota st1) k n" "n \<le> most"
    using request_finishes_quota [OF assms(1,2) g w assms(5)] assms(7) assms(8) [OF w]
    by (auto split: sum.splits)
  have "quota_step budget cap most \<lparr>qs_quota = gw_quota st, qs_live = live\<rparr> \<lparr>qs_quota = q, qs_live = k # live\<rparr>"
    using quota_step.admit [of "\<lparr>qs_quota = gw_quota st, qs_live = live\<rparr>" k budget cap q] Inr by simp
  with assms(6) have "quota_reachable budget cap most \<lparr>qs_quota = q, qs_live = k # live\<rparr>"
    by (rule quota_reachable.step)
  from quota_reachable_trans [OF during(1) this]
  have "quota_reachable budget cap most \<lparr>qs_quota = gw_quota st1, qs_live = live'\<rparr>" .
  moreover have "quota_step budget cap most \<lparr>qs_quota = gw_quota st1, qs_live = live'\<rparr>
      \<lparr>qs_quota = gw_quota st', qs_live = remove1 k live'\<rparr>"
    using quota_step.finish [of k "\<lparr>qs_quota = gw_quota st1, qs_live = live'\<rparr>" n] during(2) n by simp
  ultimately show ?thesis by (blast intro: quota_reachable.step)
qed

lemma demo_request_all:
  "request default_settings (ce_net (quiet_env (Answer demo_response))) ''/chat/completions'' (JObj demo_sent)
     (demo_gateway\<lparr>gw_quota := q\<rparr>) = (tr, r, st1) \<Longrightarrow> gw_quota st1 = q \<and> r = Inr (''a'', demo_response)"
  using demo_forwards [where path = "''/chat/completions''" and body = "JObj demo_sent" and stream = False and q = q]
  unfolding quiet_env_def chat_env.simps by auto

theorem chat_refines_quota_witness:
  "\<exists>live. quota_reachable (\<lambda>_. 9) (\<lambda>_. 1) 7 \<lparr>qs_quota = gw_quota (snd (snd (chat_completions default_settings
      (quiet_env (Answer demo_response)) demo_principal demo_raw demo_gateway))), qs_live = live\<rparr>"
proof -
  let ?env = "quiet_env (Answer demo_response)"
  obtain tr h st' where c: "chat_completions default_settings ?env demo_principal demo_raw demo_gateway = (tr, h, st')"
    by (rule prod_cases3)
  have cost: "answer_cost demo_response = 7"
    by (simp add: answer_cost_def demo_response_def demo_answer_loads get_default_def usage_cost_def counted_def)
  have "quota_reachable (\<lambda>_. 9) (\<lambda>_. 1) 7 \<lparr>qs_quota = gw_quota demo_gateway, qs_live = []\<rparr>"
    by (simp add: demo_gateway_def quota_reachable.start)
  from chat_refines_quota [OF demo_validates demo_principal_simps(1) _ _ c this] demo_request_all cost
  have "\<exists>live. quota_reachable (\<lambda>_. 9) (\<lambda>_. 1) 7 \<lparr>qs_quota = gw_quota st', qs_live = live\<rparr>"
    by (fastforce simp: demo_principal_simps)
  with c show ?thesis by simp
qed

end
