(* ===== verification/App.thy ===== *)
theory App
  imports Gateway Background Routes
begin

section \<open>The application (gateway/main.py)\<close>

text \<open>
  The process: the pool, the authentication singletons, the background tasks and the log lines of
  its life, from start to stop; and the table of routes with the dependencies each one has. A
  request for anything else is the framework's affair.
\<close>

subsection \<open>Start and stop\<close>

text \<open>A task runs until it is cancelled (its loop lets a cancellation through) or has ended with an
  exception.\<close>

datatype task_status = Task_running | Task_ended py_exn

record app_state =
  ap_gateway :: gateway
  ap_auth :: auth_state
  ap_tasks :: "(string \<times> task_status) list"
  ap_log :: "(string \<times> string) list"

definition TASKS :: "string list" where
  "TASKS = [''upstream-metrics'', ''loop-lag'', ''breaker-prober'']"

definition show_list :: "string list \<Rightarrow> string" where
  "show_list xs = py_repr (\<lambda>_. []) (JArr (map JStr xs))"

fun upstream_lines :: "nat \<Rightarrow> string list \<Rightarrow> (string \<times> string) list" where
  "upstream_lines i [] = []"
| "upstream_lines i (u # us) = (''INFO'', ''upstream '' @ str_int (int i) @ '' = '' @ u) # upstream_lines (i + 1) us"

definition startup_log :: "settings \<Rightarrow> upool \<Rightarrow> (string \<times> string) list" where
  "startup_log cfg p =
     [(''INFO'', ''gateway up: upstreams='' @ show_list (up_urls p) @ '' allowed_models='' @ show_list (ALLOWED_MODELS cfg))] @
     upstream_lines 0 (up_urls p) @
     (if AUDIT_INCLUDE_PROMPT_TEXT cfg then
        [(''ERROR'', ''AUDIT_INCLUDE_PROMPT_TEXT is on. Prompt text will be written to the '' @
          ''audit log, which makes it a PII store. This must not be the case in '' @
          ''any deployed environment.'')]
      else []) @
     (if API_KEY_PEPPER cfg = [] then
        [(''WARNING'', ''API_KEY_PEPPER is unset. Key hashes are salted but not peppered, so '' @
          ''a stolen key store is sufficient for an offline attack.'')]
      else [])"

definition with_pool :: "(upool \<Rightarrow> upool) \<Rightarrow> app_state \<Rightarrow> app_state" where
  "with_pool f st = st\<lparr>ap_gateway := (ap_gateway st)\<lparr>cs_pool := f (cs_pool (ap_gateway st))\<rparr>\<rparr>"

definition lifespan_start :: "settings \<Rightarrow> app_state \<Rightarrow> py_exn + app_state" where
  "lifespan_start cfg st =
     bindE (pool_start cfg (cs_pool (ap_gateway st))) (\<lambda>p.
       Inr (with_pool (\<lambda>_. p) st
              \<lparr>ap_log := ap_log st @ startup_log cfg p, ap_tasks := map (\<lambda>n. (n, Task_running)) TASKS\<rparr>))"

definition cancel_task :: "task_status \<Rightarrow> task_status" where
  "cancel_task t = (case t of Task_running \<Rightarrow> Task_ended CancelledError | Task_ended e \<Rightarrow> t)"

text \<open>\<open>await t\<close> of every task in turn: a cancellation is swallowed, any other exception leaves the
  loop.\<close>

fun await_tasks :: "(string \<times> task_status) list \<Rightarrow> py_exn option" where
  "await_tasks [] = None"
| "await_tasks ((n, t) # ts) =
     (case t of
        Task_ended e \<Rightarrow> if e = CancelledError then await_tasks ts else Some e
      | Task_running \<Rightarrow> await_tasks ts)"

definition lifespan_stop :: "app_state \<Rightarrow> py_exn option \<times> app_state" where
  "lifespan_stop st =
     (let st = st\<lparr>ap_tasks := map (apsnd cancel_task) (ap_tasks st)\<rparr> in
      case await_tasks (ap_tasks st) of
        Some e \<Rightarrow> (Some e, st)
      | None \<Rightarrow> (None, with_pool pool_stop st\<lparr>ap_log := ap_log st @ [(''INFO'', ''gateway down'')]\<rparr>))"

subsection \<open>The routes\<close>

datatype endpoint = Healthz | Readyz | Metrics_page | Models | Chat_completions

text \<open>The routers in the order they are included.\<close>

definition ROUTES :: "((string \<times> string) \<times> endpoint) list" where
  "ROUTES =
     [((''GET'', ''/healthz''), Healthz), ((''GET'', ''/readyz''), Readyz), ((''GET'', ''/metrics''), Metrics_page),
      ((''GET'', ''/v1/models''), Models), ((''POST'', ''/v1/chat/completions''), Chat_completions)]"

record app_request =
  rq_method :: string
  rq_path :: string
  rq_authorization :: "string option"
  rq_body :: string

text \<open>What a request can be answered: a JSON object, a text, the answer of the chat route, a refusal of
  the credential, an exception (a 500), or what the framework does with an unknown route.\<close>

datatype app_answer =
    App_json int "(string \<times> json) list"
  | App_text int string
  | App_chat served
  | App_unauthorized
  | App_crash
  | App_framework

text \<open>What the routes read beside the state: the key file, PyJWT, argon2, the clock, the probes of
  \<open>/readyz\<close> and the exposition text.\<close>

record app_env =
  ae_chat :: chat_env
  ae_key_file :: "string option"
  ae_decode :: "jwt_call \<Rightarrow> decode_result"
  ae_dummy_hash :: string
  ae_argon :: "string \<Rightarrow> string \<Rightarrow> argon_result"
  ae_now :: real
  ae_probe :: "string \<Rightarrow> send_exn + int"
  ae_exposition :: string

text \<open>\<open>Depends(get_key_store)\<close> and \<open>Depends(get_jwt_verifier)\<close>.\<close>

definition auth_deps ::
  "settings \<Rightarrow> app_env \<Rightarrow> auth_state \<Rightarrow> (key_store \<times> jwt_verifier) option \<times> auth_state" where
  "auth_deps cfg env au =
     (let (s, au) = get_key_store (ae_key_file env) au in
      case s of
        Inl e \<Rightarrow> (None, au)
      | Inr s \<Rightarrow>
          (let (v, au) = get_jwt_verifier cfg au in
           case v of Inl e \<Rightarrow> (None, au) | Inr v \<Rightarrow> (Some (s, v), au)))"

text \<open>Verifying a key goes through the argon2 limiter, which its first use creates.\<close>

definition auth_limited :: "settings \<Rightarrow> string option \<Rightarrow> auth_state \<Rightarrow> auth_state" where
  "auth_limited cfg authorization au =
     (case credential_of authorization of
        None \<Rightarrow> au
      | Some credential \<Rightarrow> if is_jwt_shape credential then au else snd (argon2_limiter cfg au))"

definition serve_models :: "settings \<Rightarrow> app_env \<Rightarrow> key_store \<Rightarrow> jwt_verifier \<Rightarrow> string option \<Rightarrow> app_answer" where
  "serve_models cfg env s v authorization =
     (case snd (require_principal cfg (ce_repr (ae_chat env)) (ae_decode env) (ae_dummy_hash env) (ae_argon env)
              (ae_now env) s v authorization) of
        Inl Unauthorized \<Rightarrow> App_unauthorized
      | Inl Crashed \<Rightarrow> App_crash
      | Inr p \<Rightarrow> App_json 200 (list_models cfg \<lfloor>ae_now env\<rfloor>))"

definition serve_app ::
  "settings \<Rightarrow> app_env \<Rightarrow> app_request \<Rightarrow> app_state \<Rightarrow> net_event list \<times> app_answer \<times> app_state" where
  "serve_app cfg env rq st =
     (case map_of ROUTES (rq_method rq, rq_path rq) of
        None \<Rightarrow> ([], App_framework, st)
      | Some Healthz \<Rightarrow> ([], App_json 200 healthz, st)
      | Some Readyz \<Rightarrow>
          (let p = cs_pool (ap_gateway st); tr = health_gets (ae_probe env) p (up_urls p) in
           case readyz (ae_probe env) p of
             Inl e \<Rightarrow> (tr, App_crash, st)
           | Inr (status, payload) \<Rightarrow> (tr, App_json status payload, st))
      | Some Metrics_page \<Rightarrow> (let (status, content) = metrics_route cfg (ae_exposition env) in ([], App_text status content, st))
      | Some Models \<Rightarrow>
          (case auth_deps cfg env (ap_auth st) of
             (None, au) \<Rightarrow> ([], App_crash, st\<lparr>ap_auth := au\<rparr>)
           | (Some (s, v), au) \<Rightarrow> ([], serve_models cfg env s v (rq_authorization rq),
              st\<lparr>ap_auth := auth_limited cfg (rq_authorization rq) au\<rparr>))
      | Some Chat_completions \<Rightarrow>
          (case auth_deps cfg env (ap_auth st) of
             (None, au) \<Rightarrow> ([], App_crash, st\<lparr>ap_auth := au\<rparr>)
           | (Some (s, v), au) \<Rightarrow>
               (let (tr, h, g) = serve_chat cfg (ae_chat env) (ae_decode env) (ae_dummy_hash env) (ae_argon env) (ae_now env)
                                   s v (rq_authorization rq) (rq_body rq) (ap_gateway st)
                in (tr, App_chat h, st\<lparr>ap_auth := auth_limited cfg (rq_authorization rq) au, ap_gateway := g\<rparr>))))"

subsection \<open>The front door\<close>

text \<open>The bearer credential \<open>sa\<close> stands for the principal \<open>p\<close>: the configured verifier accepted the
  JWT, or the key's live stored record matches its secret.\<close>

definition vouched :: "settings \<Rightarrow> app_env \<Rightarrow> key_store \<Rightarrow> jwt_verifier \<Rightarrow> string \<Rightarrow> principal \<Rightarrow> bool" where
  "vouched cfg env s v sa p \<longleftrightarrow>
     (if is_jwt_shape sa
      then \<exists>c. genuine_jwt cfg (ae_decode env) v sa c \<and> jwt_principal (ce_repr (ae_chat env)) c = Inr p
      else \<exists>r. genuine_key cfg (ae_argon env) (ae_now env) s sa r \<and> p = key_principal r)"

lemma serve_models_guarded:
  assumes "serve_models cfg env s v a = App_json status d"
  shows "\<exists>sa p. credential_of a = Some sa \<and> vouched cfg env s v sa p"
proof -
  obtain mark res where r: "require_principal cfg (ce_repr (ae_chat env)) (ae_decode env) (ae_dummy_hash env) (ae_argon env)
      (ae_now env) s v a = (mark, res)" by fastforce
  with assms obtain p where p: "res = Inr p" by (auto simp: serve_models_def split: sum.splits auth_failure.splits)
  from bearer.authenticate_sound [OF r [unfolded require_principal_def p]] show ?thesis unfolding vouched_def by blast
qed

text \<open>The handler sends completions only, and waits and closes between them.\<close>

definition chat_event :: "net_event \<Rightarrow> bool" where
  "chat_event ev \<longleftrightarrow>
     (case ev of Sent u url b x \<Rightarrow> url = attempt_url ''/chat/completions'' u | Probed url \<Rightarrow> False | _ \<Rightarrow> True)"

definition chat_trace :: "net_event list \<Rightarrow> bool" where
  "chat_trace tr \<longleftrightarrow> (\<forall>ev \<in> set tr. chat_event ev) \<and> (tr = [] \<or> sends tr \<noteq> [])"

lemma chat_trace_simps [simp]:
  "chat_trace []" "chat_trace (Sent u (attempt_url ''/chat/completions'' u) b x # tr) \<longleftrightarrow> (\<forall>ev \<in> set tr. chat_event ev)"
  by (simp_all add: chat_trace_def chat_event_def)

lemma chat_event_simps [simp]: "chat_event Closed" "chat_event (Slept d)"
  by (simp_all add: chat_event_def)

lemma retry_loop_trace:
  "retry_loop cfg net ''/chat/completions'' body stream a exclude st = (tr, r, st') \<Longrightarrow> chat_trace tr"
proof (induction "MAX_ATTEMPTS - a" arbitrary: a exclude st tr r st' rule: less_induct)
  case less
  from less.prems show ?case
  proof (cases rule: retry_loop_cases)
    case (ended u x e mid)
    then show ?thesis by (auto dest: subsetD)
  next
    case (again u x resp tr' st2)
    have "\<forall>ev \<in> set tr'. chat_event ev" using less.hyps [OF _ again(4)] again(2) by (simp add: chat_trace_def)
    with again(1) show ?thesis by auto
  qed simp_all
qed

lemma with_retry_trace: "with_retry cfg net ''/chat/completions'' body stream st = (tr, r, st') \<Longrightarrow> chat_trace tr"
  unfolding with_retry_def by (rule retry_loop_trace)

lemma chat_completions_trace:
  assumes "chat_completions cfg env p raw st = (tr, h, st')"
  shows "chat_trace tr"
  using assms
  by (auto simp: chat_completions_def chat_forward_def stream_start_def stream_open_def Let_def
      dest: with_retry_trace split: sum.splits refusal.splits prod.splits if_splits option.splits)

lemma serve_chat_trace:
  "serve_chat cfg env decode dh argon now s v a raw st = (tr, h, st') \<Longrightarrow> chat_trace tr"
  by (auto simp: serve_chat_def dest: chat_completions_trace split: sum.splits auth_failure.splits prod.splits)

text \<open>The request carries a credential that stands for the principal \<open>p\<close>.\<close>

definition admitted :: "settings \<Rightarrow> app_env \<Rightarrow> app_request \<Rightarrow> app_state \<Rightarrow> principal \<Rightarrow> bool" where
  "admitted cfg env rq st p \<longleftrightarrow>
     (\<exists>store v au sa. auth_deps cfg env (ap_auth st) = (Some (store, v), au) \<and>
        credential_of (rq_authorization rq) = Some sa \<and> vouched cfg env store v sa p)"

lemma serve_chat_admitted:
  assumes "serve_chat cfg (ae_chat env) (ae_decode env) (ae_dummy_hash env) (ae_argon env) (ae_now env) s v
      (rq_authorization rq) raw g = (tr, h, g')"
    and "auth_deps cfg env (ap_auth st) = (Some (s, v), au)" and "ev \<in> set tr"
  shows "chat_event ev \<and> (\<exists>p. admitted cfg env rq st p \<and> has_scope p ''chat'')"
proof -
  have t: "chat_event ev" "sends tr \<noteq> []" using serve_chat_trace [OF assms(1)] assms(3) by (auto simp: chat_trace_def)
  then obtain sa p where "credential_of (rq_authorization rq) = Some sa" "vouched cfg env s v sa p" "has_scope p ''chat''"
    using serve_chat_guarded [OF assms(1)] unfolding vouched_def by blast
  with t(1) assms(2) show ?thesis unfolding admitted_def by blast
qed

text \<open>The readiness route sends its probes and nothing else, and all of them unless a cancellation ends
  it.\<close>

lemma readyz_gets:
  assumes "up_client p \<noteq> None" and "readyz get p = Inr x"
  shows "health_gets get p (up_urls p) = map (Probed \<circ> probe_url) (up_urls p)"
proof -
  obtain reps where "health get p = Inr reps"
    using assms(2) health_from_exn [of get p "[]" "up_urls p"]
    by (cases "health get p") (auto simp: readyz_def health_def is_Exception_def)
  then show ?thesis using health_gets_all [OF assms(1)] by (simp add: health_def)
qed

text \<open>C1. What any request can make the application do to the replicas. Whatever request arrives at
  whatever route: a completion is sent to a replica (or a wait or a close between two attempts happens)
  only by a POST to \<open>/v1/chat/completions\<close> whose header carries a JWT the configured verifier accepts
  or an API key whose live stored record matches the secret, and only with the \<open>chat\<close> scope; the one
  thing a request without a credential reaches at the replicas is the bodiless \<open>GET\<close> of
  \<open>/models\<close> that \<open>/readyz\<close> sends to each of them, in the configured order; and the model list is
  given only to a request with a credential.\<close>

theorem front_door:
  assumes "serve_app cfg env rq st = (tr, ans, st')"
  shows "(\<forall>ev \<in> set tr. case ev of
        Probed url \<Rightarrow> rq_method rq = ''GET'' \<and> rq_path rq = ''/readyz'' \<and>
          url \<in> probe_url ` set (up_urls (cs_pool (ap_gateway st)))
      | _ \<Rightarrow> rq_method rq = ''POST'' \<and> rq_path rq = ''/v1/chat/completions'' \<and> chat_event ev \<and>
          (\<exists>p. admitted cfg env rq st p \<and> has_scope p ''chat'')) \<and>
     (rq_method rq = ''GET'' \<and> rq_path rq = ''/readyz'' \<and> up_client (cs_pool (ap_gateway st)) \<noteq> None \<and> ans \<noteq> App_crash \<longrightarrow>
        tr = map (Probed \<circ> probe_url) (up_urls (cs_pool (ap_gateway st)))) \<and>
     (\<forall>d. rq_path rq = ''/v1/models'' \<and> ans = App_json 200 d \<longrightarrow> (\<exists>p. admitted cfg env rq st p))"
proof (cases "map_of ROUTES (rq_method rq, rq_path rq)")
  case None
  with assms show ?thesis by (auto simp: serve_app_def ROUTES_def)
next
  case (Some e)
  then have path: "(rq_method rq, rq_path rq, e) \<in> {(''GET'', ''/healthz'', Healthz), (''GET'', ''/readyz'', Readyz),
      (''GET'', ''/metrics'', Metrics_page), (''GET'', ''/v1/models'', Models), (''POST'', ''/v1/chat/completions'', Chat_completions)}"
    by (auto simp: ROUTES_def split: if_splits)
  obtain deps au where d: "auth_deps cfg env (ap_auth st) = (deps, au)" by fastforce
  show ?thesis
  proof (cases e)
    case Models
    then show ?thesis using assms Some path d serve_models_guarded [of cfg env _ _ "rq_authorization rq" 200]
      by (cases deps) (auto simp: serve_app_def admitted_def, blast)
  next
    case Readyz
    let ?p = "cs_pool (ap_gateway st)"
    have tr: "tr = health_gets (ae_probe env) ?p (up_urls ?p)" and a: "ans \<noteq> App_crash \<Longrightarrow> \<exists>x. readyz (ae_probe env) ?p = Inr x"
      using assms Some Readyz by (auto simp: serve_app_def Let_def split: sum.splits prod.splits)
    have "\<forall>ev \<in> set tr. \<exists>u \<in> set (up_urls ?p). ev = Probed (probe_url u)"
      using health_gets_only [of "ae_probe env" ?p "up_urls ?p"] tr by auto
    then show ?thesis using path Readyz a tr readyz_gets [of ?p "ae_probe env"] by fastforce
  next
    case Chat_completions
    have "chat_event ev \<and> (\<exists>p. admitted cfg env rq st p \<and> has_scope p ''chat'')" if "ev \<in> set tr" for ev
      using assms Some d Chat_completions that serve_chat_admitted [of cfg env _ _ rq "rq_body rq" "ap_gateway st" tr]
      by (cases deps) (auto simp: serve_app_def split: prod.splits)
    moreover have "chat_event ev \<Longrightarrow> ev \<noteq> Probed url" for ev url by (auto simp: chat_event_def)
    ultimately show ?thesis using path Chat_completions by (fastforce split: net_event.split)
  qed (use assms Some path in \<open>auto simp: serve_app_def split: prod.splits\<close>)
qed

definition demo_app :: app_state where
  "demo_app = \<lparr>ap_gateway = demo_gateway,
     ap_auth = \<lparr>as_key_store = Some [(''a1'', snd demo_key)], as_jwt_verifier = Some demo_verifier, as_verify_limit = None\<rparr>,
     ap_tasks = [], ap_log = []\<rparr>"

definition demo_app_env :: app_env where
  "demo_app_env = \<lparr>ae_chat = quiet_env (Answer demo_response), ae_key_file = None, ae_decode = (\<lambda>_. PyJWTError),
     ae_dummy_hash = [], ae_argon = toy_argon, ae_now = 5, ae_probe = (\<lambda>_. Inr 200), ae_exposition = []\<rparr>"

definition demo_rq :: app_request where
  "demo_rq = \<lparr>rq_method = ''POST'', rq_path = ''/v1/chat/completions'', rq_authorization = Some ''Bearer bkn_live_a1_s'',
     rq_body = demo_raw\<rparr>"

theorem front_door_witness:
  "(\<exists>tr ans st'. serve_app default_settings demo_app_env demo_rq demo_app = (tr, ans, st') \<and> sends tr \<noteq> [] \<and>
     (\<exists>r. genuine_key default_settings toy_argon 5 [(''a1'', snd demo_key)] ''bkn_live_a1_s'' r \<and>
          has_scope (key_principal r) ''chat'')) \<and>
   (\<exists>ans st'. serve_app default_settings demo_app_env (demo_rq\<lparr>rq_method := ''GET'', rq_path := ''/readyz''\<rparr>) demo_app =
     ([Probed ''a/models''], ans, st'))"
proof (intro conjI)
  obtain h g where c: "serve_chat default_settings (quiet_env (Answer demo_response)) (\<lambda>_. PyJWTError) [] toy_argon 5
      [(''a1'', snd demo_key)] demo_verifier (Some ''Bearer bkn_live_a1_s'') demo_raw demo_gateway =
     ([Sent ''a'' (attempt_url ''/chat/completions'' ''a'') (JObj demo_sent) (Inr (Answer demo_response))], h, g)"
    using demo_key_chat by blast
  have deps: "auth_deps default_settings demo_app_env (ap_auth demo_app) =
      (Some ([(''a1'', snd demo_key)], demo_verifier), ap_auth demo_app)"
    by (simp add: auth_deps_def demo_app_def get_key_store_def get_jwt_verifier_def)
  have "\<exists>ans st'. serve_app default_settings demo_app_env demo_rq demo_app =
      ([Sent ''a'' (attempt_url ''/chat/completions'' ''a'') (JObj demo_sent) (Inr (Answer demo_response))], ans, st')"
    using c deps by (simp add: serve_app_def demo_rq_def ROUTES_def) (simp add: demo_app_env_def demo_app_def)
  then obtain tr ans st' where r: "serve_app default_settings demo_app_env demo_rq demo_app = (tr, ans, st')"
    and t: "tr = [Sent ''a'' (attempt_url ''/chat/completions'' ''a'') (JObj demo_sent) (Inr (Answer demo_response))]"
    by blast
  from front_door [OF r] t deps show "\<exists>tr ans st'. serve_app default_settings demo_app_env demo_rq demo_app = (tr, ans, st') \<and>
     sends tr \<noteq> [] \<and> (\<exists>r. genuine_key default_settings toy_argon 5 [(''a1'', snd demo_key)] ''bkn_live_a1_s'' r \<and>
          has_scope (key_principal r) ''chat'')"
    using r by (auto simp: admitted_def vouched_def demo_rq_def demo_credential is_jwt_shape_def demo_app_env_def)
next
  let ?rq = "demo_rq\<lparr>rq_method := ''GET'', rq_path := ''/readyz''\<rparr>"
  obtain tr ans st' where r: "serve_app default_settings demo_app_env ?rq demo_app = (tr, ans, st')" by (metis prod_cases3)
  have p: "up_client (cs_pool (ap_gateway demo_app)) \<noteq> None" "up_urls (cs_pool (ap_gateway demo_app)) = [''a'']"
    by (simp_all add: demo_app_def demo_gateway_def fresh_single_simps)
  have "ans \<noteq> App_crash"
    using r p probe_started [OF p(1), of "ae_probe demo_app_env" "''a''"]
    by (auto simp: serve_app_def ROUTES_def demo_app_env_def readyz_def health_def Let_def)
  with front_door [OF r] r p show "\<exists>ans st'. serve_app default_settings demo_app_env ?rq demo_app = ([Probed ''a/models''], ans, st')"
    by (simp add: probe_url_def py_rstrip_def)
qed

subsection \<open>Start and stop\<close>

lemma await_cancelled:
  "await_tasks (map (apsnd cancel_task) ts) \<noteq> None \<longleftrightarrow> (\<exists>n x. (n, Task_ended x) \<in> set ts \<and> x \<noteq> CancelledError)"
proof (induction ts)
  case (Cons nt ts)
  obtain n t where "nt = (n, t)" by (cases nt)
  with Cons show ?case by (cases t) (auto simp: cancel_task_def)
qed simp

text \<open>A stop is clean exactly when no background task had died: it always leaves no task running, and
  then closes the pool's client; but if a task ended with an exception of its own before, the
  stop raises that exception and the client is never closed.\<close>

theorem stop_closes_the_pool:
  assumes "lifespan_stop st = (e, st')"
  shows "(\<nexists>n. (n, Task_running) \<in> set (ap_tasks st')) \<and> map fst (ap_tasks st') = map fst (ap_tasks st) \<and>
     (if \<exists>n x. (n, Task_ended x) \<in> set (ap_tasks st) \<and> x \<noteq> CancelledError
      then e \<noteq> None \<and> ap_gateway st' = ap_gateway st
      else e = None \<and> up_client (cs_pool (ap_gateway st')) = None)"
proof -
  let ?ts = "map (apsnd cancel_task) (ap_tasks st)"
  have ts: "(n, Task_running) \<notin> set ?ts" "map fst ?ts = map fst (ap_tasks st)" for n
    by (auto simp: cancel_task_def split: task_status.splits)
  show ?thesis
  proof (cases "await_tasks ?ts")
    case None
    then have "st' = with_pool pool_stop (st\<lparr>ap_tasks := ?ts\<rparr>)\<lparr>ap_log := ap_log st @ [(''INFO'', ''gateway down'')]\<rparr>" "e = None"
      using assms by (simp_all add: lifespan_stop_def Let_def)
    moreover have "\<not> (\<exists>n x. (n, Task_ended x) \<in> set (ap_tasks st) \<and> x \<noteq> CancelledError)"
      using await_cancelled None by metis
    ultimately show ?thesis using ts by (auto simp: with_pool_def pool_stop_def)
  next
    case (Some x)
    then have "st' = st\<lparr>ap_tasks := ?ts\<rparr>" "e = Some x" using assms by (simp_all add: lifespan_stop_def Let_def)
    moreover have "\<exists>n x. (n, Task_ended x) \<in> set (ap_tasks st) \<and> x \<noteq> CancelledError"
      using await_cancelled Some by (metis option.discI)
    ultimately show ?thesis using ts by simp
  qed
qed

theorem stop_closes_the_pool_witness:
  "\<exists>st1. lifespan_start default_settings demo_app = Inr st1 \<and> up_client (cs_pool (ap_gateway st1)) \<noteq> None \<and>
     up_client (cs_pool (ap_gateway (snd (lifespan_stop st1)))) = None"
proof -
  have "UPSTREAM_CLIENT_CERT default_settings = Inr None" by (simp add: UPSTREAM_CLIENT_CERT_def default_settings_def Let_def)
  then obtain p where "pool_start default_settings (cs_pool (ap_gateway demo_app)) = Inr p" "up_client p \<noteq> None"
    by (simp add: pool_start_def upstream_ssl_context_def Let_def)
  then obtain st1 where s: "lifespan_start default_settings demo_app = Inr st1" "up_client (cs_pool (ap_gateway st1)) \<noteq> None"
    "ap_tasks st1 = map (\<lambda>n. (n, Task_running)) TASKS"
    by (simp add: lifespan_start_def with_pool_def)
  obtain e st2 where "lifespan_stop st1 = (e, st2)" by fastforce
  moreover have "\<not> (\<exists>n x. (n, Task_ended x) \<in> set (ap_tasks st1) \<and> x \<noteq> CancelledError)" using s(3) by auto
  ultimately have "up_client (cs_pool (ap_gateway st2)) = None"
    using stop_closes_the_pool [of st1 e st2] by presburger
  with s \<open>lifespan_stop st1 = (e, st2)\<close> show ?thesis by auto
qed

end
