(* ===== verification/Gateway_Invariant.thy ===== *)
theory Gateway_Invariant
  imports Relay_Laws
begin

section \<open>What a chat request keeps (gateway/routes/chat.py)\<close>

text \<open>
  The elementary updates a chat request makes to the shared state, as an interface: a property of
  the state that each of them keeps, and that the other tasks keep whenever the request waits,
  holds again after the handler and after the relay, on every path through them.
\<close>

definition known_reason :: "string option \<Rightarrow> bool" where
  "known_reason r \<longleftrightarrow> (case r of None \<Rightarrow> True | Some x \<Rightarrow> x \<in> set REJECT_REASONS)"

lemma known_reason_simps [simp]:
  "known_reason None" "known_reason (Some x) \<longleftrightarrow> x \<in> set REJECT_REASONS"
  by (simp_all add: known_reason_def)

lemma quota_gate_refuse: "quota_gate p q = Inl reason \<Longrightarrow> reason \<in> set REJECT_REASONS"
  by (auto simp: quota_gate_def bindE_Inl check_budget_def acquire_def REJECT_REASONS_def Let_def split: option.splits if_splits)

lemma token_count_nonneg: "token_count v = Inr n \<Longrightarrow> 0 \<le> n"
  by (cases v rule: json.exhaust) (auto split: if_splits)

locale gateway_invariant =
  fixes cfg :: settings and P :: "gateway \<Rightarrow> bool"
  assumes pick_keeps: "P st \<Longrightarrow> P (st\<lparr>cs_pool := snd (pick cfg exclude now (cs_pool st))\<rparr>)"
    and record_keeps: "P st \<Longrightarrow> outc \<in> set UPSTREAM_OUTCOMES \<Longrightarrow>
      P (count_upstream u outc (st\<lparr>cs_pool := pool_record u e s now (cs_pool st)\<rparr>))"
    and gate_keeps: "P st \<Longrightarrow> quota_gate p (gw_quota st) = Inr (rk, q) \<Longrightarrow> P (st\<lparr>gw_quota := q\<rparr>)"
    and release_keeps: "P st \<Longrightarrow> P (release_slot rk st)"
    and usage_keeps: "P st \<Longrightarrow> 0 \<le> n \<Longrightarrow> P (st\<lparr>gw_quota := record_usage (gw_quota st) k n\<rparr>)"
    and rejection_keeps: "P st \<Longrightarrow> r \<in> set REJECT_REASONS \<Longrightarrow> P (st\<lparr>cs_metrics := record_rejection r (cs_metrics st)\<rparr>)"
    and audit_keeps: "P st \<Longrightarrow> known_reason reason \<Longrightarrow> P (write_audit env pr model status a b up reason d st)"
    and tokens_keep: "P st \<Longrightarrow> kind \<in> {''prompt'', ''completion''} \<Longrightarrow> 0 \<le> n \<Longrightarrow>
      P (st\<lparr>cs_metrics := (cs_metrics st)\<lparr>tokens_total := inc (safe_model cfg model, kind) n (tokens_total (cs_metrics st))\<rparr>\<rparr>)"
    and missing_keeps: "P st \<Longrightarrow> P (st\<lparr>cs_metrics := (cs_metrics st)\<lparr>requests_missing_usage_total :=
      inc (safe_model cfg model) 1 (requests_missing_usage_total (cs_metrics st))\<rparr>\<rparr>)"
    and ttft_keeps: "P st \<Longrightarrow> P (observe_ttft cfg env model st)"
begin

lemma with_retry_kept:
  assumes "env_keeps P env" and "P st" and "with_retry cfg (ce_net env) path body stream st = (tr, r, st')"
  shows "P st'"
proof -
  have "client_keeps cfg P" unfolding client_keeps_def using pick_keeps record_keeps by blast
  from with_retry_keeps [OF _ this assms(2), of "ce_net env" path body stream] assms(1,3) show ?thesis
    by (simp add: env_keeps_def)
qed

lemma close_kept: "env_keeps P env \<Longrightarrow> P st \<Longrightarrow> ce_close env st = (e, st') \<Longrightarrow> P st'"
  unfolding env_keeps_def by (metis snd_conv)

lemma chunk_kept: "env_keeps P env \<Longrightarrow> P st \<Longrightarrow> P (ce_chunk env i st)"
  by (simp add: env_keeps_def)

lemma drain_kept: "env_keeps P env \<Longrightarrow> P st \<Longrightarrow> drain_error env resp st = (e, st') \<Longrightarrow> P st'"
  by (auto simp: drain_error_def Let_def split: prod.splits dest: close_kept)

lemma reject_kept: "P st \<Longrightarrow> r \<in> set REJECT_REASONS \<Longrightarrow> reject env s r p model hs st = (h, st') \<Longrightarrow> P st'"
  by (auto simp: reject_def Let_def intro: audit_keeps rejection_keeps)

lemma upstream_failure_kept:
  assumes "P st" and "upstream_failure env p model e st = (h, st')"
  shows "P st'"
  using assms by (auto simp: upstream_failure_def REJECT_REASONS_def split: send_failure.splits sum.splits elim!: reject_kept [rotated 2])

lemma count_kind_kept:
  assumes "P st" and "kind \<in> {''prompt'', ''completion''}" and "count_kind (safe_model cfg model) kind v st = Inr (n, st')"
  shows "P st' \<and> 0 \<le> n"
  using assms tokens_keep [OF assms(1,2)]
  by (auto simp: count_kind_def bindE_Inr dest: token_count_nonneg split: if_splits)

lemma charge_kept:
  assumes "P st" and "charge_usage cfg model usage keyid st = (e, st')"
  shows "P st'"
proof (cases "get_default usage ''prompt_tokens'' JNull = JNull \<and> get_default usage ''completion_tokens'' JNull = JNull")
  case True
  with assms missing_keeps show ?thesis by (auto simp: charge_usage_def Let_def)
next
  case reported: False
  note c = assms(2) [unfolded charge_usage_def Let_def if_not_P [OF reported]]
  show ?thesis
  proof (cases "count_kind (safe_model cfg model) ''prompt'' (get_default usage ''prompt_tokens'' JNull) st")
    case (Inl x)
    with c assms(1) show ?thesis by simp
  next
    case (Inr ns)
    obtain n s1 where ns: "ns = (n, s1)" by fastforce
    have s1: "P s1" "0 \<le> n" using count_kind_kept [OF assms(1) _ Inr [unfolded ns]] by simp_all
    show ?thesis
    proof (cases "count_kind (safe_model cfg model) ''completion'' (get_default usage ''completion_tokens'' JNull) s1")
      case (Inl x)
      with c Inr ns s1 show ?thesis by simp
    next
      case I2: (Inr ms)
      obtain m s2 where ms: "ms = (m, s2)" by fastforce
      have "P s2" "0 \<le> n + m" using count_kind_kept [OF s1(1) _ I2 [unfolded ms]] s1(2) by simp_all
      with c Inr ns I2 ms usage_keeps show ?thesis by (auto split: option.splits)
    qed
  qed
qed

lemma answer_kept:
  assumes "P st" and "answer_complete cfg env p model u resp st = (h, st')"
  shows "P st'"
  using assms
  by (auto simp: answer_complete_def Let_def REJECT_REASONS_def intro!: audit_keeps
      split: if_splits option.splits json.splits prod.splits elim!: reject_kept [rotated 2] dest: charge_kept)

lemma stream_open_kept:
  assumes "env_keeps P env" and "P st" and "stream_open cfg env p model body st = (tr, r, st')"
  shows "P st'"
proof -
  have rj: "P y" if "P x" "reject env s ''upstream_error'' p model [] x = (h, y)" for s h x y
    using reject_kept [OF that(1) _ that(2)] by (simp add: REJECT_REASONS_def)
  obtain tr1 r1 st1 where w: "open_stream cfg (ce_net env) ''/chat/completions'' (JObj (stream_body body)) st = (tr1, r1, st1)"
    by (metis prod_cases3)
  then have "P st1" using with_retry_kept [OF assms(1,2)] by blast
  then show ?thesis using assms(3) w
    by (auto simp: stream_open_def split: sum.splits if_splits prod.splits option.splits
        dest: drain_kept [OF assms(1)] rj)
qed

lemma forward_kept:
  assumes "env_keeps P env" and "P st" and "chat_forward cfg env p model body streaming rk st = (tr, h, st')"
  shows "P st'"
proof (cases streaming)
  case True
  obtain tr1 r1 st1 where w: "stream_open cfg env p model body st = (tr1, r1, st1)" by (metis prod_cases3)
  then have "P st1" using stream_open_kept [OF assms(1,2)] by blast
  then show ?thesis using assms(3) w True
    by (auto simp: chat_forward_def stream_start_def Let_def split: sum.splits prod.splits if_splits
        dest: upstream_failure_kept release_keeps)
next
  case False
  obtain tr1 r1 st1 where w: "request cfg (ce_net env) ''/chat/completions'' (JObj body) st = (tr1, r1, st1)" by (metis prod_cases3)
  then have "P st1" using with_retry_kept [OF assms(1,2)] by blast
  then show ?thesis using assms(3) w False
    by (auto simp: chat_forward_def Let_def split: sum.splits prod.splits
        dest: upstream_failure_kept answer_kept release_keeps)
qed

lemma chat_kept:
  assumes "env_keeps P env" and "P st" and "chat_completions cfg env p raw st = (tr, h, st')"
  shows "P st'"
  using assms(2,3)
  by (auto simp: chat_completions_def split: sum.splits refusal.splits prod.splits
      dest: reject_kept chat_validate_refuse quota_gate_refuse gate_keeps forward_kept [OF assms(1)])

lemma relay_loop_kept:
  "env_keeps P env \<Longrightarrow> P st \<Longrightarrow>
   relay_loop cfg env model ending i first buf usage chunks st = (out, u, e, st') \<Longrightarrow> P st'"
proof (induction chunks arbitrary: i first buf usage st out)
  case Nil
  then show ?case by (auto intro: chunk_kept)
next
  case (Cons chunk chunks)
  define st1 where "st1 = (if first \<and> chunk \<noteq> [] then observe_ttft cfg env model (ce_chunk env i st) else ce_chunk env i st)"
  have "P st1" using Cons.prems(1,2) by (simp add: st1_def chunk_kept ttft_keeps)
  with Cons.prems(3) Cons.IH [OF Cons.prems(1) this] show ?case
    by (auto simp: st1_def [symmetric] Let_def split: scan_state.splits prod.splits)
qed

lemma relay_kept:
  assumes "env_keeps P env" and "P st" and "relay cfg env p model rk u resp st = (out, f, st')"
  shows "P st'"
proof -
  obtain out1 usage e st1 where l: "relay_loop cfg env model (rs_end resp) 0 True [] [] (rs_chunks resp) st = (out1, usage, e, st1)"
    by (metis prod_cases4)
  define broken where "broken \<longleftrightarrow> (case e of None \<Rightarrow> False | Some x \<Rightarrow> is_Exception x)"
  define st2 where "st2 = (if broken
      then st1\<lparr>cs_metrics := record_rejection ''upstream_stream_broken'' (cs_metrics st1)\<rparr> else st1)"
  have "P st1" using relay_loop_kept [OF assms(1,2) l] .
  then have st2: "P st2" using rejection_keeps by (simp add: st2_def REJECT_REASONS_def)
  obtain ce st3 where c: "ce_close env st2 = (ce, st3)" by fastforce
  then have st3: "P st3" using close_kept [OF assms(1) st2] by blast
  obtain ue st4 where ch: "charge_usage cfg model usage (pr_keyid p) (release_slot rk st3) = (ue, st4)" by fastforce
  then have "P st4" using charge_kept release_keeps [OF st3] by blast
  moreover have "known_reason (if broken then Some ''upstream_stream_broken'' else None)" by (simp add: REJECT_REASONS_def)
  ultimately show ?thesis using assms(3) l c ch st3 audit_keeps
    by (cases broken) (auto simp: relay_def broken_def [symmetric] st2_def Let_def split: option.splits)
qed

end

end
