(* ===== verification/Served_App.thy ===== *)
theory Served_App
  imports App Gateway_Invariant
begin

section \<open>A request from the ASGI call to the last byte (gateway/metrics.py around gateway/main.py)\<close>

text \<open>
  The application inside its metrics middleware: the route with its dependencies, the relay when
  the route hands a stream over, and what the middleware counts when all of it is done.
\<close>

subsection \<open>The application inside the middleware\<close>

text \<open>What belongs to the framework: whether a return value can be rendered as JSON, its answer and
  the matched route for a request without an endpoint, and the exception of a crash whose name
  the model of the routes does not keep.\<close>

record framework =
  fw_render :: "json \<Rightarrow> py_exn option"
  fw_unrouted :: "app_request \<Rightarrow> int \<times> string option"
  fw_crash :: py_exn

definition rendered :: "framework \<Rightarrow> int \<Rightarrow> json \<Rightarrow> int list \<times> py_failure option" where
  "rendered fw status v = (case fw_render fw v of None \<Rightarrow> ([status], None) | Some e \<Rightarrow> ([], Some (Raises e)))"

text \<open>The response starts sent for an answer, and the exception that leaves the application.\<close>

definition sent_of :: "framework \<Rightarrow> app_request \<Rightarrow> app_answer \<Rightarrow> int list \<times> py_failure option" where
  "sent_of fw rq ans =
     (case ans of
        App_json status d \<Rightarrow> rendered fw status (JObj d)
      | App_text status t \<Rightarrow> ([status], None)
      | App_unauthorized \<Rightarrow> ([401], None)
      | App_crash \<Rightarrow> ([], Some (Raises (fw_crash fw)))
      | App_framework \<Rightarrow> ([fst (fw_unrouted fw rq)], None)
      | App_chat (Unauthenticated status d hs) \<Rightarrow> ([status], None)
      | App_chat Auth_crashed \<Rightarrow> ([], Some (Raises (fw_crash fw)))
      | App_chat (Served (Http_error status d hs)) \<Rightarrow> ([status], None)
      | App_chat (Served (Json_response v)) \<Rightarrow> rendered fw 200 v
      | App_chat (Served (Event_stream u resp)) \<Rightarrow> ([200], None)
      | App_chat (Served (Failed f)) \<Rightarrow> ([], Some f))"

text \<open>What \<open>require_principal\<close> publishes and returns for a request; nothing on a route that does not
  depend on it.\<close>

definition app_auth :: "settings \<Rightarrow> app_env \<Rightarrow> app_request \<Rightarrow> app_state \<Rightarrow> string option \<times> principal option" where
  "app_auth cfg env rq st =
     (if map_of ROUTES (rq_method rq, rq_path rq) \<in> {Some Models, Some Chat_completions} then
        (case fst (auth_deps cfg env (ap_auth st)) of
           None \<Rightarrow> (None, None)
         | Some (s, v) \<Rightarrow>
             (let (mark, res) = require_principal cfg (ce_repr (ae_chat env)) (ae_decode env) (ae_dummy_hash env) (ae_argon env)
                                  (ae_now env) s v (rq_authorization rq)
              in (mark, case res of Inl e \<Rightarrow> None | Inr p \<Rightarrow> Some p)))
      else (None, None))"

text \<open>The model and the slot a stream handed over belongs to (the closure of \<open>relay\<close>).\<close>

definition stream_context :: "settings \<Rightarrow> chat_env \<Rightarrow> principal \<Rightarrow> string \<Rightarrow> gateway \<Rightarrow> (json \<times> string option) option" where
  "stream_context cfg env p raw st =
     (case chat_validate cfg (ce_repr env) p raw of
        Inl e \<Rightarrow> None
      | Inr (model, body, streaming) \<Rightarrow>
          (case quota_gate p (gw_quota st) of Inl reason \<Rightarrow> None | Inr (rk, q) \<Rightarrow> Some (model, rk)))"

definition app_exchange ::
  "settings \<Rightarrow> app_env \<Rightarrow> framework \<Rightarrow> app_request \<Rightarrow> app_state \<Rightarrow>
   net_event list \<times> string list \<times> int list \<times> py_failure option \<times> app_state" where
  "app_exchange cfg env fw rq st =
     (let (tr, ans, st1) = serve_app cfg env rq st;
          (statuses, f) = sent_of fw rq ans
      in case ans of
           App_chat (Served (Event_stream u resp)) \<Rightarrow>
             (case snd (app_auth cfg env rq st) of
                None \<Rightarrow> (tr, [], statuses, f, st1)
              | Some p \<Rightarrow>
                  (case stream_context cfg (ae_chat env) p (rq_body rq) (ap_gateway st) of
                     None \<Rightarrow> (tr, [], statuses, f, st1)
                   | Some (model, rk) \<Rightarrow>
                       (let (out, f, g) = relay cfg (ae_chat env) p model rk u resp (ap_gateway st1)
                        in (tr, out, statuses, f, st1\<lparr>ap_gateway := g\<rparr>))))
         | _ \<Rightarrow> (tr, [], statuses, f, st1))"

subsection \<open>The middleware around it\<close>

definition with_metrics :: "(metrics \<Rightarrow> metrics) \<Rightarrow> app_state \<Rightarrow> app_state" where
  "with_metrics f st = st\<lparr>ap_gateway := (ap_gateway st)\<lparr>cs_metrics := f (cs_metrics (ap_gateway st))\<rparr>\<rparr>"

definition route_path :: "framework \<Rightarrow> app_request \<Rightarrow> string option" where
  "route_path fw rq =
     (if map_of ROUTES (rq_method rq, rq_path rq) = None then snd (fw_unrouted fw rq) else Some (rq_path rq))"

definition exit_of :: "py_failure option \<Rightarrow> app_exit" where
  "exit_of f = (case f of Some (Raises e) \<Rightarrow> Raised e | _ \<Rightarrow> Returned)"

text \<open>The application as the middleware calls it: on the metrics, with everything else of the state
  fixed by the request.\<close>

definition app_call ::
  "settings \<Rightarrow> app_env \<Rightarrow> framework \<Rightarrow> app_request \<Rightarrow> app_state \<Rightarrow> http_scope \<Rightarrow> metrics \<Rightarrow>
   int list \<times> app_exit \<times> http_scope \<times> metrics" where
  "app_call cfg env fw rq st sc m =
     (let (tr, out, statuses, f, st') = app_exchange cfg env fw rq (with_metrics (\<lambda>_. m) st)
      in (statuses, exit_of f,
          sc\<lparr>sc_route_path := route_path fw rq, sc_auth_method := fst (app_auth cfg env rq st)\<rparr>, cs_metrics (ap_gateway st')))"

definition serve_http ::
  "settings \<Rightarrow> app_env \<Rightarrow> framework \<Rightarrow> real \<Rightarrow> app_request \<Rightarrow> app_state \<Rightarrow>
   net_event list \<times> string list \<times> py_failure option \<times> app_state" where
  "serve_http cfg env fw elapsed rq st =
     (let sc = \<lparr>sc_type = ''http'', sc_route_path = None, sc_method = Some (rq_method rq), sc_auth_method = None\<rparr>;
          (_, m) = middleware_call (app_call cfg env fw rq st) elapsed sc (cs_metrics (ap_gateway st));
          (tr, out, statuses, f, st') = app_exchange cfg env fw rq (with_metrics middleware_start st)
      in (tr, out, f, with_metrics (\<lambda>_. m) st'))"

subsection \<open>Nobody else writes the counters of the middleware\<close>

definition http_counters ::
  "gateway \<Rightarrow> (string \<times> string \<times> string \<times> string \<rightharpoonup> int) \<times> (string \<times> string \<rightharpoonup> real list) \<times> int" where
  "http_counters st =
     (requests_total (cs_metrics st), request_duration_seconds (cs_metrics st), inflight_requests (cs_metrics st))"

text \<open>The other requests on the loop count themselves; a theorem about one request counts only its
  own effect.\<close>

definition others_keep_counters :: "chat_env \<Rightarrow> bool" where
  "others_keep_counters env \<longleftrightarrow> (\<forall>c. env_keeps (\<lambda>st. http_counters st = c) env)"

lemma http_counters_simps [simp]:
  "http_counters (st\<lparr>cs_pool := p\<rparr>) = http_counters st" "http_counters (st\<lparr>gw_quota := q\<rparr>) = http_counters st"
  "http_counters (count_upstream u x st) = http_counters st" "http_counters (release_slot rk st) = http_counters st"
  "http_counters (write_audit env pr model s a b up r d st) = http_counters st"
  "http_counters (observe_ttft cfg env model st) = http_counters st"
  "http_counters (st\<lparr>cs_metrics := record_rejection re (cs_metrics st)\<rparr>) = http_counters st"
  "http_counters (st\<lparr>cs_metrics := (cs_metrics st)\<lparr>tokens_total := m\<rparr>\<rparr>) = http_counters st"
  "http_counters (st\<lparr>cs_metrics := (cs_metrics st)\<lparr>requests_missing_usage_total := m'\<rparr>\<rparr>) = http_counters st"
  by (simp_all add: http_counters_def count_upstream_def release_slot_def write_audit_def observe_ttft_def record_rejection_def
      Let_def split: option.split)

interpretation tally: gateway_invariant cfg "\<lambda>st. http_counters st = c" for cfg c
  by unfold_locales simp_all

text \<open>What a chat request keeps, every request to the application keeps.\<close>

context gateway_invariant
begin

lemma app_kept:
  assumes "env_keeps P (ae_chat env)" and "P (ap_gateway st)" and "serve_app cfg env rq st = (tr, ans, st')"
  shows "P (ap_gateway st')"
  using assms(2,3)
  by (auto simp: serve_app_def serve_chat_def Let_def split: option.splits endpoint.splits sum.splits prod.splits auth_failure.splits
      dest: chat_kept [OF assms(1)])

lemma exchange_kept:
  assumes "env_keeps P (ae_chat env)" and "P (ap_gateway st)" and "app_exchange cfg env fw rq st = (tr, out, statuses, f, st')"
  shows "P (ap_gateway st')"
proof -
  obtain tr1 ans st1 where a: "serve_app cfg env rq st = (tr1, ans, st1)" by (metis prod_cases3)
  have "P (ap_gateway st1)" using app_kept [OF assms(1,2) a] .
  with assms(3) a show ?thesis
    by (auto simp: app_exchange_def split: prod.splits app_answer.splits served.splits chat_response.splits option.splits
        dest: relay_kept [OF assms(1)])
qed

end

lemma counters_exchange:
  assumes "others_keep_counters (ae_chat env)" and "app_exchange cfg env fw rq st = (tr, out, statuses, f, st')"
  shows "http_counters (ap_gateway st') = http_counters (ap_gateway st)"
  using tally.exchange_kept [OF _ refl assms(2)] assms(1) unfolding others_keep_counters_def by blast

subsection \<open>Every request is counted once\<close>

text \<open>The status a request is counted under: 500 when an ordinary exception left the application,
  whatever was sent before, otherwise the status sent.\<close>

definition final_status :: "int list \<Rightarrow> py_failure option \<Rightarrow> int" where
  "final_status statuses f =
     (case f of Some (Raises e) \<Rightarrow> if is_Exception e then 500 else sent_status statuses | _ \<Rightarrow> sent_status statuses)"

definition route_label :: "framework \<Rightarrow> app_request \<Rightarrow> string" where
  "route_label fw rq =
     (case route_path fw rq of None \<Rightarrow> ''__unmatched__'' | Some p \<Rightarrow> if p = [] then ''__unmatched__'' else p)"

lemma app_auth_metrics [simp]: "app_auth cfg env rq (with_metrics g st) = app_auth cfg env rq st"
  by (simp add: app_auth_def with_metrics_def)

text \<open>The whole call in one step: the exchange, then one record and the gauge given back.\<close>

definition scope_after :: "settings \<Rightarrow> app_env \<Rightarrow> framework \<Rightarrow> app_request \<Rightarrow> app_state \<Rightarrow> http_scope" where
  "scope_after cfg env fw rq st =
     \<lparr>sc_type = ''http'', sc_route_path = route_path fw rq, sc_method = Some (rq_method rq),
      sc_auth_method = fst (app_auth cfg env rq st)\<rparr>"

lemma serve_http_eq:
  assumes "app_exchange cfg env fw rq (with_metrics middleware_start st) = (tr, out, statuses, f, st0)"
  shows "serve_http cfg env fw elapsed rq st =
     (tr, out, f, with_metrics (\<lambda>m. record_request (scope_after cfg env fw rq st) (final_status statuses f) elapsed
        (m\<lparr>inflight_requests := inflight_requests m - 1\<rparr>)) st0)"
proof -
  have "with_metrics (\<lambda>_. middleware_start (cs_metrics (ap_gateway st))) st = with_metrics middleware_start st"
    by (simp add: with_metrics_def)
  moreover have "(case exit_of f of Raised e \<Rightarrow> if is_Exception e then 500 else sent_status statuses | Returned \<Rightarrow> sent_status statuses) =
      final_status statuses f"
    by (simp add: exit_of_def final_status_def split: option.split py_failure.split)
  ultimately show ?thesis using assms
    by (simp add: serve_http_def middleware_call_def app_call_def middleware_finish_def scope_after_def Let_def)
      (simp add: with_metrics_def)
qed

text \<open>C30. Every request that reaches the application is counted once and only once: whichever route it
  is for, and whether it is answered, refused, crashes or streams to its end, the request counter
  goes up by one under its route, method, status and credential, its duration is observed once,
  no other request counter moves, and the in-flight gauge is back where it was; only a scrape
  of \<open>/metrics\<close> leaves no count (and a request whose token counts are floats is outside the model). The status is 500 exactly when an ordinary exception left the
  application, also after a stream had begun with 200.\<close>

theorem every_request_counted_once:
  assumes "others_keep_counters (ae_chat env)"
    and "app_exchange cfg env fw rq (with_metrics middleware_start st) = (tr0, out0, statuses, f, st0)"
    and "f \<noteq> Some Not_modelled" and "serve_http cfg env fw elapsed rq st = (tr, out, f', st')"
  shows "let m = cs_metrics (ap_gateway st); m' = cs_metrics (ap_gateway st'); status = final_status statuses f in
     (tr, out, f') = (tr0, out0, f) \<and> inflight_requests m' = inflight_requests m \<and>
     (if route_label fw rq = ''/metrics''
      then requests_total m' = requests_total m \<and> request_duration_seconds m' = request_duration_seconds m
      else requests_total m' = inc (route_label fw rq, rq_method rq, str_int status,
                                    get_or ''none'' (fst (app_auth cfg env rq st))) 1 (requests_total m) \<and>
           request_duration_seconds m' = observe_value (route_label fw rq, outcome_of status) elapsed (request_duration_seconds m))"
proof -
  have "requests_total (cs_metrics (ap_gateway st0)) = requests_total (cs_metrics (ap_gateway st)) \<and>
    request_duration_seconds (cs_metrics (ap_gateway st0)) = request_duration_seconds (cs_metrics (ap_gateway st)) \<and>
    inflight_requests (cs_metrics (ap_gateway st0)) = inflight_requests (cs_metrics (ap_gateway st)) + 1"
    using counters_exchange [OF assms(1,2)] by (simp add: http_counters_def with_metrics_def middleware_start_def)
  with assms(4) [unfolded serve_http_eq [OF assms(2)]] show ?thesis
    by (auto simp: scope_after_def record_request_def route_label_def with_metrics_def get_or_def Let_def
        split: option.splits if_splits)
qed

definition demo_framework :: framework where
  "demo_framework = \<lparr>fw_render = (\<lambda>_. None), fw_unrouted = (\<lambda>_. (404, None)), fw_crash = RuntimeError\<rparr>"

definition anonymous_rq :: app_request where
  "anonymous_rq = demo_rq\<lparr>rq_authorization := None\<rparr>"

lemma quiet_env_keeps_counters: "others_keep_counters (quiet_env x)"
  by (simp add: others_keep_counters_def env_keeps_def net_keeps_def quiet_env_def still_net_def)

lemma demo_deps:
  "auth_deps default_settings demo_app_env (ap_auth demo_app) = (Some ([(''a1'', snd demo_key)], demo_verifier), ap_auth demo_app)"
  by (simp add: auth_deps_def demo_app_def get_key_store_def get_jwt_verifier_def)

lemma anonymous_refused:
  "require_principal cfg fr decode dh argon now s v None = (None, Inl Unauthorized)"
  by (simp add: require_principal_def authenticate_def credential_of_def)

theorem every_request_counted_once_witness:
  "\<exists>tr out f st'. serve_http default_settings demo_app_env demo_framework 1 anonymous_rq demo_app = (tr, out, f, st') \<and>
     requests_total (cs_metrics (ap_gateway st')) = [(''/v1/chat/completions'', ''POST'', str_int 401, ''none'') \<mapsto> 1] \<and>
     inflight_requests (cs_metrics (ap_gateway st')) = 0"
proof -
  have route: "map_of ROUTES (rq_method anonymous_rq, rq_path anonymous_rq) = Some Chat_completions"
    "rq_authorization anonymous_rq = None"
    by (simp_all add: anonymous_rq_def demo_rq_def ROUTES_def)
  have "ap_auth (with_metrics middleware_start demo_app) = ap_auth demo_app" by (simp add: with_metrics_def)
  then have x: "app_exchange default_settings demo_app_env demo_framework anonymous_rq (with_metrics middleware_start demo_app) =
      ([], [], [401], None, with_metrics middleware_start demo_app)"
    by (simp add: app_exchange_def serve_app_def route demo_deps serve_chat_def anonymous_refused unauthorized_def sent_of_def
        auth_limited_def credential_of_def)
  obtain tr out f st' where "serve_http default_settings demo_app_env demo_framework 1 anonymous_rq demo_app = (tr, out, f, st')"
    by (metis prod_cases4)
  moreover have "others_keep_counters (ae_chat demo_app_env)" by (simp add: demo_app_env_def quiet_env_keeps_counters)
  moreover have "cs_metrics (ap_gateway demo_app) = new_metrics" by (simp add: demo_app_def demo_gateway_def)
  moreover have "route_label demo_framework anonymous_rq = ''/v1/chat/completions''" "rq_method anonymous_rq = ''POST''"
    using route by (simp_all add: route_label_def route_path_def) (simp_all add: anonymous_rq_def demo_rq_def)
  moreover have "fst (app_auth default_settings demo_app_env anonymous_rq demo_app) = None"
    using route by (simp add: app_auth_def demo_deps anonymous_refused)
  ultimately show ?thesis
    using every_request_counted_once [OF _ x, of 1 tr out f st']
    by (simp add: Let_def final_status_def sent_status_def get_or_def inc_def new_metrics_def)
qed

subsection \<open>No request keeps a slot\<close>

abbreviation app_slots :: "app_state \<Rightarrow> string \<Rightarrow> int" where
  "app_slots st k \<equiv> slots (ap_gateway st) k"

text \<open>A stream is handed over only by a request that passed validation and the quotas.\<close>

lemma stream_has_context:
  assumes "chat_completions cfg env p raw st = (tr, Event_stream u resp, st')"
  shows "\<exists>model body rk q. chat_validate cfg (ce_repr env) p raw = Inr (model, body, True) \<and>
     quota_gate p (gw_quota st) = Inr (rk, q) \<and> stream_context cfg env p raw st = Some (model, rk)"
proof -
  have rj: "h = Http_error s re hs" if "reject env s re p model hs y = (h, x)" for s re model hs h x y
    using reject_fields(3) [of env s re p model hs y] that by simp
  have up: "\<exists>f. h = f \<and> (\<forall>u r. f \<noteq> Event_stream u r)" if "upstream_failure env p model e y = (h, x)" for model e h x y
    using that by (auto simp: upstream_failure_def dest: rj split: send_failure.splits sum.splits)
  have an: "\<forall>u r. h \<noteq> Event_stream u r" if "answer_complete cfg env p model v r0 y = (h, x)" for model v r0 h x y
    using that by (auto simp: answer_complete_def Let_def dest: rj split: option.splits json.splits prod.splits if_splits)
  from assms show ?thesis
    by (auto simp: chat_completions_def stream_context_def chat_forward_def Let_def
        dest: rj up an split: sum.splits refusal.splits prod.splits if_splits)
qed

lemma serve_app_cases:
  assumes "serve_app cfg env rq st = (tr, ans, st')"
  shows "(ap_gateway st' = ap_gateway st \<and> (\<forall>h. ans \<noteq> App_chat (Served h))) \<or>
     (\<exists>p h. snd (app_auth cfg env rq st) = Some p \<and> ans = App_chat (Served h) \<and>
        chat_completions cfg (ae_chat env) p (rq_body rq) (ap_gateway st) = (tr, h, ap_gateway st'))"
proof (cases "map_of ROUTES (rq_method rq, rq_path rq) = Some Chat_completions")
  case False
  with assms show ?thesis
    by (auto simp: serve_app_def serve_models_def Let_def split: option.splits endpoint.splits sum.splits prod.splits auth_failure.splits)
next
  case True
  with assms show ?thesis
    by (auto simp: serve_app_def app_auth_def serve_chat_def unauthorized_def
        split: option.splits sum.splits prod.splits auth_failure.splits)
qed

lemma exchange_slots:
  assumes "others_keep_slots (ae_chat env) k" and "0 \<le> app_slots st k" and "\<And>s. fst (ce_close (ae_chat env) s) = None"
    and "app_exchange cfg env fw rq st = (tr, out, statuses, f, st')" and "f \<noteq> Some (Raises CancelledError)"
  shows "app_slots st' k = app_slots st k"
proof -
  obtain tr1 ans st1 where a: "serve_app cfg env rq st = (tr1, ans, st1)" by (metis prod_cases3)
  from serve_app_cases [OF a] show ?thesis
  proof (elim disjE exE conjE)
    assume "ap_gateway st1 = ap_gateway st" and "\<forall>h. ans \<noteq> App_chat (Served h)"
    with assms(4) a show ?thesis by (auto simp: app_exchange_def split: app_answer.splits served.splits prod.splits)
  next
    fix p h
    assume p: "snd (app_auth cfg env rq st) = Some p" and h: "ans = App_chat (Served h)"
      and c: "chat_completions cfg (ae_chat env) p (rq_body rq) (ap_gateway st) = (tr1, h, ap_gateway st1)"
    note s = handler_slots [OF assms(1,2) c]
    show ?thesis
    proof (cases "\<exists>u resp. h = Event_stream u resp")
      case True
      then obtain u resp where e: "h = Event_stream u resp" by blast
      from stream_has_context [OF c [unfolded e]] obtain model body rk q where
        v: "chat_validate cfg (ce_repr (ae_chat env)) p (rq_body rq) = Inr (model, body, True)"
          "quota_gate p (gw_quota (ap_gateway st)) = Inr (rk, q)"
          "stream_context cfg (ae_chat env) p (rq_body rq) (ap_gateway st) = Some (model, rk)" by blast
      obtain out1 f1 g where r: "relay cfg (ae_chat env) p model rk u resp (ap_gateway st1) = (out1, f1, g)" by (metis prod_cases3)
      have "slots g k = app_slots st1 k - (if rk = Some k then 1 else 0)"
        using relay_slots [OF assms(1) _ assms(3) r] s quota_gate_Inr [OF v(2), of k] assms(2) v(1) e by auto
      with assms(4) a p h e v r s quota_gate_Inr [OF v(2), of k] show ?thesis
        by (auto simp: app_exchange_def sent_of_def)
    next
      case False
      with assms(4) a h have "st' = st1" "f = snd (sent_of fw rq ans)"
        by (auto simp: app_exchange_def split: chat_response.splits prod.splits)
      with s False h assms(5) show ?thesis by (auto simp: sent_of_def)
    qed
  qed
qed

text \<open>C40. No request keeps a slot: when the application is done with a request, whichever way it went -
  answered, refused, failed, crashed, or streamed to its end, broken or whole - the in-flight
  count of every key is what it was before, unless the request was cancelled or closing the
  upstream response raised. Only this request's own effect is counted.\<close>

theorem served_request_holds_no_slot:
  assumes "others_keep_slots (ae_chat env) k" and "0 \<le> app_slots st k" and "\<And>s. fst (ce_close (ae_chat env) s) = None"
    and "serve_http cfg env fw elapsed rq st = (tr, out, f, st')" and "f \<noteq> Some (Raises CancelledError)"
  shows "app_slots st' k = app_slots st k"
proof -
  obtain tr1 out1 statuses f1 st1 where x: "app_exchange cfg env fw rq (with_metrics middleware_start st) =
      (tr1, out1, statuses, f1, st1)" by (metis prod_cases5)
  then have "f1 = f" "app_slots st' k = app_slots st1 k"
    using assms(4) by (auto simp: serve_http_def with_metrics_def split: prod.splits)
  with exchange_slots [OF assms(1) _ assms(3) x] assms(2,5) show ?thesis by (simp add: with_metrics_def)
qed

lemma demo_key_answer:
  "\<exists>tr v st'. chat_completions default_settings (quiet_env (Answer demo_response)) (key_principal (snd demo_key)) demo_raw
      (demo_gateway\<lparr>cs_metrics := m\<rparr>) = (tr, Json_response v, st')"
proof -
  let ?p = "key_principal (snd demo_key)" and ?q = "new_quota\<lparr>q_inflight := [''a1'' \<mapsto> 1]\<rparr>"
  have p: "pr_keyid ?p = Some ''a1''" "pr_token_budget ?p = Some 9" "pr_max_concurrency ?p = Some 2"
    by (simp_all add: key_principal_def demo_key_simps)
  have v: "chat_validate default_settings (\<lambda>_. []) ?p demo_raw = Inr (JStr ''Qwen/Qwen3-8B-AWQ'', demo_sent, False)"
    by (rule demo_validates_for) (simp add: has_scope_def key_principal_def demo_key_simps)
  have g: "quota_gate ?p (gw_quota demo_gateway) = Inr (Some ''a1'', ?q)"
    by (simp add: quota_gate_def p check_budget_def acquire_def new_quota_def tokens_used_def demo_gateway_def)
  have "rb_state (new_breaker ''a'' ''0'') = CLOSED" by (simp add: new_breaker_def)
  with single_answer [OF default_breaker, of "demo_gateway\<lparr>cs_metrics := m, gw_quota := ?q\<rparr>" "''a''" demo_response 1
      "''/chat/completions''" "JObj demo_sent" False]
  obtain pl m' where f: "request default_settings (still_net (Answer demo_response) 1) ''/chat/completions''
      (JObj demo_sent) (demo_gateway\<lparr>cs_metrics := m, gw_quota := ?q\<rparr>) =
      ([Sent ''a'' (attempt_url ''/chat/completions'' ''a'') (JObj demo_sent) (Inr (Answer demo_response))],
       Inr (''a'', demo_response), demo_gateway\<lparr>gw_quota := ?q, cs_pool := pl, cs_metrics := m'\<rparr>)"
    by (auto simp: demo_gateway_def fresh_single_simps demo_response_def)
  have "count_kind l k (JInt 3) st = Inr (3, st\<lparr>cs_metrics := (cs_metrics st)\<lparr>tokens_total := inc (l, k) 3 (tokens_total (cs_metrics st))\<rparr>\<rparr>)"
    "count_kind l k (JInt 4) st = Inr (4, st\<lparr>cs_metrics := (cs_metrics st)\<lparr>tokens_total := inc (l, k) 4 (tokens_total (cs_metrics st))\<rparr>\<rparr>)"
    for l k and st :: gateway
    by (simp_all add: count_kind_def)
  then show ?thesis using f g v
    by (simp add: chat_completions_def chat_forward_def quiet_env_def answer_complete_def demo_response_def demo_answer_loads
        get_default_def py_or_def charge_usage_def p Let_def)
qed

lemma demo_exchange:
  assumes "ap_gateway st = demo_gateway\<lparr>cs_metrics := m\<rparr>" and "ap_auth st = ap_auth demo_app"
  shows "\<exists>tr st1. app_exchange default_settings demo_app_env demo_framework demo_rq st = (tr, [], [200], None, st1) \<and>
     snd (app_auth default_settings demo_app_env demo_rq st) = Some (key_principal (snd demo_key))"
proof -
  obtain tr1 v g where c: "chat_completions default_settings (ae_chat demo_app_env) (key_principal (snd demo_key)) (rq_body demo_rq)
      (ap_gateway st) = (tr1, Json_response v, g)"
    using demo_key_answer [of m] assms(1) by (fastforce simp: demo_app_env_def demo_rq_def)
  have "map_of ROUTES (rq_method demo_rq, rq_path demo_rq) = Some Chat_completions" by (simp add: demo_rq_def ROUTES_def)
  moreover have "require_principal default_settings (ce_repr (ae_chat demo_app_env)) (ae_decode demo_app_env) (ae_dummy_hash demo_app_env)
      (ae_argon demo_app_env) (ae_now demo_app_env) [(''a1'', snd demo_key)] demo_verifier (rq_authorization demo_rq) =
      (Some ''apikey'', Inr (key_principal (snd demo_key)))"
    by (simp add: demo_app_env_def demo_rq_def demo_authenticates)
  ultimately show ?thesis
    using c by (simp add: app_exchange_def serve_app_def app_auth_def assms(2) demo_deps serve_chat_def sent_of_def rendered_def
        demo_framework_def)
qed

theorem served_request_holds_no_slot_witness:
  "\<exists>tr out f st'. serve_http default_settings demo_app_env demo_framework 1 demo_rq demo_app = (tr, out, f, st') \<and>
     f = None \<and> app_slots st' ''a1'' = 0"
proof -
  let ?st = "with_metrics middleware_start demo_app"
  have "ap_gateway ?st = demo_gateway\<lparr>cs_metrics := middleware_start new_metrics\<rparr>" "ap_auth ?st = ap_auth demo_app"
    by (simp_all add: with_metrics_def demo_app_def demo_gateway_def)
  from demo_exchange [OF this] obtain tr1 st1 where
    x: "app_exchange default_settings demo_app_env demo_framework demo_rq ?st = (tr1, [], [200], None, st1)" by blast
  obtain tr out f st' where s: "serve_http default_settings demo_app_env demo_framework 1 demo_rq demo_app = (tr, out, f, st')"
    by (metis prod_cases4)
  with x have f: "f = None" by (auto simp: serve_http_def split: prod.splits)
  have "others_keep_slots (ae_chat demo_app_env) ''a1''" "\<And>s. fst (ce_close (ae_chat demo_app_env) s) = None"
    by (simp_all add: demo_app_env_def quiet_env_keeps) (simp add: quiet_env_def)
  moreover have "app_slots demo_app ''a1'' = 0" by (simp add: demo_app_def demo_gateway_def)
  ultimately show ?thesis using served_request_holds_no_slot [OF _ _ _ s] s f by simp
qed

end
