(* ===== verification/Process.thy ===== *)
theory Process
  imports Served_App
begin

section \<open>The running process (gateway/main.py)\<close>

text \<open>
  The process as a step relation: start, requests, passes of the background tasks, stop, in any
  order. While a step waits, the other tasks may do to the shared state whatever keeps the
  invariant; each step in turn keeps it, so it holds in every state the process reaches.
\<close>

subsection \<open>Label values\<close>

text \<open>The vocabulary of every metric: the routes (\<open>F\<close> are the paths of the framework's own), the
  folded models and reasons, and the replicas by index.\<close>

definition route_labels :: "string set \<Rightarrow> string set" where
  "route_labels F = insert ''__unmatched__'' (F \<union> set (map (snd \<circ> fst) ROUTES))"

definition auth_labels :: "string set" where
  "auth_labels = {''none'', ''jwt'', ''apikey''}"

definition index_labels :: "nat \<Rightarrow> string set" where
  "index_labels n = insert ''unknown'' ((\<lambda>i. str_int (int i)) ` {..<n})"

definition SCRAPE_FAILURES :: "string list" where
  "SCRAPE_FAILURES = [''timeout'', ''connect'', ''http_status'', ''parse'']"

text \<open>A status is published as its decimal numeral: 200 or one of a redirect or an error. A replica's own
  error status is relayed, so it is not bounded above.\<close>

definition http_statuses :: "int set" where
  "http_statuses = insert 200 {300..}"

definition labels_ok :: "settings \<Rightarrow> string set \<Rightarrow> nat \<Rightarrow> metrics \<Rightarrow> bool" where
  "labels_ok cfg F n m \<longleftrightarrow>
     dom (requests_total m) \<subseteq> {(r, meth, s, a). r \<in> route_labels F \<and> s \<in> str_int ` http_statuses \<and> a \<in> auth_labels} \<and>
     dom (request_duration_seconds m) \<subseteq> route_labels F \<times> {''success'', ''client_error'', ''server_error''} \<and>
     dom (time_to_first_token_seconds m) \<subseteq> model_labels cfg \<and>
     dom (rejections_total m) \<subseteq> reject_labels \<and>
     dom (tokens_total m) \<subseteq> model_labels cfg \<times> {''prompt'', ''completion''} \<and>
     dom (requests_missing_usage_total m) \<subseteq> model_labels cfg \<and>
     dom (upstream_requests_total m) \<subseteq> index_labels n \<times> set UPSTREAM_OUTCOMES \<and>
     dom (upstream_up m) \<subseteq> index_labels n \<and> dom (upstream_scrape_age_seconds m) \<subseteq> index_labels n \<and>
     dom (upstream_wedge_suspected m) \<subseteq> index_labels n \<and> dom (upstream_wedge_stall_seconds m) \<subseteq> index_labels n \<and>
     dom (upstream_scrape_failures_total m) \<subseteq> index_labels n \<times> set SCRAPE_FAILURES"

subsection \<open>Breakers and the pool\<close>

definition breaker_shape :: "replica_breaker \<Rightarrow> bool" where
  "breaker_shape b \<longleftrightarrow> (\<exists>now. breaker_ok b now)"

lemma closed_any_time: "breaker_ok b now \<Longrightarrow> rb_state b = CLOSED \<Longrightarrow> breaker_ok b t"
  by (auto simp: breaker_ok_def)

lemma breaker_shape_new: "breaker_shape (new_breaker u lbl)"
  using new_breaker_ok unfolding breaker_shape_def by blast

lemma breaker_shape_success: "breaker_shape b \<Longrightarrow> breaker_shape (record_success b t)"
proof -
  assume "breaker_shape b"
  then obtain now where "breaker_ok b now" by (auto simp: breaker_shape_def)
  from record_success_ok [OF this] have "breaker_ok (record_success b t) now" by (simp add: record_success_def)
  then show ?thesis by (auto simp: breaker_shape_def)
qed

lemma breaker_shape_failure: "breaker_shape b \<Longrightarrow> breaker_shape (record_failure b k t)"
proof -
  assume "breaker_shape b"
  then obtain now where ok: "breaker_ok b now" by (auto simp: breaker_shape_def)
  show ?thesis
  proof (cases "rb_state b = CLOSED")
    case True
    then show ?thesis using record_failure_ok [OF closed_any_time [OF ok True]] by (auto simp: breaker_shape_def)
  next
    case False
    then have "record_failure b k t = record_failure b k now" by (simp add: record_failure_def Let_def)
    then show ?thesis using record_failure_ok [OF ok] by (auto simp: breaker_shape_def)
  qed
qed

lemma breaker_shape_wedge: "breaker_shape b \<Longrightarrow> rb_state b = CLOSED \<Longrightarrow> breaker_shape (record_wedge b s t)"
  using record_wedge_ok closed_any_time unfolding breaker_shape_def by blast

lemma breaker_shape_probe: "breaker_shape b \<Longrightarrow> rb_state b \<noteq> CLOSED \<Longrightarrow> breaker_shape (record_probe b ok t ws)"
proof -
  assume "breaker_shape b" and open_: "rb_state b \<noteq> CLOSED"
  then obtain now where ok: "breaker_ok b now" by (auto simp: breaker_shape_def)
  have "breaker_ok (record_probe b ok t ws) t"
    using ok open_ by (auto simp: breaker_ok_def record_probe_def close_breaker_def Let_def gw_defs split: breaker_state.splits)
  then show ?thesis by (auto simp: breaker_shape_def)
qed

definition registry_ok :: "string list \<Rightarrow> registry \<Rightarrow> bool" where
  "registry_ok urls r \<longleftrightarrow> set urls \<subseteq> fst ` set r \<and> (\<forall>b \<in> snd ` set r. breaker_shape b)"

definition pool_wf :: "string list \<Rightarrow> upool \<Rightarrow> bool" where
  "pool_wf urls p \<longleftrightarrow> urls \<noteq> [] \<and> up_urls p = urls \<and> registry_ok urls (up_breakers p)"

lemma registry_ok_set: "registry_ok urls r \<Longrightarrow> breaker_shape b \<Longrightarrow> registry_ok urls (dict_set u b r)"
  by (auto simp: registry_ok_def dest!: dict_set_vals)

lemma registry_ok_get:
  assumes "registry_ok urls r"
  shows "registry_ok urls (snd (registry_get r u)) \<and> breaker_shape (fst (registry_get r u))"
proof (cases "dict_get r u")
  case None
  then show ?thesis using registry_ok_set [OF assms breaker_shape_new] by (simp add: registry_get_def breaker_shape_new Let_def)
next
  case (Some b)
  then have "(u, b) \<in> set r" by (rule map_of_SomeD)
  then show ?thesis using Some assms by (force simp: registry_get_def registry_ok_def)
qed

lemma registry_ok_apply:
  assumes "registry_ok urls r" and "\<And>b. breaker_shape b \<Longrightarrow> breaker_shape (f b)"
  shows "registry_ok urls (registry_apply f u r)"
  using registry_ok_get [OF assms(1), of u] assms(2) registry_ok_set
  by (auto simp: registry_apply_def split: prod.splits)

lemma registry_ok_closed: "registry_ok urls r \<Longrightarrow> registry_ok urls (snd (closed_urls r us))"
proof (induction us arbitrary: r)
  case (Cons u us)
  show ?case using Cons.IH [of "snd (registry_get r u)"] registry_ok_get [OF Cons.prems, of u] by (simp add: split_beta)
qed simp

lemma registry_ok_waits: "registry_ok urls r \<Longrightarrow> registry_ok urls (snd (probe_waits now r us))"
proof (induction us arbitrary: r)
  case (Cons u us)
  show ?case using Cons.IH [of "snd (registry_get r u)"] registry_ok_get [OF Cons.prems, of u] by (simp add: split_beta)
qed simp

lemma pool_wf_pick: "pool_wf urls p \<Longrightarrow> pool_wf urls (snd (pick cfg exclude now p))"
  by (simp add: pool_wf_def pick_def Let_def split_beta registry_ok_closed registry_ok_waits)

lemma pool_wf_record: "pool_wf urls p \<Longrightarrow> pool_wf urls (pool_record u e s now p)"
  by (auto simp: pool_wf_def pool_record_def Let_def intro!: registry_ok_apply breaker_shape_success breaker_shape_failure
      split: option.split)

subsection \<open>The shared state\<close>

definition gateway_ok :: "settings \<Rightarrow> string set \<Rightarrow> string list \<Rightarrow> gateway \<Rightarrow> bool" where
  "gateway_ok cfg F urls g \<longleftrightarrow>
     pool_wf urls (cs_pool g) \<and> quota_ok (gw_quota g) \<and> labels_ok cfg F (length urls) (cs_metrics g) \<and>
     (\<forall>a \<in> set (gw_audit g). known_reason (au_reason a))"

lemma index_of_less: "index_of x xs = Some i \<Longrightarrow> i < length xs"
  by (induction xs arbitrary: i) (auto split: if_splits)

lemma pool_label_in: "up_urls p = urls \<Longrightarrow> pool_label p u \<in> index_labels (length urls)"
  using index_of_less [of u urls] by (auto simp: pool_label_def index_labels_def split: option.split)

lemma pool_record_urls [simp]: "up_urls (pool_record u e s now p) = up_urls p"
  by (simp add: pool_record_def Let_def)

lemma quota_gate_ok: "quota_ok q \<Longrightarrow> quota_gate p q = Inr (rk, q') \<Longrightarrow> quota_ok q'"
  by (auto simp: quota_gate_def bindE_Inr acquire_ok split: option.splits)

lemma labels_ok_rejection: "labels_ok cfg F n m \<Longrightarrow> labels_ok cfg F n (record_rejection r m)"
  using record_rejection_dom [of r m]
  by (simp add: labels_ok_def record_rejection_def reject_labels_def Let_def subset_insertI2)

interpretation sound: gateway_invariant cfg "gateway_ok cfg F urls" for cfg F urls
proof unfold_locales
  show "gateway_ok cfg F urls (st\<lparr>cs_pool := snd (pick cfg exclude now (cs_pool st))\<rparr>)"
    if "gateway_ok cfg F urls st" for st exclude now
    using that by (simp add: gateway_ok_def pool_wf_pick)
  show "gateway_ok cfg F urls (count_upstream u outc (st\<lparr>cs_pool := pool_record u e s now (cs_pool st)\<rparr>))"
    if "gateway_ok cfg F urls st" "outc \<in> set UPSTREAM_OUTCOMES" for st outc u e s now
  proof -
    have "pool_wf urls (pool_record u e s now (cs_pool st))" using that pool_wf_record by (simp add: gateway_ok_def)
    moreover from this have "pool_label (pool_record u e s now (cs_pool st)) u \<in> index_labels (length urls)"
      by (intro pool_label_in) (simp add: pool_wf_def)
    ultimately show ?thesis using that by (simp add: gateway_ok_def count_upstream_def labels_ok_def Let_def)
  qed
  show "gateway_ok cfg F urls (st\<lparr>gw_quota := q\<rparr>)"
    if "gateway_ok cfg F urls st" "quota_gate p (gw_quota st) = Inr (rk, q)" for st p rk q
    using that quota_gate_ok [OF _ that(2)] by (simp add: gateway_ok_def)
  show "gateway_ok cfg F urls (release_slot rk st)" if "gateway_ok cfg F urls st" for st rk
    using that release_ok by (simp add: gateway_ok_def release_slot_def split: option.split)
  show "gateway_ok cfg F urls (st\<lparr>gw_quota := record_usage (gw_quota st) k n\<rparr>)" if "gateway_ok cfg F urls st" for st k n
    using that record_usage_ok by (simp add: gateway_ok_def)
  show "gateway_ok cfg F urls (st\<lparr>cs_metrics := record_rejection r (cs_metrics st)\<rparr>)" if "gateway_ok cfg F urls st" for st r
    using that labels_ok_rejection by (simp add: gateway_ok_def)
  show "gateway_ok cfg F urls (write_audit env pr model status a b up reason d st)"
    if "gateway_ok cfg F urls st" "known_reason reason" for st env pr model status a b up reason d
    using that by (auto simp: gateway_ok_def write_audit_def audit_write_def)
  show "gateway_ok cfg F urls (st\<lparr>cs_metrics := (cs_metrics st)\<lparr>tokens_total :=
      inc (safe_model cfg model, kind) n (tokens_total (cs_metrics st))\<rparr>\<rparr>)"
    if "gateway_ok cfg F urls st" "kind \<in> {''prompt'', ''completion''}" for st kind model n
    using that safe_model_label by (auto simp: gateway_ok_def labels_ok_def)
  show "gateway_ok cfg F urls (st\<lparr>cs_metrics := (cs_metrics st)\<lparr>requests_missing_usage_total :=
      inc (safe_model cfg model) 1 (requests_missing_usage_total (cs_metrics st))\<rparr>\<rparr>)"
    if "gateway_ok cfg F urls st" for st model
    using that safe_model_label by (simp add: gateway_ok_def labels_ok_def)
  show "gateway_ok cfg F urls (observe_ttft cfg env model st)" if "gateway_ok cfg F urls st" for st env model
    using that safe_model_label by (simp add: gateway_ok_def labels_ok_def observe_ttft_def observe_value_def)
qed

subsection \<open>A request\<close>

lemma with_metrics_fields [simp]:
  "cs_pool (ap_gateway (with_metrics g st)) = cs_pool (ap_gateway st)"
  "gw_quota (ap_gateway (with_metrics g st)) = gw_quota (ap_gateway st)"
  "gw_audit (ap_gateway (with_metrics g st)) = gw_audit (ap_gateway st)"
  "cs_metrics (ap_gateway (with_metrics g st)) = g (cs_metrics (ap_gateway st))"
  by (simp_all add: with_metrics_def)

lemma gateway_ok_metrics:
  "gateway_ok cfg F urls (ap_gateway st) \<Longrightarrow> labels_ok cfg F (length urls) (g (cs_metrics (ap_gateway st))) \<Longrightarrow>
   gateway_ok cfg F urls (ap_gateway (with_metrics g st))"
  by (simp add: gateway_ok_def)

lemma labels_ok_inflight [simp]: "labels_ok cfg F n (m\<lparr>inflight_requests := i\<rparr>) = labels_ok cfg F n m"
  by (simp add: labels_ok_def)

lemma app_auth_label: "get_or ''none'' (fst (app_auth cfg env rq st)) \<in> auth_labels"
  by (auto simp: app_auth_def auth_labels_def get_or_def require_principal_def authenticate_def
      split: option.split sum.split prod.split jwt_error.split verify_error.split)

text \<open>The framework's own routes are those of \<open>F\<close>, and it answers a request without an endpoint with a page,
  a redirect or an error.\<close>

definition framework_ok :: "string set \<Rightarrow> framework \<Rightarrow> bool" where
  "framework_ok F fw \<longleftrightarrow>
     (\<forall>rq. fst (fw_unrouted fw rq) \<in> http_statuses \<and> (\<forall>p. snd (fw_unrouted fw rq) = Some p \<longrightarrow> p \<in> F))"

text \<open>The status of a request is one of those, whatever a replica answered.\<close>

lemma chat_error_status:
  assumes "chat_completions cfg env p raw st = (tr, Http_error s d hs, st')"
  shows "400 \<le> s"
proof -
  have rj: "h = Http_error s re hs" if "reject env s re p model hs y = (h, x)" for s re model hs h x y
    using reject_fields(3) [of env s re p model hs y] that by simp
  have up: "\<exists>f. h = f \<and> (\<forall>s d hs. f = Http_error s d hs \<longrightarrow> 400 \<le> s)" if "upstream_failure env p model e y = (h, x)" for model e h x y
    using that by (auto simp: upstream_failure_def dest: rj split: send_failure.splits sum.splits)
  have an: "\<exists>f. h = f \<and> (\<forall>s d hs. f = Http_error s d hs \<longrightarrow> 400 \<le> s)" if "answer_complete cfg env p model v r0 y = (h, x)"
    for model v r0 h x y
    using that by (auto simp: answer_complete_def Let_def dest: rj split: option.splits json.splits prod.splits if_splits)
  have va: "400 \<le> s" if "chat_validate cfg (ce_repr env) p raw = Inl (Refuse s re model)" for s re model
    using chat_validate_refuse [OF that] by auto
  from assms show ?thesis
    by (auto simp: chat_completions_def chat_forward_def stream_start_def stream_open_def Let_def
        dest: rj up an va split: sum.splits refusal.splits prod.splits if_splits option.splits)
qed

lemma exchange_statuses:
  assumes "framework_ok F fw" and "app_exchange cfg env fw rq st = (tr, out, statuses, f, st')"
  shows "set statuses \<subseteq> http_statuses"
proof -
  obtain tr1 ans st1 where a: "serve_app cfg env rq st = (tr1, ans, st1)" by (metis prod_cases3)
  have s: "statuses = fst (sent_of fw rq ans)"
    using assms(2) a by (auto simp: app_exchange_def Let_def split: app_answer.splits served.splits chat_response.splits
        option.splits prod.splits)
  have w: "fst (fw_unrouted fw rq) \<in> http_statuses" using assms(1) by (simp add: framework_ok_def)
  show ?thesis
  proof (cases "\<exists>h. ans = App_chat (Served h)")
    case True
    then obtain p h where "ans = App_chat (Served h)"
      "chat_completions cfg (ae_chat env) p (rq_body rq) (ap_gateway st) = (tr1, h, ap_gateway st1)"
      using serve_app_cases [OF a] by blast
    then show ?thesis using s chat_error_status [of cfg "ae_chat env" p "rq_body rq" "ap_gateway st" tr1]
      by (cases h) (auto simp: sent_of_def rendered_def http_statuses_def split: option.splits dest!: meta_spec)
  next
    case False
    then show ?thesis using a s w
      by (auto simp: serve_app_def serve_models_def serve_chat_def unauthorized_def readyz_def metrics_route_def sent_of_def
          rendered_def Let_def http_statuses_def split: option.splits endpoint.splits sum.splits prod.splits
          auth_failure.splits if_splits)
  qed
qed

lemma final_status_ok:
  assumes "set statuses \<subseteq> http_statuses"
  shows "final_status statuses f \<in> http_statuses"
proof -
  have "statuses \<noteq> [] \<Longrightarrow> last statuses \<in> http_statuses" using assms last_in_set [of statuses] by (rule subsetD)
  moreover have "500 \<in> http_statuses" by (simp add: http_statuses_def)
  ultimately show ?thesis by (simp add: final_status_def sent_status_def split: option.split py_failure.split)
qed

lemma route_label_in: "framework_ok F fw \<Longrightarrow> route_label fw rq \<in> route_labels F"
  by (auto simp: framework_ok_def route_label_def route_path_def route_labels_def split: option.split dest!: map_of_SomeD)
    (metis image_eqI fst_conv snd_conv)+

lemma labels_ok_record:
  assumes "labels_ok cfg F n m" and "framework_ok F fw" and "status \<in> http_statuses"
  shows "labels_ok cfg F n (record_request (scope_after cfg env fw rq st) status elapsed m)"
proof -
  have "(case route_path fw rq of None \<Rightarrow> ''__unmatched__'' | Some p \<Rightarrow> if p = [] then ''__unmatched__'' else p) = route_label fw rq"
    by (simp add: route_label_def)
  with assms(1,3) route_label_in [OF assms(2), of rq] app_auth_label [of cfg env rq st] show ?thesis
    by (simp add: record_request_def scope_after_def labels_ok_def outcome_of_def Let_def)
qed

lemma serve_http_ok:
  assumes "env_keeps (gateway_ok cfg F urls) (ae_chat env)" and "framework_ok F fw"
    and "gateway_ok cfg F urls (ap_gateway st)" and "serve_http cfg env fw elapsed rq st = (tr, out, f, st')"
  shows "gateway_ok cfg F urls (ap_gateway st')"
proof -
  obtain tr0 out0 statuses f0 st0 where x: "app_exchange cfg env fw rq (with_metrics middleware_start st) =
      (tr0, out0, statuses, f0, st0)" by (metis prod_cases5)
  have "gateway_ok cfg F urls (ap_gateway (with_metrics middleware_start st))"
    using assms(3) by (intro gateway_ok_metrics) (simp_all add: gateway_ok_def middleware_start_def)
  from sound.exchange_kept [OF assms(1) this x] have ok: "gateway_ok cfg F urls (ap_gateway st0)" .
  then have "labels_ok cfg F (length urls) (cs_metrics (ap_gateway st0))" by (simp add: gateway_ok_def)
  with ok assms(2,4) [unfolded serve_http_eq [OF x]]
    final_status_ok [OF exchange_statuses [OF assms(2) x]]
  show ?thesis by (auto intro!: gateway_ok_metrics labels_ok_record)
qed

subsection \<open>The background tasks\<close>

text \<open>While the prober waits for a probe the others keep the registry, and nobody else closes a breaker
  that is not closed.\<close>

definition prober_waits :: "string list \<Rightarrow> (string \<Rightarrow> registry \<Rightarrow> (py_exn + bool \<times> real) \<times> registry) \<Rightarrow> bool" where
  "prober_waits urls prober \<longleftrightarrow>
     (\<forall>u r. registry_ok urls r \<longrightarrow> registry_ok urls (snd (prober u r)) \<and>
        (rb_state (fst (registry_get r u)) \<noteq> CLOSED \<longrightarrow> rb_state (fst (registry_get (snd (prober u r)) u)) \<noteq> CLOSED))"

lemma registry_ok_apply_at:
  assumes "registry_ok urls r" and "breaker_shape (f (fst (registry_get r u)))"
  shows "registry_ok urls (registry_apply f u r)"
  using registry_ok_get [OF assms(1), of u] assms(2) registry_ok_set by (simp add: registry_apply_def split_beta)

lemma registry_get_again: "fst (registry_get (snd (registry_get r u)) u) = fst (registry_get r u)"
  by (simp add: registry_get_def Let_def split: option.split)

lemma prober_visit_ok:
  assumes "prober_waits urls prober" and "registry_ok urls r" and "prober_visit suspects prober now u r = (e, r')"
  shows "registry_ok urls r'"
proof -
  obtain b r1 where g: "registry_get r u = (b, r1)" by fastforce
  have r1: "registry_ok urls r1" "breaker_shape b" "fst (registry_get r1 u) = b"
    using registry_ok_get [OF assms(2), of u] registry_get_again [of r u] by (simp_all add: g)
  show ?thesis
  proof (cases "rb_state b = CLOSED \<or> \<not> due_for_probe b now")
    case True
    then show ?thesis using assms(3) g r1 registry_ok_apply_at breaker_shape_wedge
      by (auto simp: prober_visit_def split: if_splits)
  next
    case False
    obtain res r2 where p: "prober u r1 = (res, r2)" by fastforce
    have "registry_ok urls r2" "rb_state (fst (registry_get r2 u)) \<noteq> CLOSED"
      using assms(1) r1 False p unfolding prober_waits_def by (metis snd_conv)+
    then show ?thesis using assms(3) g p False registry_ok_apply_at breaker_shape_probe registry_ok_get
      by (auto simp: prober_visit_def split: sum.splits)
  qed
qed

lemma prober_step_ok:
  assumes "prober_waits urls prober" and "registry_ok urls r" and "breaker_prober_step suspects prober now r = (e, r')"
  shows "registry_ok urls r'"
proof -
  have "registry_ok urls (snd (prober_pass suspects prober now us r))" for us
    using assms(2)
  proof (induction us arbitrary: r)
    case (Cons u us)
    obtain x r1 where v: "prober_visit suspects prober now u r = (x, r1)" by fastforce
    with Cons.IH [OF prober_visit_ok [OF assms(1) Cons.prems v]] prober_visit_ok [OF assms(1) Cons.prems v] show ?case
      by (auto split: option.split)
  qed simp
  with assms(3) show ?thesis by (auto simp: breaker_prober_step_def split: prod.splits) (metis snd_conv)
qed

definition poller_ok :: "string list \<Rightarrow> poller \<Rightarrow> bool" where
  "poller_ok urls po \<longleftrightarrow>
     fst ` set (po_detectors po) \<subseteq> set urls \<and> dom (po_last_ok po) \<subseteq> set urls \<and> po_failing po \<subseteq> set urls"

lemma scrape_fail_ok:
  assumes "poller_ok urls po" and "labels_ok cfg F n m" and "label \<in> index_labels n" and "url \<in> set urls"
    and "kind \<in> set SCRAPE_FAILURES" and "scrape_fail label url kind now (po, m) = (po', m')"
  shows "poller_ok urls po' \<and> labels_ok cfg F n m'"
proof -
  have "fst ` set (map (\<lambda>(u, d). (u, if u = url then on_scrape_failure d else d)) (po_detectors po)) = fst ` set (po_detectors po)"
    by force
  then have "poller_ok urls (po\<lparr>po_detectors := map (\<lambda>(u, d). (u, if u = url then on_scrape_failure d else d)) (po_detectors po),
      po_failing := insert url (po_failing po)\<rparr>)"
    using assms(1,4) by (simp add: poller_ok_def)
  moreover have "labels_ok cfg F n (snd (scrape_fail label url kind now (po, m)))"
    using assms(2,3,5) by (simp add: scrape_fail_def labels_ok_def Let_def split: option.split)
  ultimately show ?thesis using assms(6) by (simp add: scrape_fail_def Let_def)
qed

lemma poll_one_ok:
  assumes "poller_ok urls po" and "labels_ok cfg F n m" and "label \<in> index_labels n" and "url \<in> set urls"
    and "poll_one cfg families client label url now later (po, m) = (po', m')"
  shows "poller_ok urls po' \<and> labels_ok cfg F n m'"
proof -
  let ?po = "po\<lparr>po_detectors := dict_set url (get_detector cfg po url) (po_detectors po)\<rparr>"
  have po: "poller_ok urls ?po" using assms(1,4) by (simp add: poller_ok_def)
  have failed: "poller_ok urls po' \<and> labels_ok cfg F n m'"
    if "scrape_fail label url kind later (?po, m) = (po', m')" "kind \<in> {''timeout'', ''connect'', ''http_status'', ''parse''}" for kind
    using scrape_fail_ok [OF po assms(2-4) _ that(1)] that(2) by (auto simp: SCRAPE_FAILURES_def)
  show ?thesis
  proof (cases "client (metrics_url url)")
    case (Scrape_raised name)
    with assms(5) failed show ?thesis by (auto simp: poll_one_def Let_def split: if_splits)
  next
    case (Scraped status body)
    show ?thesis
    proof (cases "status \<ge> 400 \<or> (\<exists>e. parse families body = Inl e) \<or> parse families body = Inr []")
      case True
      with assms(5) Scraped failed show ?thesis by (auto simp: poll_one_def Let_def split: if_splits sum.splits)
    next
      case False
      then obtain snapshot where "parse families body = Inr snapshot" "snapshot \<noteq> []" "\<not> status \<ge> 400" by (metis sum.exhaust)
      then have p1: "poll_one cfg families client label url now later (po, m) =
          (?po\<lparr>po_detectors := dict_set url (observe (get_detector cfg po url) snapshot now) (po_detectors ?po),
            po_last_ok := (po_last_ok po)(url \<mapsto> now), po_failing := po_failing po - {url}\<rparr>,
           m\<lparr>upstream_up := (upstream_up m)(label \<mapsto> 1), upstream_scrape_age_seconds := (upstream_scrape_age_seconds m)(label \<mapsto> 0),
             upstream_wedge_stall_seconds := (upstream_wedge_stall_seconds m)(label \<mapsto>
               stall_seconds (observe (get_detector cfg po url) snapshot now) now),
             upstream_wedge_suspected := (upstream_wedge_suspected m)(label \<mapsto>
               (if suspected (observe (get_detector cfg po url) snapshot now) now then 1 else 0))\<rparr>)"
        using Scraped by (simp add: poll_one_def Let_def)
      have "labels_ok cfg F n (snd (poll_one cfg families client label url now later (po, m)))"
        unfolding p1 using assms(2,3) by (simp add: labels_ok_def)
      moreover have "poller_ok urls (fst (poll_one cfg families client label url now later (po, m)))"
        unfolding p1 using po assms(4) by (auto simp: poller_ok_def)
      ultimately show ?thesis using assms(5) by simp
    qed
  qed
qed

lemma poll_once_ok:
  assumes "poller_ok urls po" and "labels_ok cfg F (length urls) m"
    and "poll_once cfg families client clock urls (po, m) = (po', m')"
  shows "poller_ok urls po' \<and> labels_ok cfg F (length urls) m'"
proof -
  have "\<lbrakk>poller_ok urls (fst pm); labels_ok cfg F (length urls) (snd pm); k + length us \<le> length urls; set us \<subseteq> set urls\<rbrakk> \<Longrightarrow>
      poller_ok urls (fst (foldl (\<lambda>pm (i, url). poll_one cfg families client (str_int (int i)) url (fst (clock i)) (snd (clock i)) pm)
        pm (enumerate k us))) \<and>
      labels_ok cfg F (length urls) (snd (foldl (\<lambda>pm (i, url). poll_one cfg families client (str_int (int i)) url (fst (clock i))
        (snd (clock i)) pm) pm (enumerate k us)))" for us k pm
  proof (induction us arbitrary: k pm)
    case (Cons u us)
    obtain po1 m1 where o: "poll_one cfg families client (str_int (int k)) u (fst (clock k)) (snd (clock k)) (fst pm, snd pm) = (po1, m1)"
      by fastforce
    have "poller_ok urls po1 \<and> labels_ok cfg F (length urls) m1"
      using poll_one_ok [OF Cons.prems(1,2) _ _ o] Cons.prems(3,4) by (simp add: index_labels_def)
    with Cons.IH [of "(po1, m1)" "Suc k"] Cons.prems(3,4) o show ?case by simp
  qed simp
  from this [of "(po, m)" 0 urls] assms show ?thesis by (simp add: poll_once_def)
qed

subsection \<open>The step relation\<close>

record process =
  ps_app :: app_state
  ps_poller :: poller

definition with_gateway :: "(gateway \<Rightarrow> gateway) \<Rightarrow> process \<Rightarrow> process" where
  "with_gateway f s = s\<lparr>ps_app := (ps_app s)\<lparr>ap_gateway := f (ap_gateway (ps_app s))\<rparr>\<rparr>"

inductive process_step :: "settings \<Rightarrow> string set \<Rightarrow> string list \<Rightarrow> process \<Rightarrow> process \<Rightarrow> bool"
  for cfg :: settings and F :: "string set" and urls :: "string list" where
  start: "ap_tasks (ps_app s) = [] \<Longrightarrow> lifespan_start cfg (ps_app s) = Inr app \<Longrightarrow> process_step cfg F urls s (s\<lparr>ps_app := app\<rparr>)"
| request: "env_keeps (gateway_ok cfg F urls) (ae_chat env) \<Longrightarrow> framework_ok F fw \<Longrightarrow>
    serve_http cfg env fw elapsed rq (ps_app s) = (tr, out, f, app) \<Longrightarrow> process_step cfg F urls s (s\<lparr>ps_app := app\<rparr>)"
| probe: "prober_waits urls prober \<Longrightarrow>
    breaker_prober_step (wedge_suspected (ps_poller s)) prober now (up_breakers (cs_pool (ap_gateway (ps_app s)))) = (e, r) \<Longrightarrow>
    process_step cfg F urls s (with_gateway (\<lambda>g. g\<lparr>cs_pool := (cs_pool g)\<lparr>up_breakers := r\<rparr>\<rparr>) s)"
| scrape: "scrape_step cfg families answers clock (cs_pool (ap_gateway (ps_app s)))
      (ps_poller s, cs_metrics (ap_gateway (ps_app s))) = (po, m) \<Longrightarrow>
    process_step cfg F urls s (with_gateway (\<lambda>g. g\<lparr>cs_metrics := m\<rparr>) (s\<lparr>ps_poller := po\<rparr>))"
| lag: "process_step cfg F urls s (with_gateway (\<lambda>g. g\<lparr>cs_metrics := loop_lag t0 t1 interval (cs_metrics g)\<rparr>) s)"
| stop: "lifespan_stop (ps_app s) = (e, app) \<Longrightarrow> process_step cfg F urls s (s\<lparr>ps_app := app\<rparr>)"

text \<open>The process as the modules' imports leave it.\<close>

definition imported :: "upool \<Rightarrow> process" where
  "imported p =
     \<lparr>ps_app = \<lparr>ap_gateway = \<lparr>cs_pool = p, cs_metrics = new_metrics, gw_quota = new_quota, gw_audit = []\<rparr>,
        ap_auth = \<lparr>as_key_store = None, as_jwt_verifier = None, as_verify_limit = None\<rparr>, ap_tasks = [], ap_log = []\<rparr>,
      ps_poller = new_poller\<rparr>"

inductive process_reachable :: "settings \<Rightarrow> string set \<Rightarrow> string list \<Rightarrow> process \<Rightarrow> bool"
  for cfg :: settings and F :: "string set" and urls :: "string list" where
  import: "new_pool cfg None = Inr p \<Longrightarrow> urls = up_urls p \<Longrightarrow> process_reachable cfg F urls (imported p)"
| step: "process_reachable cfg F urls s \<Longrightarrow> process_step cfg F urls s s' \<Longrightarrow> process_reachable cfg F urls s'"

definition process_ok :: "settings \<Rightarrow> string set \<Rightarrow> string list \<Rightarrow> process \<Rightarrow> bool" where
  "process_ok cfg F urls s \<longleftrightarrow> gateway_ok cfg F urls (ap_gateway (ps_app s)) \<and> poller_ok urls (ps_poller s)"

inductive_cases process_stepE [elim]: "process_step cfg F urls s s'"

lemma with_gateway_fields [simp]:
  "ap_gateway (ps_app (with_gateway f s)) = f (ap_gateway (ps_app s))" "ps_poller (with_gateway f s) = ps_poller s"
  by (simp_all add: with_gateway_def)

lemma pool_wf_client [simp]: "pool_wf urls (p\<lparr>up_client := c\<rparr>) = pool_wf urls p"
  by (simp add: pool_wf_def)

lemma lifespan_start_ok:
  "gateway_ok cfg F urls (ap_gateway st) \<Longrightarrow> lifespan_start cfg st = Inr st' \<Longrightarrow> gateway_ok cfg F urls (ap_gateway st')"
  by (auto simp: lifespan_start_def bindE_Inr pool_start_def with_pool_def gateway_ok_def Let_def)

lemma lifespan_stop_ok:
  "gateway_ok cfg F urls (ap_gateway st) \<Longrightarrow> lifespan_stop st = (e, st') \<Longrightarrow> gateway_ok cfg F urls (ap_gateway st')"
  by (auto simp: lifespan_stop_def with_pool_def pool_stop_def gateway_ok_def Let_def split: option.splits)

lemma process_step_ok:
  assumes "process_step cfg F urls s s'" and "process_ok cfg F urls s"
  shows "process_ok cfg F urls s'"
  using assms
proof (induction rule: process_step.induct)
  case (start s app)
  then show ?case using lifespan_start_ok [OF _ start.hyps(2)] by (simp add: process_ok_def)
next
  case (request env fw elapsed rq s tr out f app)
  then show ?case using serve_http_ok [OF request.hyps(1,2) _ request.hyps(3)] by (simp add: process_ok_def)
next
  case (probe prober s now e r)
  then have "pool_wf urls (cs_pool (ap_gateway (ps_app s)))" by (simp add: process_ok_def gateway_ok_def)
  with probe prober_step_ok [OF probe.hyps(1) _ probe.hyps(2)] show ?case
    by (simp add: process_ok_def gateway_ok_def pool_wf_def)
next
  case (scrape families answers clock s po m)
  then have ok: "poller_ok urls (ps_poller s)" "labels_ok cfg F (length urls) (cs_metrics (ap_gateway (ps_app s)))"
    "up_urls (cs_pool (ap_gateway (ps_app s))) = urls" by (simp_all add: process_ok_def gateway_ok_def pool_wf_def)
  then have "poller_ok urls po \<and> labels_ok cfg F (length urls) m"
    using scrape.hyps poll_once_ok [OF ok(1,2)] by (auto simp: scrape_step_def split: sum.splits)
  with scrape show ?case by (simp add: process_ok_def gateway_ok_def)
next
  case (lag s t0 t1 interval)
  then show ?case by (simp add: process_ok_def gateway_ok_def labels_ok_def loop_lag_def)
next
  case (stop s e app)
  then show ?case using lifespan_stop_ok [OF _ stop.hyps] by (simp add: process_ok_def)
qed

lemma registry_reset_ok: "registry_ok urls (registry_reset urls)"
proof -
  have "\<forall>b \<in> snd ` set r. breaker_shape b \<Longrightarrow>
      \<forall>b \<in> snd ` set (foldl (\<lambda>r (i, u). dict_set u (new_breaker u (str_int (int i))) r) r (enumerate n us)). breaker_shape b"
    for r n us
  proof (induction us arbitrary: r n)
    case (Cons u us)
    have "\<forall>b \<in> snd ` set (dict_set u (new_breaker u (str_int (int n))) r). breaker_shape b"
      using Cons.prems dict_set_vals breaker_shape_new by fastforce
    from Cons.IH [OF this] show ?case by simp
  qed simp
  from this [of "[]"] show ?thesis by (simp add: registry_ok_def registry_reset_def registry_reset_keys_aux)
qed

lemma imported_ok: "new_pool cfg None = Inr p \<Longrightarrow> process_ok cfg F (up_urls p) (imported p)"
  using registry_reset_ok
  by (auto simp: new_pool_def set_urls_def process_ok_def imported_def gateway_ok_def pool_wf_def new_quota_ok labels_ok_def
      new_metrics_def poller_ok_def new_poller_def split: if_splits)

lemma process_reachable_ok: "process_reachable cfg F urls s \<Longrightarrow> process_ok cfg F urls s"
  by (induction rule: process_reachable.induct) (auto intro: imported_ok process_step_ok)

text \<open>C8. Whatever callers send and whatever the replicas answer, in whatever order requests, probes,
  scrapes, start and stop come: every label of every metric the process publishes comes from the
  vocabulary of its configuration - the route templates, the allowed models or \<open>other\<close>, the
  known reasons or \<open>other\<close>, the index of a replica and never its address, three credential
  kinds and no key id. Two labels of \<open>requests_total\<close> are chosen outside: the method is the
  caller's, and the status is the decimal numeral of 200 or of a number from 300 on, which for an
  error a replica answered is the replica's own. And
  every audit record is without a reason or has one of the known ones.\<close>

theorem labels_stay_in_vocabulary:
  assumes "process_reachable cfg F urls s"
  shows "labels_ok cfg F (length urls) (cs_metrics (ap_gateway (ps_app s))) \<and>
     list_all (\<lambda>a. known_reason (au_reason a)) (gw_audit (ap_gateway (ps_app s)))"
  using process_reachable_ok [OF assms] by (simp add: process_ok_def gateway_ok_def list_all_iff)

lemma demo_process:
  "\<exists>s. process_reachable default_settings {} (UPSTREAM_URLS default_settings) s \<and>
     requests_total (cs_metrics (ap_gateway (ps_app s))) \<noteq> Map.empty"
proof -
  define p where "p = \<lparr>up_urls = UPSTREAM_URLS default_settings, up_next = 0,
    up_breakers = registry_reset (UPSTREAM_URLS default_settings), up_client = None\<rparr>"
  have p: "new_pool default_settings None = Inr p" "UPSTREAM_URLS default_settings = up_urls p"
    by (simp_all add: p_def new_pool_def set_urls_def default_urls)
  let ?a = "ps_app (imported p)"
  obtain tr out statuses f st0 where x: "app_exchange default_settings demo_app_env demo_framework anonymous_rq
      (with_metrics middleware_start ?a) = (tr, out, statuses, f, st0)" by (metis prod_cases5)
  have "route_path demo_framework anonymous_rq = Some ''/v1/chat/completions''"
    by (simp add: route_path_def anonymous_rq_def demo_rq_def ROUTES_def)
  then have counted: "requests_total (cs_metrics (ap_gateway (snd (snd (snd (serve_http default_settings demo_app_env demo_framework 1
      anonymous_rq ?a)))))) \<noteq> Map.empty"
    by (simp add: serve_http_eq [OF x] record_request_def scope_after_def inc_def Let_def)
  have "env_keeps P (ae_chat demo_app_env)" for P
    by (simp add: env_keeps_def demo_app_env_def quiet_env_def still_net_keeps)
  moreover have "framework_ok {} demo_framework" by (simp add: framework_ok_def demo_framework_def http_statuses_def)
  moreover obtain tr1 out1 f1 app where s: "serve_http default_settings demo_app_env demo_framework 1 anonymous_rq ?a =
      (tr1, out1, f1, app)" by (metis prod_cases4)
  ultimately have "process_step default_settings {} (UPSTREAM_URLS default_settings) (imported p) (imported p\<lparr>ps_app := app\<rparr>)"
    by (intro process_step.request) simp_all
  with process_reachable.step [OF process_reachable.import [OF p]] counted s show ?thesis by fastforce
qed

theorem labels_stay_in_vocabulary_witness:
  "\<exists>s :: process. requests_total (cs_metrics (ap_gateway (ps_app s))) \<noteq> Map.empty \<and>
     labels_ok default_settings {} (length (UPSTREAM_URLS default_settings)) (cs_metrics (ap_gateway (ps_app s)))"
  using demo_process labels_stay_in_vocabulary by blast

text \<open>C7. The shared state of the process is well formed in every state it reaches: the pool routes over
  the configured replicas, each with a breaker whose fields fit its state; no key's slots or
  tokens are negative; and the poller remembers nothing but configured replicas.\<close>

theorem process_state_well_formed:
  assumes "process_reachable cfg F urls s"
  shows "pool_wf urls (cs_pool (ap_gateway (ps_app s))) \<and> quota_ok (gw_quota (ap_gateway (ps_app s))) \<and>
     poller_ok urls (ps_poller s)"
  using process_reachable_ok [OF assms] by (simp add: process_ok_def gateway_ok_def)

theorem process_state_well_formed_witness:
  "\<exists>s :: process. requests_total (cs_metrics (ap_gateway (ps_app s))) \<noteq> Map.empty \<and>
     pool_wf (UPSTREAM_URLS default_settings) (cs_pool (ap_gateway (ps_app s)))"
  using demo_process process_state_well_formed by blast

end
