(* ===== verification/Rotation.thy ===== *)
theory Rotation
  imports Process
begin

section \<open>Who puts a replica back into rotation (gateway/upstream/)\<close>

text \<open>
  The states of a breaker ordered by how far the replica is from serving, and the claim that a
  request only ever moves a replica away from serving: a success does not close a breaker, a
  failure may open one, and the prober alone brings it back. It is \<open>gateway_invariant\<close> once more,
  for the property that a breaker is at least as far as it was.
\<close>

subsection \<open>The states in order\<close>

fun distance :: "breaker_state \<Rightarrow> nat" where
  "distance CLOSED = 0"
| "distance HALF_OPEN = 1"
| "distance OPEN = 2"

instantiation breaker_state :: linorder
begin

definition less_eq_breaker_state :: "breaker_state \<Rightarrow> breaker_state \<Rightarrow> bool" where
  "less_eq_breaker_state s t \<longleftrightarrow> distance s \<le> distance t"

definition less_breaker_state :: "breaker_state \<Rightarrow> breaker_state \<Rightarrow> bool" where
  "less_breaker_state s t \<longleftrightarrow> distance s < distance t"

instance
proof
  fix s t :: breaker_state
  show "s \<le> t \<Longrightarrow> t \<le> s \<Longrightarrow> s = t"
    by (cases s; cases t) (simp_all add: less_eq_breaker_state_def)
qed (auto simp: less_eq_breaker_state_def less_breaker_state_def)

end

lemma CLOSED_least [simp]: "CLOSED \<le> s"
  by (simp add: less_eq_breaker_state_def)

lemma OPEN_greatest [simp]: "s \<le> OPEN"
  by (cases s) (simp_all add: less_eq_breaker_state_def)

subsection \<open>The state of a replica\<close>

definition state_at :: "registry \<Rightarrow> string \<Rightarrow> breaker_state" where
  "state_at r u = rb_state (fst (registry_get r u))"

lemma state_at_eq: "state_at r u = (case dict_get r u of None \<Rightarrow> CLOSED | Some b \<Rightarrow> rb_state b)"
  by (simp add: state_at_def registry_get_def new_breaker_def Let_def split: option.split)

lemma state_at_get [simp]: "state_at (snd (registry_get r v)) u = state_at r u"
  by (simp add: state_at_eq registry_get_def new_breaker_def Let_def split: option.split)

lemma state_at_closed [simp]: "state_at (snd (closed_urls r us)) u = state_at r u"
proof (induction us arbitrary: r)
  case (Cons v us)
  show ?case using Cons.IH [of "snd (registry_get r v)"] by (simp add: split_beta)
qed simp

lemma state_at_waits [simp]: "state_at (snd (probe_waits now r us)) u = state_at r u"
proof (induction us arbitrary: r)
  case (Cons v us)
  show ?case using Cons.IH [of "snd (registry_get r v)"] by (simp add: split_beta)
qed simp

lemma state_at_pick: "state_at (up_breakers (snd (pick cfg exclude now p))) u = state_at (up_breakers p) u"
  by (simp add: pick_def Let_def split_beta)

lemma state_at_apply:
  assumes "\<And>b. rb_state b \<le> rb_state (f b)"
  shows "state_at r u \<le> state_at (registry_apply f v r) u"
proof -
  have "state_at (registry_apply f v r) u = (if u = v then rb_state (f (fst (registry_get r v))) else state_at r u)"
    by (auto simp: state_at_eq registry_apply_def registry_get_def new_breaker_def Let_def split: option.split)
  then show ?thesis using assms by (simp add: state_at_def)
qed

lemma success_moves_away: "rb_state b \<le> rb_state (record_success b t)"
  by (simp add: record_success_def)

lemma failure_moves_away: "rb_state b \<le> rb_state (record_failure b k t)"
  by (simp add: record_failure_def open_breaker_def Let_def)

lemma state_at_record: "state_at (up_breakers p) u \<le> state_at (up_breakers (pool_record v e s now p)) u"
  by (auto simp: pool_record_def Let_def intro!: state_at_apply success_moves_away failure_moves_away split: option.split)

subsection \<open>A request\<close>

abbreviation far :: "string \<Rightarrow> breaker_state \<Rightarrow> gateway \<Rightarrow> bool" where
  "far u s \<equiv> (\<lambda>g. s \<le> state_at (up_breakers (cs_pool g)) u)"

interpretation away: gateway_invariant cfg "far u s" for cfg u s
proof unfold_locales
  show "far u s (count_upstream v outc (st\<lparr>cs_pool := pool_record v e c now (cs_pool st)\<rparr>))" if "far u s st" for st outc v e c now
    using that state_at_record [of "cs_pool st" u v e c now] by (auto simp: count_upstream_def Let_def intro: order_trans)
qed (simp_all add: state_at_pick release_slot_def write_audit_def observe_ttft_def Let_def split: option.split)

text \<open>C14. No request puts a replica back into rotation: whatever arrives and however it ends, no
  breaker is closer to serving afterwards than before (closed, half open, open, in this order),
  as long as the tasks that run while the request waits bring none closer either. A success
  on a replica whose breaker opened meanwhile leaves it open; only the prober closes it.\<close>

theorem requests_never_close:
  assumes "env_keeps (\<lambda>g. state_at (up_breakers (cs_pool (ap_gateway st))) u \<le> state_at (up_breakers (cs_pool g)) u) (ae_chat env)"
    and "serve_http cfg env fw elapsed rq st = (tr, out, f, st')"
  shows "state_at (up_breakers (cs_pool (ap_gateway st))) u \<le> state_at (up_breakers (cs_pool (ap_gateway st'))) u"
proof -
  obtain tr0 out0 statuses f0 st0 where x: "app_exchange cfg env fw rq (with_metrics middleware_start st) =
      (tr0, out0, statuses, f0, st0)" by (metis prod_cases5)
  have "far u (state_at (up_breakers (cs_pool (ap_gateway st))) u) (ap_gateway st0)"
    by (rule away.exchange_kept [OF assms(1) _ x]) simp
  with assms(2) [unfolded serve_http_eq [OF x]] show ?thesis by auto
qed

definition open_app :: app_state where
  "open_app = demo_app\<lparr>ap_gateway := (ap_gateway demo_app)\<lparr>cs_pool := (cs_pool (ap_gateway demo_app))
     \<lparr>up_breakers := [(''u'', open_breaker (new_breaker ''u'' ''0'') 1)]\<rparr>\<rparr>\<rparr>"

theorem requests_never_close_witness:
  "state_at (up_breakers (cs_pool (ap_gateway (snd (snd (snd (serve_http default_settings demo_app_env demo_framework 1
      demo_rq open_app))))))) ''u'' = OPEN"
proof -
  obtain tr out f st' where s: "serve_http default_settings demo_app_env demo_framework 1 demo_rq open_app = (tr, out, f, st')"
    by (metis prod_cases4)
  have "env_keeps P (ae_chat demo_app_env)" for P
    by (simp add: env_keeps_def demo_app_env_def quiet_env_def still_net_keeps)
  from requests_never_close [OF this s, of "''u''"] have "OPEN \<le> state_at (up_breakers (cs_pool (ap_gateway st'))) ''u''"
    by (simp add: open_app_def state_at_eq open_breaker_def)
  then show ?thesis using s by (simp add: antisym)
qed

end
