(* ===== verification/Audit_Laws.thy ===== *)
theory Audit_Laws
  imports Served_App
begin

section \<open>Every chat request is audited once (gateway/routes/chat.py, gateway/audit.py)\<close>

text \<open>
  The records a request leaves in the audit log, on every path from the handler to the end of a
  stream. Other requests write records of their own meanwhile; the theorem counts the records of
  one subject, under the assumption that nobody else writes for that subject.
\<close>

definition own_records :: "principal \<Rightarrow> gateway \<Rightarrow> audit_log" where
  "own_records p st = filter (\<lambda>r. au_subject r = Some (pr_subject p)) (gw_audit st)"

definition others_write_nothing :: "principal \<Rightarrow> chat_env \<Rightarrow> bool" where
  "others_write_nothing p env \<longleftrightarrow> (\<forall>l. env_keeps (\<lambda>st. own_records p st = l) env)"

text \<open>One more record of the subject, with this status, reason and kind.\<close>

definition audited :: "principal \<Rightarrow> int \<Rightarrow> string option \<Rightarrow> bool \<Rightarrow> gateway \<Rightarrow> gateway \<Rightarrow> bool" where
  "audited p s reason streamed st st' \<longleftrightarrow>
     (\<exists>r. own_records p st' = own_records p st @ [r] \<and> au_keyid r = pr_keyid p \<and> au_status r = s \<and>
        au_reason r = reason \<and> au_streamed r = streamed)"

lemma own_records_updates [simp]:
  "own_records p (st\<lparr>cs_pool := x\<rparr>) = own_records p st" "own_records p (st\<lparr>cs_metrics := m\<rparr>) = own_records p st"
  "own_records p (st\<lparr>gw_quota := q\<rparr>) = own_records p st" "own_records p (count_upstream u outc st) = own_records p st"
  "own_records p (release_slot rk st) = own_records p st" "own_records p (observe_ttft cfg env model st) = own_records p st"
  by (simp_all add: own_records_def count_upstream_def release_slot_def observe_ttft_def Let_def split: option.split)

lemma audited_from: "own_records p st1 = own_records p st \<Longrightarrow> audited p s re x st1 st' = audited p s re x st st'"
  by (simp add: audited_def)

lemma write_audited: "ce_audit_ok env \<Longrightarrow> audited p s re x st (write_audit env p model s a b u re x st)"
  by (simp add: audited_def own_records_def write_audit_def audit_write_def)

lemma own_charge: "charge_usage cfg model usage keyid st = (e, st') \<Longrightarrow> own_records p st' = own_records p st"
  by (auto simp: charge_usage_def count_kind_def bindE_Inr Let_def split: if_splits sum.splits option.splits)

lemma own_with_retry:
  assumes "others_write_nothing p env" and "with_retry cfg (ce_net env) path body stream st = (tr, r, st')"
  shows "own_records p st' = own_records p st"
proof -
  have "net_keeps (\<lambda>s. own_records p s = own_records p st) (ce_net env)"
    using assms(1) by (simp add: others_write_nothing_def env_keeps_def)
  moreover have "client_keeps cfg (\<lambda>s :: gateway. own_records p s = own_records p st)" by (simp add: client_keeps_def)
  ultimately show ?thesis
    using with_retry_keeps [of "\<lambda>s. own_records p s = own_records p st" "ce_net env" cfg st path body stream] assms(2) by simp
qed

lemma own_close: "others_write_nothing p env \<Longrightarrow> ce_close env st = (e, st') \<Longrightarrow> own_records p st' = own_records p st"
  unfolding others_write_nothing_def env_keeps_def by (metis snd_conv)

lemma own_chunk [simp]: "others_write_nothing p env \<Longrightarrow> own_records p (ce_chunk env i st) = own_records p st"
  by (simp add: others_write_nothing_def env_keeps_def)

lemma own_drain: "others_write_nothing p env \<Longrightarrow> drain_error env resp st = (e, st') \<Longrightarrow> own_records p st' = own_records p st"
  by (auto simp: drain_error_def Let_def split: prod.splits dest: own_close)

subsection \<open>The handler\<close>

text \<open>What the log holds after an answer: one record of a refusal with its status and a reason, one of a
  complete answer with the replica's status, none yet for a stream, none for a crash.\<close>

definition audit_matches :: "net_event list \<Rightarrow> principal \<Rightarrow> chat_response \<Rightarrow> gateway \<Rightarrow> gateway \<Rightarrow> bool" where
  "audit_matches tr p h st st' \<longleftrightarrow>
     (case h of
        Http_error s d hs \<Rightarrow> 400 \<le> s \<and> (\<exists>re. audited p s (Some re) False st st')
      | Json_response v \<Rightarrow>
          (\<exists>resp. replica_answered tr resp \<and> rs_status resp < 400 \<and> audited p (rs_status resp) None False st st')
      | Event_stream u resp \<Rightarrow> replica_answered tr resp \<and> rs_status resp < 400 \<and> own_records p st' = own_records p st
      | Failed f \<Rightarrow> own_records p st' = own_records p st)"

lemma matches_Failed [simp]: "audit_matches tr p (Failed f) st st' \<longleftrightarrow> own_records p st' = own_records p st"
  by (simp add: audit_matches_def)

lemma matches_from: "own_records p st1 = own_records p st \<Longrightarrow> audit_matches tr p h st1 st' = audit_matches tr p h st st'"
  by (simp add: audit_matches_def audited_from [of p st1 st] split: chat_response.split)

lemma matches_to: "own_records p st1 = own_records p st' \<Longrightarrow> audit_matches tr p h st st1 = audit_matches tr p h st st'"
  by (simp add: audit_matches_def audited_def split: chat_response.split)

lemma reject_matches:
  assumes "ce_audit_ok env" and "400 \<le> s" and "reject env s re p model hs st = (h, st')"
  shows "audit_matches tr p h st st'"
proof -
  have "audited p s (Some re) False (st\<lparr>cs_metrics := m\<rparr>) (write_audit env p model s (JInt 0) (JInt 0) None (Some re) False
      (st\<lparr>cs_metrics := m\<rparr>))" for m by (rule write_audited [OF assms(1)])
  then have "audited p s (Some re) False st st'" using assms(3) by (auto simp: reject_def Let_def audited_def)
  then show ?thesis using assms(2,3) by (auto simp: audit_matches_def reject_def Let_def)
qed

lemma upstream_failure_matches:
  assumes "ce_audit_ok env" and "upstream_failure env p model e st = (h, st')"
  shows "audit_matches tr p h st st'"
proof -
  have "audit_matches tr p (Failed f) st st" for f by (simp add: audit_matches_def)
  then show ?thesis using assms
    by (auto simp: upstream_failure_def elim!: reject_matches [rotated 2] split: send_failure.splits sum.splits)
qed

lemma charged_matches:
  assumes "ce_audit_ok env" and "charge_usage cfg model usage keyid st = (None, st1)"
  shows "s < 400 \<Longrightarrow> s = rs_status resp \<Longrightarrow> replica_answered tr resp \<Longrightarrow> audit_matches tr p (Json_response v) st (write_audit env p model s a b u None False st1)"
    and "400 \<le> s \<Longrightarrow> audit_matches tr p (Http_error s d hs) st (write_audit env p model s a b u (Some re) False st1)"
proof -
  have "audited p s re' False st (write_audit env p model s a b u re' False st1)" for re'
    unfolding audited_from [OF own_charge [OF assms(2)], symmetric] by (rule write_audited [OF assms(1)])
  then show "s < 400 \<Longrightarrow> s = rs_status resp \<Longrightarrow> replica_answered tr resp \<Longrightarrow> audit_matches tr p (Json_response v) st (write_audit env p model s a b u None False st1)"
    and "400 \<le> s \<Longrightarrow> audit_matches tr p (Http_error s d hs) st (write_audit env p model s a b u (Some re) False st1)"
    by (auto simp: audit_matches_def)
qed

lemma answer_matches:
  assumes "ce_audit_ok env" and "answer_complete cfg env p model u resp st = (h, st')" and "replica_answered tr resp"
  shows "audit_matches tr p h st st'"
proof (cases "if rs_status resp < 400 then json_loads_bytes (rs_content resp) else Some (JObj [])")
  case None
  then show ?thesis using assms by (auto simp: answer_complete_def split: if_splits elim!: reject_matches [rotated 2])
next
  case (Some v)
  show ?thesis
  proof (cases "\<exists>payload usage. v = JObj payload \<and> py_or (get_default payload ''usage'' JNull) (JObj []) = JObj usage")
    case False
    then have "h = Failed (Raises AttributeError) \<and> st' = st"
      using assms(2) unfolding answer_complete_def Some by (auto split: json.splits)
    then show ?thesis by simp
  next
    case True
    then obtain payload usage where v: "v = JObj payload" "py_or (get_default payload ''usage'' JNull) (JObj []) = JObj usage" by blast
    obtain e st1 where ch: "charge_usage cfg model usage (pr_keyid p) st = (e, st1)" by fastforce
    show ?thesis
    proof (cases e)
      case (Some f)
      then have "h = Failed f \<and> st' = st1"
        using assms(2) ch v \<open>(if rs_status resp < 400 then _ else _) = Some v\<close> by (simp add: answer_complete_def)
      then show ?thesis using own_charge [OF ch] by simp
    next
      case None
      with assms(2) ch v \<open>(if rs_status resp < 400 then _ else _) = Some v\<close> charged_matches [OF assms(1) ch [unfolded None]] assms(3)
      show ?thesis by (auto simp: answer_complete_def Let_def split: if_splits)
    qed
  qed
qed

lemma stream_matches:
  assumes "others_write_nothing p env" and "ce_audit_ok env" and "stream_open cfg env p model body st = (tr, r, st')"
  shows "case r of Inl e \<Rightarrow> own_records p st' = own_records p st | Inr h \<Rightarrow> audit_matches tr p h st st'"
proof -
  obtain tr1 r1 st1 where w: "open_stream cfg (ce_net env) ''/chat/completions'' (JObj (stream_body body)) st = (tr1, r1, st1)"
    by (metis prod_cases3)
  have o: "own_records p st1 = own_records p st" using own_with_retry [OF assms(1) w] .
  have d: "own_records p st2 = own_records p st" if "drain_error env resp st1 = (e, st2)" for resp e st2
    using own_drain [OF assms(1) that] o by simp
  have "audit_matches tr p h st st3"
    if "drain_error env resp st1 = (e, st2)" "reject env s re p model hs st2 = (h, st3)" "400 \<le> s" for resp e st2 s re hs h st3
    using reject_matches [OF assms(2) that(3,2)] matches_from [OF d [OF that(1)]] by simp
  then show ?thesis
    using assms(3) w o
    by (auto simp: stream_open_def audit_matches_def [of _ p "Event_stream u resp" for u resp] dest: d with_retry_answered
        split: sum.splits if_splits prod.splits option.splits)
qed

lemma forward_matches:
  assumes "others_write_nothing p env" and "ce_audit_ok env"
    and "chat_forward cfg env p model body streaming rk st = (tr, h, st')"
  shows "audit_matches tr p h st st'"
proof (cases streaming)
  case True
  obtain tr1 r1 st1 where w: "stream_open cfg env p model body st = (tr1, r1, st1)" by (metis prod_cases3)
  obtain st2 where s: "stream_start cfg env p model rk body st = (tr1, r1, st2)" and o: "own_records p st2 = own_records p st1"
    using w by (auto simp: stream_start_def Let_def)
  note m = stream_matches [OF assms(1,2) w]
  show ?thesis
  proof (cases r1)
    case (Inl e)
    then obtain h' st3 where u: "upstream_failure env p model e st2 = (h', st3)" by fastforce
    from upstream_failure_matches [OF assms(2) u] have "audit_matches tr p h' st st3"
      using matches_from [of p st2 st] m o Inl by simp
    then show ?thesis using assms(3) True s Inl u by (simp add: chat_forward_def)
  next
    case (Inr h')
    then show ?thesis using assms(3) True s m matches_to [OF o] by (simp add: chat_forward_def)
  qed
next
  case False
  obtain tr1 r1 st1 where w: "request cfg (ce_net env) ''/chat/completions'' (JObj body) st = (tr1, r1, st1)" by (metis prod_cases3)
  have o: "own_records p st1 = own_records p st" using own_with_retry [OF assms(1) w] .
  show ?thesis
  proof (cases r1)
    case (Inl e)
    then obtain h' st3 where u: "upstream_failure env p model e st1 = (h', st3)" by fastforce
    have "audit_matches tr p h' st (release_slot rk st3)"
      using upstream_failure_matches [OF assms(2) u] matches_from [OF o] matches_to [of p "release_slot rk st3" st3] by simp
    then show ?thesis using assms(3) False w Inl u by (simp add: chat_forward_def)
  next
    case (Inr ur)
    obtain u resp where ur: "ur = (u, resp)" by fastforce
    obtain h' st3 where a: "answer_complete cfg env p model u resp (release_slot rk st1) = (h', st3)" by fastforce
    have "audit_matches tr1 p h' st st3"
      using answer_matches [OF assms(2) a with_retry_answered [OF w [unfolded Inr ur]]] matches_from [of p "release_slot rk st1" st] o by simp
    then show ?thesis using assms(3) False w Inr ur a by (simp add: chat_forward_def)
  qed
qed

lemma chat_matches:
  assumes "others_write_nothing p env" and "ce_audit_ok env" and "chat_completions cfg env p raw st = (tr, h, st')"
  shows "audit_matches tr p h st st'"
proof (cases "chat_validate cfg (ce_repr env) p raw")
  case (Inl x)
  show ?thesis
  proof (cases x)
    case (Refuse s re model)
    then have "400 \<le> s" using chat_validate_refuse [of cfg "ce_repr env" p raw s re model] Inl by auto
    then show ?thesis using assms(3) Inl Refuse reject_matches [OF assms(2)]
      by (auto simp: chat_completions_def split: prod.splits)
  next
    case (Crash e)
    then show ?thesis using assms(3) Inl by (auto simp: chat_completions_def audit_matches_def)
  qed
next
  case (Inr x)
  obtain model body streaming where x: "x = (model, body, streaming)" by (metis prod_cases3)
  show ?thesis
  proof (cases "quota_gate p (gw_quota st)")
    case (Inl re)
    then show ?thesis using assms(3) Inr x reject_matches [OF assms(2), of 429]
      by (auto simp: chat_completions_def split: prod.splits)
  next
    case I: (Inr kq)
    obtain rk q where kq: "kq = (rk, q)" by fastforce
    have "chat_forward cfg env p model body streaming rk (st\<lparr>gw_quota := q\<rparr>) = (tr, h, st')"
      using assms(3) Inr x I kq by (simp add: chat_completions_def)
    from forward_matches [OF assms(1,2) this] show ?thesis using matches_from [of p "st\<lparr>gw_quota := q\<rparr>" st] by simp
  qed
qed

subsection \<open>The relay and the whole exchange\<close>

lemma own_relay_loop:
  "others_write_nothing p env \<Longrightarrow> relay_loop cfg env model ending i first buf usage chunks st = (out, u, e, st') \<Longrightarrow>
   own_records p st' = own_records p st"
proof (induction chunks arbitrary: i first buf usage st out)
  case (Cons chunk chunks)
  define st1 where "st1 = (if first \<and> chunk \<noteq> [] then observe_ttft cfg env model (ce_chunk env i st) else ce_chunk env i st)"
  have "own_records p st1 = own_records p st" using Cons.prems(1) by (simp add: st1_def)
  with Cons.prems(2) Cons.IH [OF Cons.prems(1)] show ?case
    by (auto simp: st1_def [symmetric] Let_def split: scan_state.splits prod.splits)
qed auto

text \<open>The reasons a stream is recorded with.\<close>

definition stream_reasons :: "string option set" where
  "stream_reasons = {None, Some ''upstream_stream_broken''}"

lemma relay_records:
  assumes "others_write_nothing p env" and "ce_audit_ok env" and "relay cfg env p model rk u resp st = (out, f, st')"
  shows "(\<exists>re \<in> stream_reasons. audited p (rs_status resp) re True st st') \<or> (f \<noteq> None \<and> own_records p st' = own_records p st)"
proof -
  obtain out1 usage e st1 where l: "relay_loop cfg env model (rs_end resp) 0 True [] [] (rs_chunks resp) st = (out1, usage, e, st1)"
    by (metis prod_cases4)
  define broken where "broken \<longleftrightarrow> (case e of None \<Rightarrow> False | Some x \<Rightarrow> is_Exception x)"
  define st2 where "st2 = (if broken
      then st1\<lparr>cs_metrics := record_rejection ''upstream_stream_broken'' (cs_metrics st1)\<rparr> else st1)"
  have "own_records p st2 = own_records p st" using own_relay_loop [OF assms(1) l] by (simp add: st2_def)
  moreover obtain ce st3 where c: "ce_close env st2 = (ce, st3)" by fastforce
  moreover note own_close [OF assms(1) c]
  moreover obtain ue st4 where ch: "charge_usage cfg model usage (pr_keyid p) (release_slot rk st3) = (ue, st4)" by fastforce
  moreover note own_charge [OF ch, of p]
  ultimately have o: "own_records p st3 = own_records p st" "own_records p st4 = own_records p st" by simp_all
  have w: "audited p (rs_status resp) re True st (write_audit env p model (rs_status resp) a b (Some u) re True st4)" for re a b
    using write_audited [OF assms(2)] audited_from [OF o(2)] by blast
  show ?thesis
  proof (cases "ce = None \<and> ue = None")
    case True
    let ?re = "if broken then Some ''upstream_stream_broken'' else None"
    obtain a b where "st' = write_audit env p model (rs_status resp) a b (Some u) ?re True st4"
      using assms(3) l c ch True by (auto simp: relay_def broken_def [symmetric] st2_def Let_def split: if_splits)
    then have "audited p (rs_status resp) ?re True st st'" using w by simp
    then show ?thesis by (auto simp: stream_reasons_def split: if_splits)
  next
    case False
    then have "f \<noteq> None \<and> (st' = st3 \<or> st' = st4)"
      using assms(3) l c ch by (auto simp: relay_def broken_def [symmetric] st2_def Let_def split: if_splits option.splits)
    then show ?thesis using o by auto
  qed
qed

text \<open>C5. Every chat request of an authenticated caller is audited, and once: a request that is refused,
  at whatever step, leaves one record with the status it was answered with and a reason; one
  that is answered in full, which is a 200 to the caller, leaves one record without a reason, with the
  status below 400 the replica gave the last attempt; a streamed one leaves one with that status at
  its end, whole or broken. Only a request an exception leaves through may go unrecorded, and even
  it leaves no second record. Assumed is that writing to the file succeeds and that nobody
  writes for the same subject meanwhile.\<close>

theorem every_chat_request_audited_once:
  assumes "others_write_nothing p (ae_chat env)" and "ce_audit_ok (ae_chat env)"
    and "rq_method rq = ''POST''" and "rq_path rq = ''/v1/chat/completions''" and "snd (app_auth cfg env rq st) = Some p"
    and "app_exchange cfg env fw rq st = (tr, out, statuses, f, st')"
  shows "(f = None \<longrightarrow> (\<exists>s r. statuses = [s] \<and> own_records p (ap_gateway st') = own_records p (ap_gateway st) @ [r] \<and>
            au_keyid r = pr_keyid p \<and>
            (if 400 \<le> s then au_status r = s \<and> au_reason r \<noteq> None \<and> \<not> au_streamed r
             else s = 200 \<and> au_status r < 400 \<and> (\<exists>resp. replica_answered tr resp \<and> au_status r = rs_status resp) \<and>
               (au_reason r = None \<or> au_streamed r \<and> au_reason r = Some ''upstream_stream_broken'')))) \<and>
     (\<exists>l. length l \<le> 1 \<and> own_records p (ap_gateway st') = own_records p (ap_gateway st) @ l)"
proof -
  obtain tr1 ans st1 where a: "serve_app cfg env rq st = (tr1, ans, st1)" by (metis prod_cases3)
  obtain h where h: "ans = App_chat (Served h)"
    and c: "chat_completions cfg (ae_chat env) p (rq_body rq) (ap_gateway st) = (tr1, h, ap_gateway st1)"
    using serve_app_cases [OF a] assms(5) a
    by (auto simp: serve_app_def app_auth_def assms(3,4) ROUTES_def serve_chat_def
        split: option.splits sum.splits prod.splits auth_failure.splits)
  note m = chat_matches [OF assms(1,2) c]
  show ?thesis
  proof (cases h)
    case (Event_stream u resp)
    from stream_has_context [OF c [unfolded Event_stream]] obtain model rk where
      v: "stream_context cfg (ae_chat env) p (rq_body rq) (ap_gateway st) = Some (model, rk)" by blast
    obtain out1 f1 g where r: "relay cfg (ae_chat env) p model rk u resp (ap_gateway st1) = (out1, f1, g)" by (metis prod_cases3)
    have x: "statuses = [200]" "f = f1" "ap_gateway st' = g"
      using assms(5,6) a h v r Event_stream by (auto simp: app_exchange_def sent_of_def)
    have st: "replica_answered tr resp" "rs_status resp < 400" "own_records p (ap_gateway st1) = own_records p (ap_gateway st)"
      using m Event_stream assms(5,6) a h v r by (simp_all add: audit_matches_def app_exchange_def split: prod.splits)
    show ?thesis using relay_records [OF assms(1,2) r] x st
      by (auto simp: audited_def stream_reasons_def)
  next
    case (Http_error s d hs)
    then have "statuses = [s]" "f = None" "st' = st1" using assms(6) a h by (auto simp: app_exchange_def sent_of_def)
    then show ?thesis using m Http_error by (auto simp: audit_matches_def audited_def)
  next
    case (Json_response v)
    then have "st' = st1" "tr = tr1" "f = None \<longrightarrow> statuses = [200]"
      using assms(6) a h by (auto simp: app_exchange_def sent_of_def rendered_def split: option.splits)
    then show ?thesis using m Json_response by (auto simp: audit_matches_def audited_def)
  next
    case (Failed x)
    then have "f = Some x" "st' = st1" using assms(6) a h by (auto simp: app_exchange_def sent_of_def)
    then show ?thesis using m Failed by (auto simp: audit_matches_def intro: exI [of _ "[]"])
  qed
qed

theorem every_chat_request_audited_once_witness:
  "\<exists>tr out st' r. app_exchange default_settings demo_app_env demo_framework demo_rq demo_app = (tr, out, [200], None, st') \<and>
     own_records (key_principal (snd demo_key)) (ap_gateway st') = [r] \<and> au_status r < 400"
proof -
  let ?p = "key_principal (snd demo_key)"
  have "ap_gateway demo_app = demo_gateway\<lparr>cs_metrics := cs_metrics demo_gateway\<rparr>" by (simp add: demo_app_def)
  from demo_exchange [OF this refl] obtain tr st1 where
    x: "app_exchange default_settings demo_app_env demo_framework demo_rq demo_app = (tr, [], [200], None, st1)"
    and p: "snd (app_auth default_settings demo_app_env demo_rq demo_app) = Some ?p" by blast
  have "others_write_nothing ?p (ae_chat demo_app_env)" "ce_audit_ok (ae_chat demo_app_env)"
    by (simp_all add: others_write_nothing_def env_keeps_def demo_app_env_def quiet_env_def still_net_keeps)
  from every_chat_request_audited_once [OF this _ _ p x] obtain r where
    "own_records ?p (ap_gateway st1) = own_records ?p (ap_gateway demo_app) @ [r]" "au_status r < 400"
    by (auto simp: demo_rq_def)
  moreover have "own_records ?p (ap_gateway demo_app) = []" by (simp add: own_records_def demo_app_def demo_gateway_def)
  ultimately show ?thesis using x by auto
qed

text \<open>A refused credential is not audited at all: nothing tells an unknown key from a revoked one
  afterwards, although \<open>verify\<close> leaves that to the audit log.\<close>

theorem refused_credential_leaves_no_record:
  assumes "serve_app cfg env rq st = (tr, App_chat (Unauthenticated status d hs), st')"
  shows "gw_audit (ap_gateway st') = gw_audit (ap_gateway st)"
  using serve_app_cases [OF assms] by auto

end
