(* ===== verification/Ledger_Laws.thy ===== *)
theory Ledger_Laws
  imports Served_App
begin

section \<open>The application implements the slot ledger (gateway/routes/chat.py over gateway/quota.py)\<close>

text \<open>
  The abstract specification is the ledger of Quota: admissions, refusals and finishes of the
  requests of keys with both limits. A request to the application, answered at once or streamed,
  is one admission and at most one finish; what the other requests do while it waits is assumed
  to be ledger steps that leave its own entry alone (the rely), and its own steps are such steps
  (the guarantee).
\<close>

definition on_ledger :: "(string \<Rightarrow> int) \<Rightarrow> (string \<Rightarrow> int) \<Rightarrow> int \<Rightarrow> gateway \<Rightarrow> bool" where
  "on_ledger budget cap most st \<longleftrightarrow> (\<exists>live. quota_reachable budget cap most \<lparr>qs_quota = gw_quota st, qs_live = live\<rparr>)"

text \<open>The same while a request of the key \<open>k\<close> is live.\<close>

definition holding :: "(string \<Rightarrow> int) \<Rightarrow> (string \<Rightarrow> int) \<Rightarrow> int \<Rightarrow> string option \<Rightarrow> gateway \<Rightarrow> bool" where
  "holding budget cap most rk st \<longleftrightarrow>
     (\<exists>live. quota_reachable budget cap most \<lparr>qs_quota = gw_quota st, qs_live = live\<rparr> \<and> set_option rk \<subseteq> set live)"

definition limited :: "(string \<Rightarrow> int) \<Rightarrow> (string \<Rightarrow> int) \<Rightarrow> principal \<Rightarrow> bool" where
  "limited budget cap p \<longleftrightarrow>
     (case pr_keyid p of
        None \<Rightarrow> True
      | Some k \<Rightarrow> pr_token_budget p = Some (budget k) \<and> pr_max_concurrency p = Some (cap k))"

text \<open>What a stream is charged, and that no answer of a replica costs more than \<open>most\<close>.\<close>

definition stream_cost :: "response \<Rightarrow> int" where
  "stream_cost resp = (case scan_all (rs_chunks resp) of Scanning b u \<Rightarrow> usage_cost u | Frame_raised x u \<Rightarrow> usage_cost u)"

definition answers_cost_at_most :: "int \<Rightarrow> chat_env \<Rightarrow> bool" where
  "answers_cost_at_most most env \<longleftrightarrow>
     (\<forall>a url body stream st resp. fst (net_send (ce_net env) a url body stream st) = Answer resp \<longrightarrow>
        answer_cost resp \<le> most \<and> stream_cost resp \<le> most)"

lemma holding_on_ledger: "holding budget cap most rk st \<Longrightarrow> on_ledger budget cap most st"
  by (auto simp: holding_def on_ledger_def)

lemma holding_quota: "gw_quota st' = gw_quota st \<Longrightarrow> holding budget cap most rk st' = holding budget cap most rk st"
  by (simp add: holding_def)

lemma on_ledger_quota: "gw_quota st' = gw_quota st \<Longrightarrow> on_ledger budget cap most st' = on_ledger budget cap most st"
  by (simp add: on_ledger_def)

text \<open>The rely is what the ledger's own steps do: an admission of any key, and a finish that leaves
  an entry of \<open>k\<close>, keep a request of \<open>k\<close> live.\<close>

lemma ledger_steps_keep_holding:
  assumes "quota_step budget cap most s t" and "quota_reachable budget cap most s" and "k \<in> set (qs_live t)"
    and "gw_quota st = qs_quota t"
  shows "holding budget cap most (Some k) st"
proof -
  have "quota_reachable budget cap most t" using assms(1,2) by (rule quota_reachable.step [rotated])
  then show ?thesis using assms(3,4) by (cases t) (auto simp: holding_def)
qed

lemma gate_holds:
  assumes "limited budget cap p" and "on_ledger budget cap most st" and "quota_gate p (gw_quota st) = Inr (rk, q)"
  shows "rk = pr_keyid p \<and> holding budget cap most rk (st\<lparr>gw_quota := q\<rparr>)"
proof (cases "pr_keyid p")
  case None
  then show ?thesis using assms(2,3) by (simp add: quota_gate_def on_ledger_def holding_def)
next
  case (Some k)
  then have l: "pr_token_budget p = Some (budget k)" "pr_max_concurrency p = Some (cap k)"
    using assms(1) by (simp_all add: limited_def)
  then have a: "rk = Some k" "quota_admit (gw_quota st) k (budget k) (cap k) = Inr q"
    using assms(3) Some by (auto simp: quota_gate_def quota_admit_def bindE_Inr)
  obtain live where "quota_reachable budget cap most \<lparr>qs_quota = gw_quota st, qs_live = live\<rparr>"
    using assms(2) by (auto simp: on_ledger_def)
  moreover have "quota_step budget cap most \<lparr>qs_quota = gw_quota st, qs_live = live\<rparr> \<lparr>qs_quota = q, qs_live = k # live\<rparr>"
    using quota_step.admit [of "\<lparr>qs_quota = gw_quota st, qs_live = live\<rparr>" k budget cap q] a by simp
  ultimately have "quota_reachable budget cap most \<lparr>qs_quota = q, qs_live = k # live\<rparr>" by (rule quota_reachable.step)
  then show ?thesis using a Some unfolding holding_def by (intro conjI exI [of _ "k # live"]) simp_all
qed

lemma finish_on_ledger:
  assumes "holding budget cap most rk st" and "n \<le> most"
    and "gw_quota st' = (case rk of None \<Rightarrow> gw_quota st | Some k \<Rightarrow> quota_finish (gw_quota st) k n)"
  shows "on_ledger budget cap most st'"
proof (cases rk)
  case None
  then show ?thesis using assms(1,3) by (auto simp: holding_def on_ledger_def)
next
  case (Some k)
  then obtain live where r: "quota_reachable budget cap most \<lparr>qs_quota = gw_quota st, qs_live = live\<rparr>" and k: "k \<in> set live"
    using assms(1) by (auto simp: holding_def)
  then have "quota_step budget cap most \<lparr>qs_quota = gw_quota st, qs_live = live\<rparr> \<lparr>qs_quota = gw_quota st', qs_live = remove1 k live\<rparr>"
    using quota_step.finish [of k "\<lparr>qs_quota = gw_quota st, qs_live = live\<rparr>" n] assms(2,3) Some by simp
  with r show ?thesis unfolding on_ledger_def by (blast intro: quota_reachable.step)
qed

lemma release_on_ledger:
  assumes "holding budget cap most rk st" and "0 \<le> most"
  shows "on_ledger budget cap most (release_slot rk st)"
  using assms(1)
  by (rule finish_on_ledger [OF _ assms(2)]) (simp add: release_slot_def quota_finish_def split: option.split)

lemma charge_without_key: "charge_usage cfg model usage None st = (e, st') \<Longrightarrow> gw_quota st' = gw_quota st"
  by (auto simp: charge_usage_def Let_def split: sum.splits if_splits dest!: count_kind_counted)

lemma charge_on_ledger:
  assumes "holding budget cap most (pr_keyid p) st" and "usage_cost usage \<le> most" and "0 \<le> most"
    and "charge_usage cfg model usage (pr_keyid p) (release_slot (pr_keyid p) st) = (e, st')"
  shows "on_ledger budget cap most st'"
proof (cases "pr_keyid p")
  case None
  then have "gw_quota st' = gw_quota st"
    using charge_without_key assms(4) by (simp add: release_slot_def)
  then show ?thesis using holding_on_ledger [OF assms(1)] on_ledger_quota by blast
next
  case (Some k)
  let ?n = "if e = None then usage_cost usage else 0"
  have "gw_quota st' = quota_finish (gw_quota st) k ?n"
    using charge_usage_quota [of cfg model usage k "release_slot (Some k) st" e st'] assms(4) Some
    by (simp add: quota_finish_def release_slot_def)
  with Some assms(2,3) show ?thesis by (intro finish_on_ledger [OF assms(1), of ?n]) simp_all
qed

subsection \<open>The handler\<close>

lemma retry_loop_answer:
  assumes "retry_loop cfg net path body stream a exclude st = (tr, Inr (u, resp), st')"
  shows "\<exists>b url s. fst (net_send net b url body stream s) = Answer resp"
  using assms
proof (induction "MAX_ATTEMPTS - a" arbitrary: a exclude st tr rule: less_induct)
  case less
  have sent: "\<exists>b url s. fst (net_send net b url body stream s) = Answer r"
    if "send_and_record net b v url body stream s = (Inr (Answer r), s')" for b v url s s' r
    using that by (auto simp: send_and_record_def Let_def split: sum.splits prod.splits http_outcome.splits option.splits)
      (metis fst_conv)
  have again: "\<exists>b url s. fst (net_send net b url body live s) = Answer resp"
    if "retry_loop cfg net path body live (Suc a) ex s = (x, Inr (u, resp), st')" "live = stream" "\<not> MAX_ATTEMPTS \<le> Suc a" for live ex s x
    using less.hyps [of "Suc a" ex s x] that by simp
  from less.prems [unfolded retry_loop.simps [of cfg net path body stream a exclude st]] show ?case
    by (auto simp: Let_def split: prod.splits sum.splits http_outcome.splits option.splits if_splits
        dest: sent again)
qed

lemma with_retry_answer:
  assumes "answers_cost_at_most most env" and "with_retry cfg (ce_net env) path body stream st = (tr, Inr (u, resp), st')"
  shows "answer_cost resp \<le> most \<and> stream_cost resp \<le> most"
  using assms retry_loop_answer unfolding with_retry_def answers_cost_at_most_def by metis

lemma holding_with_retry:
  assumes "env_keeps (holding budget cap most rk) env" and "holding budget cap most rk st"
    and "with_retry cfg (ce_net env) path body stream st = (tr, r, st')"
  shows "holding budget cap most rk st'"
proof -
  have "client_keeps cfg (holding budget cap most rk)"
    by (simp add: client_keeps_def count_upstream_def holding_def Let_def)
  from with_retry_keeps [OF _ this assms(2), of "ce_net env" path body stream] assms(1,3) show ?thesis
    by (simp add: env_keeps_def)
qed

lemma reject_quota:
  "reject env s re p model hs st = (h, st') \<Longrightarrow> gw_quota st' = gw_quota st \<and> (\<forall>u r. h \<noteq> Event_stream u r)"
  by (auto simp: reject_def write_audit_def Let_def)

lemma answer_on_ledger:
  assumes "holding budget cap most (pr_keyid p) st" and "answer_cost resp \<le> most"
    and "answer_complete cfg env p model u resp (release_slot (pr_keyid p) st) = (h, st')"
  shows "on_ledger budget cap most st'"
proof (cases "pr_keyid p")
  case None
  have "gw_quota st' = gw_quota st"
    using assms(3) None
    by (auto simp: answer_complete_def release_slot_def Let_def dest: charge_without_key reject_quota
        split: if_splits option.splits json.splits prod.splits)
  then show ?thesis using holding_on_ledger [OF assms(1)] on_ledger_quota by blast
next
  case (Some k)
  from answer_complete_quota [OF Some, of cfg env model u resp "release_slot (Some k) st"] assms(3) Some
  obtain n where "gw_quota st' = quota_finish (gw_quota st) k n" "n \<le> answer_cost resp"
    by (auto simp: quota_finish_def release_slot_def)
  with Some assms(2) show ?thesis by (intro finish_on_ledger [OF assms(1), of n]) simp_all
qed

text \<open>A stream is handed over with the slot still held; every other answer leaves a finished request.\<close>

definition ledger_after :: "(string \<Rightarrow> int) \<Rightarrow> (string \<Rightarrow> int) \<Rightarrow> int \<Rightarrow> principal \<Rightarrow> chat_response \<Rightarrow> gateway \<Rightarrow> bool" where
  "ledger_after budget cap most p h st \<longleftrightarrow>
     (case h of
        Event_stream u resp \<Rightarrow> holding budget cap most (pr_keyid p) st \<and> stream_cost resp \<le> most
      | _ \<Rightarrow> on_ledger budget cap most st)"

lemma answer_complete_no_stream: "answer_complete cfg env p model u resp st = (h, st') \<Longrightarrow> \<forall>v r. h \<noteq> Event_stream v r"
  by (auto simp: answer_complete_def Let_def dest: reject_quota split: if_splits option.splits json.splits prod.splits)

lemma upstream_failure_quota: "upstream_failure env p model e st = (h, st') \<Longrightarrow> gw_quota st' = gw_quota st \<and> (\<forall>u r. h \<noteq> Event_stream u r)"
  using slots_upstream_failure [of env p model e st]
  by (auto simp: upstream_failure_def reject_def Let_def split: send_failure.splits sum.splits)

lemma drain_holding:
  assumes "env_keeps (holding budget cap most rk) env" and "holding budget cap most rk st" and "drain_error env resp st = (e, st')"
  shows "holding budget cap most rk st'"
proof -
  obtain ce st1 where c: "ce_close env st = (ce, st1)" by fastforce
  then have "holding budget cap most rk st1" using assms(1,2) unfolding env_keeps_def by (metis snd_conv)
  then show ?thesis using assms(3) c by (auto simp: drain_error_def Let_def split: prod.splits)
qed

lemma stream_open_ledger:
  assumes "env_keeps (holding budget cap most rk) env" and "answers_cost_at_most most env"
    and "holding budget cap most rk st" and "stream_open cfg env p model body st = (tr, r, st')"
  shows "holding budget cap most rk st' \<and> (\<forall>u resp. r = Inr (Event_stream u resp) \<longrightarrow> stream_cost resp \<le> most)"
proof -
  obtain tr1 r1 st1 where w: "open_stream cfg (ce_net env) ''/chat/completions'' (JObj (stream_body body)) st = (tr1, r1, st1)"
    by (metis prod_cases3)
  have h: "holding budget cap most rk st1" using holding_with_retry [OF assms(1,3) w] .
  have rj: "holding budget cap most rk st2 \<and> (\<forall>u resp. h' \<noteq> Event_stream u resp)"
    if "drain_error env resp st1 = (e, st3)" "reject env s re p model hs st3 = (h', st2)" for resp e st3 s re hs h' st2
  proof -
    have q: "gw_quota st2 = gw_quota st3" and "\<forall>u resp. h' \<noteq> Event_stream u resp" using reject_quota [OF that(2)] by simp_all
    with drain_holding [OF assms(1) h that(1)] show ?thesis by (simp add: holding_quota [OF q])
  qed
  show ?thesis
  proof (cases r1)
    case (Inl e)
    then show ?thesis using assms(4) w h by (auto simp: stream_open_def)
  next
    case (Inr ur)
    obtain u resp where ur: "ur = (u, resp)" by fastforce
    have c: "stream_cost resp \<le> most" using with_retry_answer [OF assms(2)] w Inr ur by blast
    then show ?thesis using assms(4) w h Inr ur
      by (auto simp: stream_open_def split: if_splits prod.splits option.splits dest: drain_holding [OF assms(1) h] rj)
  qed
qed

lemma forward_ledger:
  assumes "env_keeps (holding budget cap most (pr_keyid p)) env" and "answers_cost_at_most most env" and "0 \<le> most"
    and "holding budget cap most (pr_keyid p) st"
    and "chat_forward cfg env p model body streaming (pr_keyid p) st = (tr, h, st')"
  shows "ledger_after budget cap most p h st'"
proof (cases streaming)
  case True
  obtain tr1 r1 st1 where w: "stream_open cfg env p model body st = (tr1, r1, st1)" by (metis prod_cases3)
  note s = stream_open_ledger [OF assms(1,2,4) w]
  then have rel: "on_ledger budget cap most (release_slot (pr_keyid p) st1)" using release_on_ledger assms(3) by blast
  show ?thesis
  proof (cases r1)
    case (Inl e)
    obtain st2 where st2: "stream_start cfg env p model (pr_keyid p) body st = (tr1, r1, st2)" "on_ledger budget cap most st2"
      using w rel holding_on_ledger s by (auto simp: stream_start_def Let_def)
    obtain h' st3 where u: "upstream_failure env p model e st2 = (h', st3)" by fastforce
    have "on_ledger budget cap most st3" using on_ledger_quota upstream_failure_quota [OF u] st2(2) by blast
    then show ?thesis using assms(5) True st2(1) Inl u upstream_failure_quota [OF u]
      by (auto simp: chat_forward_def ledger_after_def split: chat_response.split)
  next
    case (Inr h')
    then show ?thesis using assms(5) True w rel s holding_on_ledger
      by (auto simp: chat_forward_def stream_start_def ledger_after_def Let_def split: chat_response.splits)
  qed
next
  case False
  obtain tr1 r1 st1 where w: "request cfg (ce_net env) ''/chat/completions'' (JObj body) st = (tr1, r1, st1)" by (metis prod_cases3)
  have h: "holding budget cap most (pr_keyid p) st1" using holding_with_retry [OF assms(1,4) w] .
  show ?thesis
  proof (cases r1)
    case (Inl e)
    obtain h' st3 where u: "upstream_failure env p model e st1 = (h', st3)" by fastforce
    have "on_ledger budget cap most (release_slot (pr_keyid p) st3)"
      using upstream_failure_quota [OF u] holding_quota h release_on_ledger assms(3) by blast
    then show ?thesis using assms(5) False w Inl u upstream_failure_quota [OF u]
      by (auto simp: chat_forward_def ledger_after_def split: chat_response.split)
  next
    case (Inr ur)
    obtain u resp where ur: "ur = (u, resp)" by fastforce
    obtain h' st3 where a: "answer_complete cfg env p model u resp (release_slot (pr_keyid p) st1) = (h', st3)" by fastforce
    have "on_ledger budget cap most st3"
      using answer_on_ledger [OF h _ a] with_retry_answer [OF assms(2)] w Inr ur by blast
    moreover have "\<forall>u r. h' \<noteq> Event_stream u r" using answer_complete_no_stream [OF a] .
    ultimately show ?thesis using assms(5) False w Inr ur a
      by (auto simp: chat_forward_def ledger_after_def split: chat_response.split)
  qed
qed

lemma chat_ledger:
  assumes "env_keeps (holding budget cap most (pr_keyid p)) env" and "answers_cost_at_most most env" and "0 \<le> most"
    and "limited budget cap p" and "on_ledger budget cap most st" and "chat_completions cfg env p raw st = (tr, h, st')"
  shows "ledger_after budget cap most p h st'"
proof -
  have same: "ledger_after budget cap most p h st'" if "gw_quota st' = gw_quota st" "\<forall>u r. h \<noteq> Event_stream u r"
    using assms(5) on_ledger_quota [OF that(1)] that(2) by (simp add: ledger_after_def split: chat_response.split)
  show ?thesis
  proof (cases "\<exists>model body streaming rk q. chat_validate cfg (ce_repr env) p raw = Inr (model, body, streaming) \<and>
      quota_gate p (gw_quota st) = Inr (rk, q)")
    case True
    then obtain model body streaming rk q where v: "chat_validate cfg (ce_repr env) p raw = Inr (model, body, streaming)"
      "quota_gate p (gw_quota st) = Inr (rk, q)" by blast
    from gate_holds [OF assms(4,5) v(2)] have g: "rk = pr_keyid p" "holding budget cap most (pr_keyid p) (st\<lparr>gw_quota := q\<rparr>)" by auto
    show ?thesis
      by (rule forward_ledger [OF assms(1-3) g(2)]) (use assms(6) v g(1) in \<open>simp add: chat_completions_def\<close>)
  next
    case False
    then have "gw_quota st' = gw_quota st \<and> (\<forall>u r. h \<noteq> Event_stream u r)"
      using assms(6) by (auto simp: chat_completions_def split: sum.splits refusal.splits prod.splits dest: reject_quota)
    then show ?thesis using same by blast
  qed
qed

subsection \<open>The relay and the exchange\<close>

lemma relay_loop_holding:
  "env_keeps (holding budget cap most rk) env \<Longrightarrow> holding budget cap most rk st \<Longrightarrow>
   relay_loop cfg env model ending i first buf usage chunks st = (out, u, e, st') \<Longrightarrow> holding budget cap most rk st'"
proof (induction chunks arbitrary: i first buf usage st out)
  case Nil
  then show ?case by (auto simp: env_keeps_def)
next
  case (Cons chunk chunks)
  define st1 where "st1 = (if first \<and> chunk \<noteq> [] then observe_ttft cfg env model (ce_chunk env i st) else ce_chunk env i st)"
  have "holding budget cap most rk (ce_chunk env i st)" using Cons.prems(1,2) by (simp add: env_keeps_def)
  then have "holding budget cap most rk st1" by (simp add: st1_def holding_def observe_ttft_def)
  with Cons.prems(3) Cons.IH [OF Cons.prems(1) this] show ?case
    by (auto simp: st1_def [symmetric] Let_def split: scan_state.splits prod.splits)
qed

lemma relay_loop_cost:
  assumes "relay_loop cfg env model ending 0 True [] [] (rs_chunks resp) st = (out, usage, e, st')"
  shows "usage_cost usage = stream_cost resp"
  using relay_loop_outcome [OF assms] unfolding stream_cost_def scan_all_def by (auto split: scan_state.splits)

lemma relay_ledger:
  assumes "env_keeps (holding budget cap most (pr_keyid p)) env" and "0 \<le> most" and "stream_cost resp \<le> most"
    and "holding budget cap most (pr_keyid p) st"
    and "relay cfg env p model (pr_keyid p) u resp st = (out, f, st')"
  shows "on_ledger budget cap most st'"
proof -
  obtain out1 usage e st1 where l: "relay_loop cfg env model (rs_end resp) 0 True [] [] (rs_chunks resp) st = (out1, usage, e, st1)"
    by (metis prod_cases4)
  define broken where "broken \<longleftrightarrow> (case e of None \<Rightarrow> False | Some x \<Rightarrow> is_Exception x)"
  define st2 where "st2 = (if broken
      then st1\<lparr>cs_metrics := record_rejection ''upstream_stream_broken'' (cs_metrics st1)\<rparr> else st1)"
  have "holding budget cap most (pr_keyid p) st2"
    using relay_loop_holding [OF assms(1,4) l] by (simp add: st2_def holding_def)
  moreover obtain ce st3 where c: "ce_close env st2 = (ce, st3)" by fastforce
  ultimately have h: "holding budget cap most (pr_keyid p) st3" using assms(1) unfolding env_keeps_def by (metis snd_conv)
  obtain ue st4 where ch: "charge_usage cfg model usage (pr_keyid p) (release_slot (pr_keyid p) st3) = (ue, st4)" by fastforce
  have "on_ledger budget cap most st4"
    using charge_on_ledger [OF h _ assms(2) ch] relay_loop_cost [OF l] assms(3) by simp
  moreover have "gw_quota st' = gw_quota st3 \<or> gw_quota st' = gw_quota st4"
    using assms(5) l c ch
    by (auto simp: relay_def broken_def [symmetric] st2_def write_audit_def Let_def split: if_splits option.splits)
  ultimately show ?thesis using holding_on_ledger [OF h] on_ledger_quota by blast
qed

lemma stream_context_key:
  assumes "stream_context cfg env p raw st = Some (model, rk)" and "limited budget cap p" and "on_ledger budget cap most st"
  shows "rk = pr_keyid p"
  using assms gate_holds [OF assms(2,3)] by (auto simp: stream_context_def split: sum.splits prod.splits)

text \<open>C6. The whole application refines the slot ledger: for a caller without a key, or whose key has both
  limits, any request at any route - refused, failed, answered, streamed to its end, cancelled or
  crashed - takes a gateway whose quotas are a reachable state of the ledger to one whose quotas
  are, provided that no answer costs more than \<open>most\<close> and that the others, while the request
  holds its slot, take ledger steps that leave it its entry. So what is proved of the ledger
  holds of the served application: no key is ever beyond its cap, and none is charged more than
  its budget and what its concurrent requests cost.\<close>

theorem application_refines_ledger:
  assumes "\<And>p. snd (app_auth cfg env rq st) = Some p \<Longrightarrow>
      limited budget cap p \<and> env_keeps (holding budget cap most (pr_keyid p)) (ae_chat env)"
    and "answers_cost_at_most most (ae_chat env)" and "0 \<le> most"
    and "on_ledger budget cap most (ap_gateway st)"
    and "app_exchange cfg env fw rq st = (tr, out, statuses, f, st')"
  shows "on_ledger budget cap most (ap_gateway st') \<and>
     (\<forall>k. inflight (gw_quota (ap_gateway st')) k \<le> max 0 (cap k) \<and>
        (1 \<le> budget k \<and> 0 \<le> cap k \<longrightarrow> tokens_used (gw_quota (ap_gateway st')) k \<le> budget k - 1 + cap k * most))"
proof -
  obtain tr1 ans st1 where a: "serve_app cfg env rq st = (tr1, ans, st1)" by (metis prod_cases3)
  have "on_ledger budget cap most (ap_gateway st')"
    using serve_app_cases [OF a]
  proof (elim disjE exE conjE)
    assume "ap_gateway st1 = ap_gateway st" and "\<forall>h. ans \<noteq> App_chat (Served h)"
    with assms(4,5) a show ?thesis by (auto simp: app_exchange_def split: app_answer.splits served.splits prod.splits)
  next
    fix p h
    assume p: "snd (app_auth cfg env rq st) = Some p" and h: "ans = App_chat (Served h)"
      and c: "chat_completions cfg (ae_chat env) p (rq_body rq) (ap_gateway st) = (tr1, h, ap_gateway st1)"
    from assms(1) [OF p] have l: "limited budget cap p" and k: "env_keeps (holding budget cap most (pr_keyid p)) (ae_chat env)" by simp_all
    note after = chat_ledger [OF k assms(2,3) l assms(4) c]
    show ?thesis
    proof (cases "\<exists>u resp. h = Event_stream u resp")
      case True
      then obtain u resp where e: "h = Event_stream u resp" by blast
      from stream_has_context [OF c [unfolded e]] obtain model rk where
        v: "stream_context cfg (ae_chat env) p (rq_body rq) (ap_gateway st) = Some (model, rk)" by blast
      note rk = stream_context_key [OF v l assms(4)]
      obtain out1 f1 g where r: "relay cfg (ae_chat env) p model (pr_keyid p) u resp (ap_gateway st1) = (out1, f1, g)" by (metis prod_cases3)
      have "on_ledger budget cap most g"
        using after e by (intro relay_ledger [OF k assms(3) _ _ r]) (simp_all add: ledger_after_def)
      with assms(5) a p h e v r rk show ?thesis by (auto simp: app_exchange_def sent_of_def)
    next
      case False
      with assms(5) a h have "st' = st1" by (auto simp: app_exchange_def split: chat_response.splits prod.splits)
      with after False show ?thesis by (auto simp: ledger_after_def split: chat_response.splits)
    qed
  qed
  moreover from this obtain live where
    r: "quota_reachable budget cap most \<lparr>qs_quota = gw_quota (ap_gateway st'), qs_live = live\<rparr>" by (auto simp: on_ledger_def)
  note inv = quota_reachable_inv [OF r assms(3)]
  have "inflight (gw_quota (ap_gateway st')) k \<le> max 0 (cap k)" for k using quota_invD(3) [OF inv, of k] by simp
  moreover have "tokens_used (gw_quota (ap_gateway st')) k \<le> budget k - 1 + cap k * most" if "1 \<le> budget k" "0 \<le> cap k" for k
    using quota_reachable_budget [OF r assms(3) that] by simp
  ultimately show ?thesis by blast
qed

theorem application_refines_ledger_witness:
  "\<exists>tr out st'. app_exchange default_settings demo_app_env demo_framework demo_rq demo_app = (tr, out, [200], None, st') \<and>
     on_ledger (\<lambda>_. 9) (\<lambda>_. 2) 7 (ap_gateway st') \<and> tokens_used (gw_quota (ap_gateway st')) ''a1'' \<le> 22"
proof -
  let ?p = "key_principal (snd demo_key)" and ?on = "on_ledger (\<lambda>_. 9) (\<lambda>_. 2) 7"
  have "ap_gateway demo_app = demo_gateway\<lparr>cs_metrics := cs_metrics demo_gateway\<rparr>" by (simp add: demo_app_def)
  from demo_exchange [OF this refl] obtain tr st1 where
    x: "app_exchange default_settings demo_app_env demo_framework demo_rq demo_app = (tr, [], [200], None, st1)"
    and p: "snd (app_auth default_settings demo_app_env demo_rq demo_app) = Some ?p" by blast
  have "limited (\<lambda>_. 9) (\<lambda>_. 2) ?p" by (simp add: limited_def key_principal_def demo_key_simps)
  moreover have "env_keeps P (ae_chat demo_app_env)" for P
    by (simp add: env_keeps_def demo_app_env_def quiet_env_def still_net_keeps)
  moreover have "answers_cost_at_most 7 (ae_chat demo_app_env)"
  proof -
    have "scan_events [] [] = Scanning [] []" by (simp add: scan_events.simps)
    then have "stream_cost demo_response \<le> 7" "answer_cost demo_response = 7"
      by (simp_all add: stream_cost_def scan_all_concat answer_cost_def demo_response_def demo_answer_loads get_default_def
          usage_cost_def counted_def)
    then show ?thesis by (simp add: answers_cost_at_most_def demo_app_env_def quiet_env_def still_net_def)
  qed
  moreover have "?on (ap_gateway demo_app)"
    unfolding on_ledger_def by (intro exI [of _ "[]"]) (simp add: demo_app_def demo_gateway_def quota_reachable.start)
  ultimately have "?on (ap_gateway st1) \<and> (\<forall>k. inflight (gw_quota (ap_gateway st1)) k \<le> max 0 2 \<and>
      (1 \<le> (9 :: int) \<and> 0 \<le> (2 :: int) \<longrightarrow> tokens_used (gw_quota (ap_gateway st1)) k \<le> 9 - 1 + 2 * 7))"
    by (intro application_refines_ledger [OF _ _ _ _ x]) (auto simp: p)
  with x show ?thesis by auto
qed

end
