(* ===== verification/Content_Laws.thy ===== *)
theory Content_Laws
  imports Gateway
begin

section \<open>What the gateway keeps of a request's content\<close>

text \<open>
  Two runs of the chat endpoint whose requests say different things, against replicas that answer
  each in its own words, are related step by step: send, retry, handler, relay. The relation says what
  the gateway is allowed to read of an answer (status, Retry-After, token counts, the shape of a stream);
  everything it keeps is a function of that.
\<close>

subsection \<open>Answers that differ in their words only\<close>

text \<open>The two counts the gateway reads of a usage object.\<close>

definition token_fields :: "(string \<times> json) list \<Rightarrow> json option \<times> json option" where
  "token_fields usage = (dict_get usage ''prompt_tokens'', dict_get usage ''completion_tokens'')"

text \<open>What the handler reads of a complete body: that it is no JSON, no object or holds a usage that is
  none, or else the two counts.\<close>

datatype content_reading = Unreadable | Not_an_object | Usage_not_an_object | Counts "json option \<times> json option"

definition read_content :: "string \<Rightarrow> content_reading" where
  "read_content c =
     (case json_loads_bytes c of
        None \<Rightarrow> Unreadable
      | Some (JObj payload) \<Rightarrow>
          (case py_or (get_default payload ''usage'' JNull) (JObj []) of
             JObj usage \<Rightarrow> Counts (token_fields usage)
           | _ \<Rightarrow> Usage_not_an_object)
      | Some _ \<Rightarrow> Not_an_object)"

text \<open>Two streams chunk by chunk: empty chunks at the same places, frames that raise alike at the same
  places, and in the end the same counts. The buffers and the frames are their own.\<close>

fun chunks_alike ::
  "string \<Rightarrow> (string \<times> json) list \<Rightarrow> string list \<Rightarrow> string \<Rightarrow> (string \<times> json) list \<Rightarrow> string list \<Rightarrow> bool" where
  "chunks_alike b1 u1 [] b2 u2 [] \<longleftrightarrow> token_fields u1 = token_fields u2"
| "chunks_alike b1 u1 (c1 # cs1) b2 u2 (c2 # cs2) \<longleftrightarrow>
     (c1 = [] \<longleftrightarrow> c2 = []) \<and>
     (case (scan_events (b1 @ c1) u1, scan_events (b2 @ c2) u2) of
        (Scanning b1 u1, Scanning b2 u2) \<Rightarrow> chunks_alike b1 u1 cs1 b2 u2 cs2
      | (Frame_raised e1 u1, Frame_raised e2 u2) \<Rightarrow> e1 = e2 \<and> token_fields u1 = token_fields u2
      | _ \<Rightarrow> False)"
| "chunks_alike _ _ _ _ _ _ \<longleftrightarrow> False"

definition responses_alike :: "response \<Rightarrow> response \<Rightarrow> bool" where
  "responses_alike r1 r2 \<longleftrightarrow>
     rs_status r1 = rs_status r2 \<and> rs_headers r1 ''retry-after'' = rs_headers r2 ''retry-after'' \<and> rs_end r1 = rs_end r2 \<and>
     read_content (rs_content r1) = read_content (rs_content r2) \<and>
     drained_early 0 (rs_chunks r1) = drained_early 0 (rs_chunks r2) \<and>
     chunks_alike [] [] (rs_chunks r1) [] [] (rs_chunks r2)"

definition outcomes_alike :: "http_outcome \<Rightarrow> http_outcome \<Rightarrow> bool" where
  "outcomes_alike x1 x2 =
     (case (x1, x2) of
        (Answer r1, Answer r2) \<Rightarrow> responses_alike r1 r2
      | (Send_raised e1, Send_raised e2) \<Rightarrow> e1 = e2
      | _ \<Rightarrow> False)"

text \<open>A network that answers the bodies \<open>b1\<close> and \<open>b2\<close> alike, with the same effect on the other tasks.\<close>

definition answers_alike :: "'s net \<Rightarrow> json \<Rightarrow> json \<Rightarrow> bool" where
  "answers_alike net b1 b2 \<longleftrightarrow>
     (\<forall>a url stream st. outcomes_alike (fst (net_send net a url b1 stream st)) (fst (net_send net a url b2 stream st)) \<and>
        snd (net_send net a url b1 stream st) = snd (net_send net a url b2 stream st))"

lemma responses_alikeD:
  "responses_alike r1 r2 \<Longrightarrow> rs_status r1 = rs_status r2"
  by (simp_all add: responses_alike_def)

lemma outcomes_alike_cases [consumes 1, case_names answered raised]:
  assumes "outcomes_alike x1 x2"
  obtains r1 r2 where "x1 = Answer r1" "x2 = Answer r2" "responses_alike r1 r2"
  | e where "x1 = Send_raised e" "x2 = Send_raised e"
  using assms by (auto simp: outcomes_alike_def split: http_outcome.splits)

lemma outcomes_alike_raised [simp]: "outcomes_alike (Send_raised e) (Send_raised e)"
  by (simp add: outcomes_alike_def)

subsection \<open>One send, and the retry loop\<close>

lemma send_and_record_alike:
  assumes "answers_alike net b1 b2"
  shows "rel_sum (=) outcomes_alike (fst (send_and_record net a u url b1 stream st)) (fst (send_and_record net a u url b2 stream st)) \<and>
     snd (send_and_record net a u url b1 stream st) = snd (send_and_record net a u url b2 stream st)"
proof (cases "pool_client (cs_pool st)")
  case (Inl e)
  then show ?thesis by (auto simp: send_and_record_def split: option.split)
next
  case (Inr c)
  obtain x1 st1 x2 st2 where s: "net_send net a url b1 stream st = (x1, st1)" "net_send net a url b2 stream st = (x2, st2)"
    by fastforce
  with assms have "outcomes_alike x1 x2" and st: "st2 = st1" unfolding answers_alike_def by (metis fst_conv, metis snd_conv)
  then show ?thesis
    by (cases rule: outcomes_alike_cases)
      (auto simp: send_and_record_def Inr s outcomes_alike_def responses_alikeD split: option.split)
qed

text \<open>How two calls of the client end alike.\<close>

definition results_alike :: "send_failure + string \<times> response \<Rightarrow> send_failure + string \<times> response \<Rightarrow> bool" where
  "results_alike = rel_sum (=) (rel_prod (=) responses_alike)"

definition calls_alike :: "(send_failure + string \<times> response) \<times> 's \<Rightarrow> (send_failure + string \<times> response) \<times> 's \<Rightarrow> bool" where
  "calls_alike = rel_prod results_alike (=)"

lemma calls_alike_simps [simp]:
  "calls_alike (Inl e, st) (Inl e, st)"
  "calls_alike (Inr (u, r1), st) (Inr (u, r2), st) \<longleftrightarrow> responses_alike r1 r2"
  by (simp_all add: calls_alike_def results_alike_def)

lemma should_retry_alike: "responses_alike r1 r2 \<Longrightarrow> should_retry (Answer r1) = should_retry (Answer r2)"
  by (simp add: should_retry_def responses_alike_def)

lemma retry_delay_alike: "responses_alike r1 r2 \<Longrightarrow> retry_delay x a (Some r1) = retry_delay x a (Some r2)"
  by (simp add: retry_delay_def responses_alike_def)

lemma retry_loop_alike:
  assumes "answers_alike net b1 b2"
  shows "calls_alike (snd (retry_loop cfg net path b1 stream a exclude st)) (snd (retry_loop cfg net path b2 stream a exclude st))"
proof (induction "MAX_ATTEMPTS - a" arbitrary: a exclude st rule: less_induct)
  case less
  note unfold = retry_loop.simps [of cfg net path b1 stream a exclude st]
    retry_loop.simps [of cfg net path b2 stream a exclude st]
  obtain picked p where pk: "pick cfg exclude (net_pick_time net a) (cs_pool st) = (picked, p)" by fastforce
  show ?case
  proof (cases picked)
    case (Inl wait)
    then show ?thesis unfolding unfold pk by simp
  next
    case (Inr u)
    let ?send = "\<lambda>b. send_and_record net a u (py_rstrip CHR ''/'' u @ path) b stream (st\<lparr>cs_pool := p\<rparr>)"
    obtain r1 st1 r2 where s: "?send b1 = (r1, st1)" "?send b2 = (r2, st1)" and r: "rel_sum (=) outcomes_alike r1 r2"
      using send_and_record_alike [OF assms, of a u "py_rstrip CHR ''/'' u @ path" stream "st\<lparr>cs_pool := p\<rparr>"]
      by (metis prod.collapse)
    have more: "a + 1 < MAX_ATTEMPTS \<Longrightarrow>
        calls_alike (snd (retry_loop cfg net path b1 stream (Suc a) (Some u) st3)) (snd (retry_loop cfg net path b2 stream (Suc a) (Some u) st3))"
      for st3 by (intro less.hyps) simp
    from r show ?thesis
    proof cases
      case (1 e e')
      then show ?thesis unfolding unfold pk Inr by (simp add: s)
    next
      case (2 x1 x2)
      from 2(3) show ?thesis
      proof (cases rule: outcomes_alike_cases)
        case (raised e)
        obtain se st3 where se: "net_sleep net a (retry_delay (net_random net a) a None) st1 = (se, st3)" by fastforce
        show ?thesis using more [of st3] unfolding unfold pk Inr
          by (cases se) (auto simp: s 2 raised se Let_def split_beta)
      next
        case (answered p1 p2)
        note al = answered(3)
        obtain ce st2 where ce: "(if stream then net_close net a st1 else (None, st1)) = (ce, st2)" by fastforce
        obtain se st3 where se: "net_sleep net a (retry_delay (net_random net a) a (Some p2)) st2 = (se, st3)" by fastforce
        note eqs = 2 answered(1,2) se Let_def split_beta responses_alikeD [OF al] should_retry_alike [OF al]
          retry_delay_alike [OF al]
        show ?thesis
        proof (cases stream)
          case S: True
          then show ?thesis using more [of st3] al ce unfolding unfold pk Inr
            by (cases ce; cases se) (auto simp: s [simplified S] eqs)
        next
          case S: False
          then show ?thesis using more [of st3] al ce unfolding unfold pk Inr
            by (cases se) (auto simp: s [simplified S] eqs)
        qed
      qed
    qed
  qed
qed

lemma with_retry_alike:
  "answers_alike net b1 b2 \<Longrightarrow> calls_alike (snd (with_retry cfg net path b1 stream st)) (snd (with_retry cfg net path b2 stream st))"
  unfolding with_retry_def by (rule retry_loop_alike)

subsection \<open>The handler\<close>

text \<open>Two answers of the handler: the text of a complete answer and the bytes of a stream are their own,
  the rest is the same.\<close>

definition answers_match :: "chat_response \<Rightarrow> chat_response \<Rightarrow> bool" where
  "answers_match h1 h2 =
     (case (h1, h2) of
        (Json_response v1, Json_response v2) \<Rightarrow> True
      | (Event_stream u1 r1, Event_stream u2 r2) \<Rightarrow> u1 = u2 \<and> responses_alike r1 r2
      | _ \<Rightarrow> h1 = h2)"

definition handled_alike :: "chat_response \<times> 's \<Rightarrow> chat_response \<times> 's \<Rightarrow> bool" where
  "handled_alike = rel_prod answers_match (=)"

lemma chunks_alike_refl: "chunks_alike b u cs b u cs"
  by (induction cs arbitrary: b u) (auto split: scan_state.split)

lemma responses_alike_refl [simp]: "responses_alike r r"
  by (simp add: responses_alike_def chunks_alike_refl)

lemma answers_match_refl [simp]: "answers_match h h"
  by (simp add: answers_match_def split: chat_response.split)

lemma handled_alike_simps [simp]:
  "handled_alike x x" "handled_alike (h1, st1) (h2, st2) \<longleftrightarrow> answers_match h1 h2 \<and> st1 = st2"
  by (cases x) (simp_all add: handled_alike_def)

lemma calls_alikeE:
  assumes "calls_alike x y"
  obtains (failed) e st where "x = (Inl e, st)" "y = (Inl e, st)"
  | (answered) u r1 r2 st where "x = (Inr (u, r1), st)" "y = (Inr (u, r2), st)" "responses_alike r1 r2"
  using assms by (cases x; cases y) (auto simp: calls_alike_def results_alike_def elim!: rel_sum.cases)

lemma charge_usage_fields:
  "token_fields u1 = token_fields u2 \<Longrightarrow> charge_usage cfg model u1 k st = charge_usage cfg model u2 k st"
  by (simp add: charge_usage_def token_fields_def get_default_def)

lemma answer_complete_alike:
  assumes "responses_alike r1 r2"
  shows "handled_alike (answer_complete cfg env p model u r1 st) (answer_complete cfg env p model u r2 st)"
proof (cases "rs_status r2 < 400")
  case False
  then have "answer_complete cfg env p model u r1 st = answer_complete cfg env p model u r2 st"
    unfolding answer_complete_def responses_alikeD [OF assms] by (simp only: if_False)
  then show ?thesis by simp
next
  case True
  note st = True responses_alikeD [OF assms]
  have rc: "read_content (rs_content r1) = read_content (rs_content r2)" using assms by (simp add: responses_alike_def)
  define usage_of where "usage_of d = py_or (get_default d ''usage'' JNull) (JObj [])" for d
  note defs = answer_complete_def usage_of_def [symmetric] st
  note reads = read_content_def usage_of_def [symmetric]
  consider "json_loads_bytes (rs_content r2) = None" | d where "json_loads_bytes (rs_content r2) = Some (JObj d)"
    | v where "json_loads_bytes (rs_content r2) = Some v" "\<forall>d. v \<noteq> JObj d" by (metis not_None_eq)
  then show ?thesis
  proof cases
    case 1
    then have "read_content (rs_content r1) = Unreadable" using rc by (simp add: reads)
    then have "json_loads_bytes (rs_content r1) = None" by (auto simp: reads split: option.splits json.splits)
    with 1 show ?thesis by (simp add: defs)
  next
    case (3 v)
    then have "read_content (rs_content r1) = Not_an_object" using rc by (cases v) (simp_all add: reads)
    then obtain w where "json_loads_bytes (rs_content r1) = Some w" "\<forall>d. w \<noteq> JObj d"
      by (auto simp: reads split: option.splits json.splits)
    with 3 show ?thesis by (cases v; cases w) (simp_all add: defs)
  next
    case (2 d)
    show ?thesis
    proof (cases "\<exists>u2. usage_of d = JObj u2")
      case True
      then obtain u2 where u2: "usage_of d = JObj u2" by blast
      then have "read_content (rs_content r1) = Counts (token_fields u2)" using rc 2 by (simp add: reads)
      then obtain d1 u1 where d1: "json_loads_bytes (rs_content r1) = Some (JObj d1)" "usage_of d1 = JObj u1"
        and f: "token_fields u1 = token_fields u2"
        by (auto simp: reads split: option.splits json.splits)
      have g: "get_default u1 ''prompt_tokens'' x = get_default u2 ''prompt_tokens'' x"
        "get_default u1 ''completion_tokens'' x = get_default u2 ''completion_tokens'' x" for x
        using f by (simp_all add: token_fields_def get_default_def)
      obtain e st2 where "charge_usage cfg model u2 (pr_keyid p) st = (e, st2)" by fastforce
      then show ?thesis using 2 d1 u2 charge_usage_fields [OF f, of cfg model "pr_keyid p" st]
        by (cases e) (simp_all add: defs g answers_match_def Let_def not_le)
    next
      case False
      then have "read_content (rs_content r1) = Usage_not_an_object"
        using rc 2 by (cases "usage_of d") (simp_all add: reads)
      then obtain d1 where d1: "json_loads_bytes (rs_content r1) = Some (JObj d1)" "\<forall>u. usage_of d1 \<noteq> JObj u"
        by (auto simp: reads split: option.splits json.splits)
      with False show ?thesis using 2 by (cases "usage_of d"; cases "usage_of d1") (simp_all add: defs)
    qed
  qed
qed

lemma drain_error_alike: "responses_alike r1 r2 \<Longrightarrow> drain_error env r1 st = drain_error env r2 st"
  unfolding drain_error_def responses_alike_def by presburger

definition opened_alike :: "(send_failure + chat_response) \<times> 's \<Rightarrow> (send_failure + chat_response) \<times> 's \<Rightarrow> bool" where
  "opened_alike = rel_prod (rel_sum (=) answers_match) (=)"

lemma opened_alikeE:
  assumes "opened_alike x y"
  obtains (failed) e st where "x = (Inl e, st)" "y = (Inl e, st)"
  | (answered) h1 h2 st where "x = (Inr h1, st)" "y = (Inr h2, st)" "answers_match h1 h2"
  using assms by (cases x; cases y) (auto simp: opened_alike_def elim!: rel_sum.cases)

lemma opened_alike_simps [simp]:
  "opened_alike (Inl e, st) (Inl e, st)" "opened_alike (Inr h1, st) (Inr h2, st) \<longleftrightarrow> answers_match h1 h2"
  by (simp_all add: opened_alike_def)

lemma stream_open_alike:
  assumes "answers_alike (ce_net env) (JObj (stream_body b1)) (JObj (stream_body b2))"
  shows "opened_alike (snd (stream_open cfg env p model b1 st)) (snd (stream_open cfg env p model b2 st))"
proof -
  let ?call = "\<lambda>b. open_stream cfg (ce_net env) ''/chat/completions'' (JObj (stream_body b)) st"
  obtain t1 x1 t2 x2 where c: "?call b1 = (t1, x1)" "?call b2 = (t2, x2)" by (metis prod.collapse)
  have "calls_alike x1 x2"
    using with_retry_alike [OF assms, of cfg "''/chat/completions''" True st] by (simp add: c)
  then show ?thesis
  proof (cases rule: calls_alikeE)
    case (failed e st2)
    then show ?thesis by (simp add: stream_open_def c)
  next
    case (answered u r1 r2 st2)
    obtain e st3 where d: "drain_error env r2 st2 = (e, st3)" by fastforce
    obtain h st4 where "reject env (rs_status r2) ''upstream_error'' p model [] st3 = (h, st4)" by fastforce
    with d show ?thesis
      using answered(3) by (cases e)
        (simp_all add: stream_open_def c answered(1,2) drain_error_alike [OF answered(3)] responses_alikeD [OF answered(3)]
          answers_match_def)
  qed
qed

lemma stream_start_alike:
  assumes "answers_alike (ce_net env) (JObj (stream_body b1)) (JObj (stream_body b2))"
  shows "opened_alike (snd (stream_start cfg env p model rk b1 st)) (snd (stream_start cfg env p model rk b2 st))"
proof -
  obtain t1 x1 t2 x2 where c: "stream_open cfg env p model b1 st = (t1, x1)" "stream_open cfg env p model b2 st = (t2, x2)"
    by (metis prod.collapse)
  have "opened_alike x1 x2" using stream_open_alike [OF assms, of cfg p model st] by (simp add: c)
  then show ?thesis
    by (cases rule: opened_alikeE)
      (auto simp: stream_start_def c answers_match_def split: send_failure.split chat_response.splits)
qed

lemma chat_forward_alike:
  assumes "answers_alike (ce_net env) (JObj (if streaming then stream_body b1 else b1))
      (JObj (if streaming then stream_body b2 else b2))"
  shows "handled_alike (snd (chat_forward cfg env p model b1 streaming rk st)) (snd (chat_forward cfg env p model b2 streaming rk st))"
proof (cases streaming)
  case True
  obtain t1 x1 t2 x2 where c: "stream_start cfg env p model rk b1 st = (t1, x1)" "stream_start cfg env p model rk b2 st = (t2, x2)"
    by (metis prod.collapse)
  have "opened_alike x1 x2" using stream_start_alike [of env b1 b2 cfg p model rk st] assms True by (simp add: c)
  then show ?thesis
  proof (cases rule: opened_alikeE)
    case (failed e st2)
    then show ?thesis using True by (cases "upstream_failure env p model e st2") (simp add: chat_forward_def c)
  qed (simp add: chat_forward_def c True)
next
  case False
  let ?call = "\<lambda>b. request cfg (ce_net env) ''/chat/completions'' (JObj b) st"
  obtain t1 x1 t2 x2 where c: "?call b1 = (t1, x1)" "?call b2 = (t2, x2)" by (metis prod.collapse)
  have "calls_alike x1 x2"
    using with_retry_alike [of "ce_net env" "JObj b1" "JObj b2" cfg "''/chat/completions''" False st] assms False by (simp add: c)
  then show ?thesis
  proof (cases rule: calls_alikeE)
    case (failed e st2)
    then show ?thesis using False by (cases "upstream_failure env p model e st2") (simp add: chat_forward_def c)
  next
    case (answered u r1 r2 st2)
    show ?thesis
      using answer_complete_alike [OF answered(3), of cfg env p model u "release_slot rk st2"] False answered(1,2)
      by (cases "answer_complete cfg env p model u r1 (release_slot rk st2)";
          cases "answer_complete cfg env p model u r2 (release_slot rk st2)") (simp add: chat_forward_def c)
  qed
qed

subsection \<open>The relay\<close>

lemma relay_loop_alike:
  assumes "chunks_alike b1 u1 cs1 b2 u2 cs2"
  shows "\<exists>o1 v1 o2 v2 e st'. relay_loop cfg env model x i first b1 u1 cs1 st = (o1, v1, e, st') \<and>
     relay_loop cfg env model x i first b2 u2 cs2 st = (o2, v2, e, st') \<and>
     token_fields v1 = token_fields v2 \<and> length o1 = length o2"
  using assms
proof (induction b1 u1 cs1 b2 u2 cs2 arbitrary: i first st rule: chunks_alike.induct)
  case (2 b1 u1 c1 cs1 b2 u2 c2 cs2)
  have e: "c1 = [] \<longleftrightarrow> c2 = []" using "2.prems" by simp
  define st1 where "st1 = (if first \<and> c2 \<noteq> [] then observe_ttft cfg env model (ce_chunk env i st) else ce_chunk env i st)"
  show ?case
  proof (cases "scan_events (b1 @ c1) u1")
    case s1: (Scanning d1 w1)
    then obtain d2 w2 where s2: "scan_events (b2 @ c2) u2 = Scanning d2 w2" and c: "chunks_alike d1 w1 cs1 d2 w2 cs2"
      using "2.prems" by (auto split: scan_state.splits)
    from "2.IH" [OF _ s1 s2 c, of "i + 1" "first \<and> c2 = []" st1]
    show ?thesis by (auto simp: s1 s2 e st1_def Let_def)
  next
    case s1: (Frame_raised x1 w1)
    then obtain w2 where "scan_events (b2 @ c2) u2 = Frame_raised x1 w2" "token_fields w1 = token_fields w2"
      using "2.prems" by (auto split: scan_state.splits)
    then show ?thesis by (simp add: s1 e Let_def)
  qed
qed simp_all

lemma relay_alike:
  assumes "responses_alike r1 r2"
  shows "snd (relay cfg env p model rk u r1 st) = snd (relay cfg env p model rk u r2 st) \<and>
     length (fst (relay cfg env p model rk u r1 st)) = length (fst (relay cfg env p model rk u r2 st))"
proof -
  have c: "chunks_alike [] [] (rs_chunks r1) [] [] (rs_chunks r2)" "rs_end r1 = rs_end r2" "rs_status r1 = rs_status r2"
    using assms by (simp_all add: responses_alike_def)
  obtain o1 v1 o2 v2 e st' where
    l1: "relay_loop cfg env model (rs_end r2) 0 True [] [] (rs_chunks r1) st = (o1, v1, e, st')" and
    l2: "relay_loop cfg env model (rs_end r2) 0 True [] [] (rs_chunks r2) st = (o2, v2, e, st')" and
    f: "token_fields v1 = token_fields v2" and n: "length o1 = length o2"
    using relay_loop_alike [OF c(1)] by blast
  have g: "get_default v1 ''prompt_tokens'' x = get_default v2 ''prompt_tokens'' x"
    "get_default v1 ''completion_tokens'' x = get_default v2 ''completion_tokens'' x" for x
    using f by (simp_all add: token_fields_def get_default_def)
  define broken where "broken = (case e of None \<Rightarrow> False | Some x \<Rightarrow> is_Exception x)"
  define st1 where "st1 = (if broken then st'\<lparr>cs_metrics := record_rejection ''upstream_stream_broken'' (cs_metrics st')\<rparr> else st')"
  obtain ce st2 where ce: "ce_close env st1 = (ce, st2)" by fastforce
  obtain ue st3 where ue: "charge_usage cfg model v2 (pr_keyid p) (release_slot rk st2) = (ue, st3)" by fastforce
  note eqs = relay_def c(2,3) l1 l2 broken_def [symmetric] charge_usage_fields [OF f] g n Let_def
  show ?thesis
  proof (cases broken)
    case True
    with ce show ?thesis using ue by (cases ce; cases ue) (simp_all add: eqs st1_def)
  next
    case False
    with ce show ?thesis using ue by (cases ce; cases ue) (simp_all add: eqs st1_def)
  qed
qed


subsection \<open>The content leaves no trace\<close>

text \<open>What the handler keeps of a request once it is validated, everything but the body; and the body
  it sends.\<close>

type_synonym validation = "refusal + json \<times> (string \<times> json) list \<times> bool"

definition request_outline :: "validation \<Rightarrow> refusal + json \<times> bool" where
  "request_outline v = (case v of Inl e \<Rightarrow> Inl e | Inr (model, body, streaming) \<Rightarrow> Inr (model, streaming))"

definition forwarded :: "validation \<Rightarrow> json" where
  "forwarded v =
     (case v of Inl e \<Rightarrow> JNull | Inr (model, body, streaming) \<Rightarrow> JObj (if streaming then stream_body body else body))"

text \<open>C24. The content of a request and of its answer leaves no trace. Take two requests of one caller that
  fare alike in validation (both are refused with the same reason, or both pass with the same model and
  the same streaming choice), and replicas that answer the two forwarded bodies in whatever words, but
  with the same status, Retry-After and token counts, streams broken into chunks at the same places and
  failing alike. Then the shared state the handler leaves (audit log, metrics, quota, breakers) is the
  same, the two answers differ at most in the text of the answer, and for a stream so is the state
  after the relay has run to its end.\<close>

theorem content_leaves_no_trace:
  assumes "request_outline (chat_validate cfg (ce_repr env) p raw1) = request_outline (chat_validate cfg (ce_repr env) p raw2)"
    and "answers_alike (ce_net env) (forwarded (chat_validate cfg (ce_repr env) p raw1))
      (forwarded (chat_validate cfg (ce_repr env) p raw2))"
    and "chat_completions cfg env p raw1 st = (tr1, h1, st1)" and "chat_completions cfg env p raw2 st = (tr2, h2, st2)"
  shows "st1 = st2 \<and> answers_match h1 h2 \<and>
     (\<forall>u r1 r2 model rk. h1 = Event_stream u r1 \<and> h2 = Event_stream u r2 \<longrightarrow>
        snd (relay cfg env p model rk u r1 st1) = snd (relay cfg env p model rk u r2 st2))"
proof -
  have "handled_alike (h1, st1) (h2, st2)"
  proof (cases "chat_validate cfg (ce_repr env) p raw1")
    case (Inl e)
    with assms(1) have "chat_validate cfg (ce_repr env) p raw2 = Inl e"
      by (auto simp: request_outline_def split: sum.splits prod.splits)
    with Inl assms(3,4) show ?thesis by (simp add: chat_completions_def)
  next
    case (Inr v1)
    obtain model b1 streaming where v1: "chat_validate cfg (ce_repr env) p raw1 = Inr (model, b1, streaming)"
      using Inr by (cases v1) auto
    with assms(1) obtain b2 where v2: "chat_validate cfg (ce_repr env) p raw2 = Inr (model, b2, streaming)"
      by (auto simp: request_outline_def split: sum.splits prod.splits)
    have f: "handled_alike (snd (chat_forward cfg env p model b1 streaming rk st2)) (snd (chat_forward cfg env p model b2 streaming rk st2))"
      for rk st2 using chat_forward_alike [of env streaming b1 b2] assms(2) by (simp add: v1 v2 forwarded_def)
    show ?thesis
    proof (cases "quota_gate p (gw_quota st)")
      case (Inl reason)
      with assms(3,4) show ?thesis by (simp add: chat_completions_def v1 v2)
    next
      case (Inr s)
      then show ?thesis using f [of "fst s" "st\<lparr>gw_quota := snd s\<rparr>"] assms(3,4)
        by (cases s) (simp add: chat_completions_def v1 v2)
    qed
  qed
  then have m: "answers_match h1 h2" "st1 = st2" by simp_all
  have "snd (relay cfg env p model rk u r1 st1) = snd (relay cfg env p model rk u r2 st2)"
    if "h1 = Event_stream u r1" "h2 = Event_stream u r2" for u r1 r2 model rk
    using m that relay_alike [of r1 r2 cfg env p model rk u st2] by (simp add: answers_match_def)
  with m show ?thesis by blast
qed

definition other_raw :: string where
  "other_raw = ''{'' @ quo @ ''model'' @ quo @ '':'' @ quo @ ''Qwen/Qwen3-8B-AWQ'' @ quo @ '','' @ quo @ ''messages'' @ quo @
     '':[{'' @ quo @ ''content'' @ quo @ '':'' @ quo @ ''my secret'' @ quo @ ''}]}''"

lemma other_loads:
  "json_loads_bytes other_raw =
     Some (JObj [(''model'', JStr ''Qwen/Qwen3-8B-AWQ''), (''messages'', JArr [JObj [(''content'', JStr ''my secret'')]])])"
  by code_simp


definition other_sent :: "(string \<times> json) list" where
  "other_sent = [(''model'', JStr ''Qwen/Qwen3-8B-AWQ''), (''messages'', JArr [JObj [(''content'', JStr ''my secret'')]]),
     (''max_tokens'', JInt 2048)]"

lemma other_validates:
  "chat_validate default_settings fr demo_principal other_raw = Inr (JStr ''Qwen/Qwen3-8B-AWQ'', other_sent, False)"
proof -
  have "length other_raw < 1000" by (simp add: other_raw_def quo_def)
  then show ?thesis
    by (simp add: chat_validate_def other_loads demo_scope get_default_def model_allowed_def other_sent_def
        default_models py_split_def py_space_def clamp_max_tokens_def Let_def)
qed

text \<open>A replica that repeats the secret to the one who told it.\<close>

definition other_answer :: string where
  "other_answer = ''{'' @ quo @ ''id'' @ quo @ '':'' @ quo @ ''my secret'' @ quo @ '','' @ quo @ ''usage'' @ quo @ '':{'' @
     quo @ ''prompt_tokens'' @ quo @ '':3,'' @ quo @ ''completion_tokens'' @ quo @ '':4}}''"

lemma other_answer_loads:
  "json_loads_bytes other_answer = Some (JObj [(''id'', JStr ''my secret''),
     (''usage'', JObj [(''prompt_tokens'', JInt 3), (''completion_tokens'', JInt 4)])])"
  by code_simp

definition echo_env :: chat_env where
  "echo_env = (quiet_env (Answer demo_response))\<lparr>ce_net := (still_net (Answer demo_response) 1)\<lparr>
     net_send := (\<lambda>_ _ b _ st. (Answer (if b = JObj other_sent then demo_response\<lparr>rs_content := other_answer\<rparr> else demo_response), st))\<rparr>\<rparr>"

definition echo_response :: "json \<Rightarrow> response" where
  "echo_response b = (if b = JObj other_sent then demo_response\<lparr>rs_content := other_answer\<rparr> else demo_response)"

lemma echo_forwards:
  "\<exists>p m. request default_settings (ce_net echo_env) path body (demo_gateway\<lparr>gw_quota := q\<rparr>) =
     ([Sent ''a'' (attempt_url path ''a'') body (Inr (Answer (echo_response body)))], Inr (''a'', echo_response body),
      demo_gateway\<lparr>gw_quota := q, cs_pool := p, cs_metrics := m\<rparr>)"
proof -
  have s: "pool_ok (cs_pool demo_gateway)" "up_urls (cs_pool demo_gateway) = [''a'']" "up_client (cs_pool demo_gateway) \<noteq> None"
    "rb_state (breaker_of (cs_pool demo_gateway) ''a'') = CLOSED"
    by (simp_all add: demo_gateway_def fresh_single_simps new_breaker_def)
  have pk: "pick default_settings None 1 (cs_pool demo_gateway) = (Inr ''a'', (cs_pool demo_gateway)\<lparr>up_next := 0\<rparr>)"
    by (simp add: single_pick [OF s(1) default_breaker s(2)] s(4))
  obtain c where c: "up_client (cs_pool demo_gateway) = Some c" using s(3) by blast
  have e: "net_send (ce_net echo_env) a u b f st = (Answer (echo_response b), st)" "net_pick_time (ce_net echo_env) a = 1"
    for a u b f st by (simp_all add: echo_env_def echo_response_def still_net_def)
  have "rs_status (echo_response body) < 400" by (simp add: echo_response_def demo_response_def)
  then show ?thesis
    by (simp add: with_retry_def retry_loop.simps [of _ _ _ _ _ 0] pk e send_and_record_def pool_client_def c count_upstream_def
        attempt_url_def Let_def) (intro exI, rule refl)
qed

lemma echo_answers:
  assumes "chat_validate default_settings (ce_repr echo_env) demo_principal raw = Inr (model, b, False)"
    and "json_loads_bytes (rs_content (echo_response (JObj b))) = Some (JObj d)"
    and "get_default d ''usage'' JNull = JObj [(''prompt_tokens'', JInt 3), (''completion_tokens'', JInt 4)]"
  shows "\<exists>t st'. chat_completions default_settings echo_env demo_principal raw demo_gateway = (t, Json_response (JObj d), st')"
proof -
  obtain p m where f: "request default_settings (ce_net echo_env) ''/chat/completions'' (JObj b)
      (demo_gateway\<lparr>gw_quota := new_quota\<lparr>q_inflight := [''a1'' \<mapsto> 1]\<rparr>\<rparr>) =
     ([Sent ''a'' (attempt_url ''/chat/completions'' ''a'') (JObj b) (Inr (Answer (echo_response (JObj b))))],
      Inr (''a'', echo_response (JObj b)),
      demo_gateway\<lparr>gw_quota := new_quota\<lparr>q_inflight := [''a1'' \<mapsto> 1]\<rparr>, cs_pool := p, cs_metrics := m\<rparr>)"
    using echo_forwards by blast
  have g: "gw_quota demo_gateway = new_quota" by (simp add: demo_gateway_def)
  have st: "rs_status (echo_response (JObj b)) = 200" by (simp add: echo_response_def demo_response_def)
  have u: "\<exists>st2. charge_usage default_settings model [(''prompt_tokens'', JInt 3), (''completion_tokens'', JInt 4)] k st1 = (None, st2)"
    for k st1 by (simp add: charge_usage_def get_default_def count_kind_def Let_def)
  have "\<exists>st2. answer_complete default_settings echo_env demo_principal model ''a'' (echo_response (JObj b)) st1 =
      (Json_response (JObj d), st2)" for st1
    using u [of "pr_keyid demo_principal" st1] assms(2,3) st by (auto simp: answer_complete_def py_or_def Let_def)
  then show ?thesis using f
    by (auto simp: chat_completions_def assms(1) g demo_gate chat_forward_def split: prod.splits)
qed

theorem content_leaves_no_trace_witness:
  "\<exists>t1 d1 t2 d2 st'. chat_completions default_settings echo_env demo_principal demo_raw demo_gateway = (t1, Json_response d1, st') \<and>
     chat_completions default_settings echo_env demo_principal other_raw demo_gateway = (t2, Json_response d2, st') \<and> d1 \<noteq> d2"
proof -
  let ?R = "\<lambda>raw. chat_completions default_settings echo_env demo_principal raw demo_gateway"
  let ?U = "(''usage'', JObj [(''prompt_tokens'', JInt 3), (''completion_tokens'', JInt 4)])"
  have ne: "demo_sent \<noteq> other_sent" by (simp add: demo_sent_def demo_body_def other_sent_def)
  have r: "echo_response (JObj demo_sent) = demo_response" "echo_response (JObj other_sent) = demo_response\<lparr>rs_content := other_answer\<rparr>"
    using ne by (simp_all add: echo_response_def)
  obtain t1 st1 where a1: "?R demo_raw = (t1, Json_response (JObj [?U]), st1)"
    using echo_answers [OF demo_validates, of "[?U]"] r(1) by (auto simp: demo_response_def demo_answer_loads get_default_def)
  obtain t2 st2 where a2: "?R other_raw = (t2, Json_response (JObj [(''id'', JStr ''my secret''), ?U]), st2)"
    using echo_answers [OF other_validates, of "[(''id'', JStr ''my secret''), ?U]"] r(2)
    by (auto simp: other_answer_loads get_default_def)
  have "responses_alike demo_response (demo_response\<lparr>rs_content := other_answer\<rparr>)"
    by (simp add: responses_alike_def demo_response_def read_content_def demo_answer_loads other_answer_loads get_default_def
        py_or_def token_fields_def)
  then have "answers_alike (ce_net echo_env) (JObj demo_sent) (JObj other_sent)"
    using ne by (simp add: answers_alike_def echo_env_def outcomes_alike_def)
  then have "st1 = st2"
    using content_leaves_no_trace [of default_settings echo_env demo_principal demo_raw other_raw, OF _ _ a1 a2]
    by (simp add: demo_validates other_validates request_outline_def forwarded_def)
  moreover have "JObj [?U] \<noteq> JObj [(''id'', JStr ''my secret''), ?U]" by simp
  ultimately show ?thesis using a1 a2 by blast
qed

end
