(* ===== verification/Timestamps.thy ===== *)
theory Timestamps
  imports Json_Out
begin

section \<open>The timestamps of the audit log (gateway/audit.py)\<close>

text \<open>
  \<open>AuditLog.now\<close>: the clock in whole seconds as UTC, printed \<open>%Y-%m-%dT%H:%M:%SZ\<close>. The calendar is
  the Gregorian one, leap seconds are not counted (as in POSIX time), and \<open>%Y\<close> is the year
  without padding. The theorem is what a reader of the log relies on: texts compare as times do.
\<close>

subsection \<open>The calendar\<close>

definition leap_year :: "nat \<Rightarrow> bool" where
  "leap_year y \<longleftrightarrow> y mod 4 = 0 \<and> y mod 100 \<noteq> 0 \<or> y mod 400 = 0"

definition year_days :: "nat \<Rightarrow> nat" where
  "year_days y = (if leap_year y then 366 else 365)"

definition month_days :: "nat \<Rightarrow> nat list" where
  "month_days y = [31, if leap_year y then 29 else 28, 31, 30, 31, 30, 31, 31, 30, 31, 30, 31]"

text \<open>The year a day falls into and its number in the year, and the month within the year.\<close>

function year_of :: "nat \<Rightarrow> nat \<Rightarrow> nat \<times> nat" where
  "year_of y d = (if d < year_days y then (y, d) else year_of (y + 1) (d - year_days y))"
  by pat_completeness auto
termination by (relation "measure snd") (auto simp: year_days_def)

declare year_of.simps [simp del]

fun month_of :: "nat list \<Rightarrow> nat \<Rightarrow> nat \<Rightarrow> nat \<times> nat" where
  "month_of [] m d = (m, d)"
| "month_of (n # ns) m d = (if d < n then (m, d) else month_of ns (m + 1) (d - n))"

definition two_digits :: "nat \<Rightarrow> string" where
  "two_digits n = (if n < 10 then CHR ''0'' # nat_digits n else nat_digits n)"

definition utc_stamp :: "nat \<Rightarrow> string" where
  "utc_stamp t =
     (let (y, yday) = year_of 1970 (t div 86400);
          (m, mday) = month_of (month_days y) 1 yday;
          s = t mod 86400
      in nat_digits y @ ''-'' @ two_digits m @ ''-'' @ two_digits (mday + 1) @ ''T'' @
         two_digits (s div 3600) @ '':'' @ two_digits (s div 60 mod 60) @ '':'' @ two_digits (s mod 60) @ ''Z'')"

definition audit_now :: "real \<Rightarrow> string" where
  "audit_now t = utc_stamp (nat \<lfloor>t\<rfloor>)"

subsection \<open>Digits in order\<close>

lemma mixed_radix_less: "m < n \<Longrightarrow> m div c < n div c \<or> m div c = n div c \<and> m mod c < n mod (c :: nat)"
proof -
  assume "m < n"
  then have "m div c \<le> n div c" by (simp add: div_le_mono)
  moreover have "m mod c < n mod c" if "m div c = n div c"
    using \<open>m < n\<close> div_mult_mod_eq [of m c] div_mult_mod_eq [of n c] that by (metis nat_add_left_cancel_less)
  ultimately show ?thesis by linarith
qed

lemma append_less:
  "length a = length b \<Longrightarrow> a @ u < b @ v \<longleftrightarrow> a < b \<or> a = b \<and> u < (v :: string)"
  by (induction a b rule: list_induct2) auto

lemma digit_less: "a < 10 \<Longrightarrow> b < 10 \<Longrightarrow> (char_of (48 + a :: nat) :: char) < char_of (48 + b) \<longleftrightarrow> a < b"
  by (simp add: less_char_def)

lemma digit_eq: "a < 10 \<Longrightarrow> b < 10 \<Longrightarrow> (char_of (48 + a :: nat) :: char) = char_of (48 + b) \<longleftrightarrow> a = b"
  by (metis digit_less less_irrefl linorder_neq_iff)

lemma two_digits_eq: "n < 100 \<Longrightarrow> two_digits n = [char_of (48 + n div 10), char_of (48 + n mod 10)]"
  by (cases "n < 10") (simp_all add: two_digits_def nat_digits.simps [of n] nat_digits.simps [of "n div 10"] char_of_digits)

lemma two_digits_length [simp]: "n < 100 \<Longrightarrow> length (two_digits n) = 2"
  by (simp add: two_digits_eq)

lemma two_digits_less:
  assumes "m < n" and "n < 100"
  shows "two_digits m < two_digits n"
proof -
  have "m div 10 < 10" "n div 10 < 10" using assms by simp_all
  moreover note mixed_radix_less [OF assms(1), of 10]
  ultimately show ?thesis using assms by (auto simp: two_digits_eq digit_less digit_eq)
qed

lemma year_digits:
  assumes "1000 \<le> y" and "y < 10000"
  shows "nat_digits y = two_digits (y div 100) @ two_digits (y mod 100)"
proof -
  have "nat_digits y = nat_digits (y div 100) @ [char_of (48 + y div 10 mod 10), char_of (48 + y mod 10)]"
    using assms by (simp add: nat_digits.simps [of y] nat_digits.simps [of "y div 10"] less_eq_div_iff_mult_less_eq div_mult2_eq [symmetric] not_less)
  moreover have "two_digits (y div 100) = nat_digits (y div 100)"
    using assms by (simp add: two_digits_def less_eq_div_iff_mult_less_eq not_less)
  moreover have "y mod 100 div 10 = y div 10 mod 10" "y mod 100 mod 10 = y mod 10"
    by (simp_all add: mod_mult2_eq [of y 10 10, simplified] mod_mod_cancel)
  ultimately show ?thesis by (simp add: two_digits_eq)
qed

subsection \<open>The calendar in order\<close>

lemma year_of_bounds: "year_of y d = (y', r) \<Longrightarrow> y \<le> y' \<and> r < year_days y' \<and> y' \<le> y + d div 365"
proof (induction y d rule: year_of.induct)
  case (1 y d)
  show ?case
  proof (cases "d < year_days y")
    case True
    with 1 show ?thesis by (simp add: year_of.simps [of y d])
  next
    case False
    then have "(d - year_days y) div 365 \<le> (d - 365) div 365" "365 \<le> d"
      by (auto simp: year_days_def intro: div_le_mono split: if_splits)
    then have "Suc ((d - year_days y) div 365) \<le> d div 365" using le_div_geq [of 365 d] by simp
    with 1 False show ?thesis by (fastforce simp: year_of.simps [of y d])
  qed
qed

lemma year_of_less:
  "c < d \<Longrightarrow> year_of y c = (y1, r1) \<Longrightarrow> year_of y d = (y2, r2) \<Longrightarrow> y1 < y2 \<or> y1 = y2 \<and> r1 < r2"
proof (induction y c arbitrary: d rule: year_of.induct)
  case (1 y c)
  show ?case
  proof (cases "c < year_days y")
    case True
    then have "y1 = y" "r1 = c" using 1 by (simp_all add: year_of.simps [of y c])
    then show ?thesis using 1 year_of_bounds [of "y + 1" "d - year_days y" y2 r2]
      by (cases "d < year_days y") (auto simp: year_of.simps [of y d])
  next
    case False
    then have "c - year_days y < d - year_days y" using 1(2) by simp
    with False 1 show ?thesis by (auto simp: year_of.simps [of y c] year_of.simps [of y d])
  qed
qed

lemma month_of_bounds:
  "month_of ns m d = (m', r) \<Longrightarrow> m \<le> m' \<and> (d < sum_list ns \<and> (\<forall>n \<in> set ns. n \<le> b) \<longrightarrow> m' < m + length ns \<and> r < b)"
proof (induction ns m d rule: month_of.induct)
  case (2 n ns m d)
  then show ?case by (cases "d < n") (auto simp: less_diff_conv2)
qed simp

lemma month_of_less:
  "c < d \<Longrightarrow> month_of ns m c = (m1, r1) \<Longrightarrow> month_of ns m d = (m2, r2) \<Longrightarrow> m1 < m2 \<or> m1 = m2 \<and> r1 < r2"
proof (induction ns m c arbitrary: d rule: month_of.induct)
  case (2 n ns m c)
  show ?case
  proof (cases "c < n")
    case True
    then show ?thesis using 2 month_of_bounds [of ns "m + 1" "d - n" m2 r2] by (cases "d < n") auto
  next
    case False
    then have "c - n < d - n" using 2(2) by simp
    with False 2 show ?thesis by auto
  qed
qed simp

text \<open>The date of a day, with its fields in their ranges.\<close>

definition date_of :: "nat \<Rightarrow> nat \<times> nat \<times> nat" where
  "date_of day = (let (y, yday) = year_of 1970 day; (m, mday) = month_of (month_days y) 1 yday in (y, m, mday + 1))"

lemma date_of_bounds:
  assumes "date_of day = (y, m, d)" and "day < 2930950"
  shows "1000 \<le> y \<and> y < 10000 \<and> m < 100 \<and> d < 100"
proof -
  obtain yday mday where yd: "year_of 1970 day = (y, yday)" and md: "month_of (month_days y) 1 yday = (m, mday)" and d: "d = mday + 1"
    using assms(1) by (auto simp: date_of_def split: prod.splits)
  have "day div 365 < 8030" using assms(2) by (simp add: div_less_iff_less_mult)
  then have y: "1000 \<le> y" "y < 10000" "yday < year_days y" using year_of_bounds [OF yd] by simp_all
  moreover have "sum_list (month_days y) = year_days y" "\<forall>n \<in> set (month_days y). n \<le> 31" "length (month_days y) = 12"
    by (simp_all add: month_days_def year_days_def)
  ultimately have "m < 13" "mday < 31" using month_of_bounds [OF md, of 31] by simp_all
  then show ?thesis using y d by simp
qed

lemma date_of_less:
  assumes "c < d" and "date_of c = (y1, m1, d1)" and "date_of d = (y2, m2, d2)"
  shows "y1 < y2 \<or> y1 = y2 \<and> (m1 < m2 \<or> m1 = m2 \<and> d1 < d2)"
  using assms(2,3) year_of_less [OF assms(1), of 1970] month_of_less
  by (fastforce simp: date_of_def split: prod.splits)

lemma field_less:
  assumes "m < 100" and "n < 100"
  shows "two_digits m @ u < two_digits n @ v \<longleftrightarrow> m < n \<or> m = n \<and> u < v"
  using assms append_less [of "two_digits m" "two_digits n" u v] two_digits_less [of m n] two_digits_less [of n m]
  by (cases m n rule: linorder_cases) auto

lemma year_less:
  assumes "1000 \<le> y" and "y < 10000" and "1000 \<le> z" and "z < 10000"
  shows "nat_digits y @ u < nat_digits z @ v \<longleftrightarrow> y < z \<or> y = z \<and> u < v"
proof -
  have b: "y div 100 < 100" "z div 100 < 100" using assms by simp_all
  have "y < z \<longleftrightarrow> y div 100 < z div 100 \<or> y div 100 = z div 100 \<and> y mod 100 < z mod 100"
    "y = z \<longleftrightarrow> y div 100 = z div 100 \<and> y mod 100 = z mod 100"
    using mixed_radix_less [of y z 100] mixed_radix_less [of z y 100] by (cases y z rule: linorder_cases; auto)+
  then show ?thesis using b assms by (auto simp: year_digits field_less)
qed

lemma utc_stamp_date:
  "date_of (t div 86400) = (y, m, d) \<Longrightarrow>
   utc_stamp t = nat_digits y @ ''-'' @ two_digits m @ ''-'' @ two_digits d @ ''T'' @ two_digits (t mod 86400 div 3600) @ '':'' @
     two_digits (t mod 86400 div 60 mod 60) @ '':'' @ two_digits (t mod 86400 mod 60) @ ''Z''"
  by (auto simp: utc_stamp_def date_of_def Let_def split: prod.splits)

lemma utc_stamp_less:
  assumes "s < t" and "t < 253234080000"
  shows "utc_stamp s < utc_stamp t"
proof -
  obtain y1 m1 d1 where e: "date_of (s div 86400) = (y1, m1, d1)" by (metis prod_cases3)
  obtain y2 m2 d2 where f: "date_of (t div 86400) = (y2, m2, d2)" by (metis prod_cases3)
  have day: "s div 86400 < 2930950" "t div 86400 < 2930950" using assms by (simp_all add: div_less_iff_less_mult)
  note b = date_of_bounds [OF e day(1)] date_of_bounds [OF f day(2)]
  define p q where "p = s mod 86400" and "q = t mod 86400"
  have pq: "p div 3600 < 100" "q div 3600 < 100" by (simp_all add: p_def q_def div_less_iff_less_mult less_trans [OF mod_less_divisor])
  have less: "utc_stamp s < utc_stamp t \<longleftrightarrow>
      y1 < y2 \<or> y1 = y2 \<and> (m1 < m2 \<or> m1 = m2 \<and> (d1 < d2 \<or> d1 = d2 \<and>
        (p div 3600 < q div 3600 \<or> p div 3600 = q div 3600 \<and>
         (p div 60 mod 60 < q div 60 mod 60 \<or> p div 60 mod 60 = q div 60 mod 60 \<and> p mod 60 < q mod 60))))"
    unfolding utc_stamp_date [OF e] utc_stamp_date [OF f] p_def [symmetric] q_def [symmetric]
    using b pq by (simp add: year_less field_less)
  show ?thesis
  proof (cases "s div 86400 < t div 86400")
    case True
    from date_of_less [OF this e f] show ?thesis unfolding less by blast
  next
    case False
    then have same: "s div 86400 = t div 86400" "p < q" using mixed_radix_less [OF assms(1), of 86400] by (auto simp: p_def q_def)
    then have "(y1, m1, d1) = (y2, m2, d2)" using e f by simp
    moreover have "p div 60 div 60 = p div 3600" "q div 60 div 60 = q div 3600" by (simp_all add: div_mult2_eq [symmetric])
    ultimately show ?thesis unfolding less
      using mixed_radix_less [OF same(2), of 60] mixed_radix_less [of "p div 60" "q div 60" 60] by auto
  qed
qed

text \<open>Timestamps compare as texts the way the times do: records stamped in order of time are in order
  of their timestamps, and two of the same timestamp were written within the same second. The
  bound on the clock is a second of the year 9994.\<close>

theorem timestamps_sort_by_time:
  assumes "\<And>t. t \<in> set ts \<Longrightarrow> 0 \<le> t \<and> t < 253234080000" and "sorted ts"
  shows "sorted (map audit_now ts) \<and>
     (\<forall>t \<in> set ts. \<forall>u \<in> set ts. audit_now t = audit_now u \<longleftrightarrow> \<lfloor>t\<rfloor> = \<lfloor>u\<rfloor>)"
proof -
  have less: "audit_now t < audit_now u" if "t \<in> set ts" "u \<in> set ts" "\<lfloor>t\<rfloor> < \<lfloor>u\<rfloor>" for t u
  proof -
    have "0 \<le> \<lfloor>t\<rfloor>" "\<lfloor>u\<rfloor> < 253234080000" using assms(1) that(1,2) by (simp_all add: floor_less_iff)
    then show ?thesis using that(3) unfolding audit_now_def by (intro utc_stamp_less) linarith+
  qed
  have "audit_now t \<le> audit_now u" if "t \<in> set ts" "u \<in> set ts" "t \<le> u" for t u
  proof (cases "\<lfloor>t\<rfloor> = \<lfloor>u\<rfloor>")
    case True
    then show ?thesis by (simp add: audit_now_def)
  next
    case False
    then show ?thesis using less [OF that(1,2)] floor_mono [OF that(3)] by simp
  qed
  then have "sorted (map audit_now ts)"
    using assms(2) by (auto simp: sorted_map intro: sorted_wrt_mono_rel [rotated])
  moreover have "audit_now t = audit_now u \<longleftrightarrow> \<lfloor>t\<rfloor> = \<lfloor>u\<rfloor>" if "t \<in> set ts" "u \<in> set ts" for t u
    using less [OF that] less [OF that(2,1)] by (cases "\<lfloor>t\<rfloor>" "\<lfloor>u\<rfloor>" rule: linorder_cases) (auto simp: audit_now_def)
  ultimately show ?thesis by blast
qed

theorem timestamps_sort_by_time_witness:
  "audit_now 0 = ''1970-01-01T00:00:00Z'' \<and> audit_now 951827696 = ''2000-02-29T12:34:56Z'' \<and>
   sorted (map audit_now [0, 1 / 2, 951827696])"
proof -
  have "audit_now 0 = ''1970-01-01T00:00:00Z''"
    by (simp add: audit_now_def utc_stamp_def year_of.simps month_days_def year_days_def leap_year_def two_digits_def
        nat_digits.simps char_of_digits)
  moreover have "audit_now 951827696 = ''2000-02-29T12:34:56Z''"
    by (simp add: audit_now_def utc_stamp_def year_of.simps month_days_def year_days_def leap_year_def two_digits_def
        nat_digits.simps char_of_digits)
  moreover have "sorted [0, 1 / 2, 951827696 :: real]" by simp
  moreover have "0 \<le> t \<and> t < 253234080000" if "t \<in> set [0, 1 / 2, 951827696 :: real]" for t using that by auto
  ultimately show ?thesis using timestamps_sort_by_time [of "[0, 1 / 2, 951827696]"] by blast
qed

end
