(* ===== verification/Key_File.thy ===== *)
theory Key_File
  imports Keys Json_Out
begin

section \<open>The key file as it is written (KeyStore.save)\<close>

text \<open>
  \<open>save\<close> writes \<open>json.dumps(payload, indent=2)\<close>: the texts in ASCII only, every other code
  point as a \<open>\u\<close> escape (two of them above the basic plane), each entry on a line of its own,
  two spaces deeper than what holds it. The printer is \<open>json_text\<close> of Json_Out at that layout;
  the theorem at the end is that \<open>reload\<close> reads back the file as the store it was written from.
\<close>

subsection \<open>The ASCII escapes of json.dumps\<close>

definition low6 :: "char \<Rightarrow> nat" where
  "low6 c = of_char c - 128"

text \<open>The code points of a text held in UTF-8.\<close>

fun code_points :: "string \<Rightarrow> nat list" where
  "code_points [] = []"
| "code_points (a # s) =
     (let n = (of_char a :: nat) in
      if n < 128 then n # code_points s
      else if n < 224 then
        (case s of b # s \<Rightarrow> ((n - 192) * 64 + low6 b) # code_points s | _ \<Rightarrow> [])
      else if n < 240 then
        (case s of b # c # s \<Rightarrow> ((n - 224) * 4096 + low6 b * 64 + low6 c) # code_points s | _ \<Rightarrow> [])
      else
        (case s of
           b # c # d # s \<Rightarrow> ((n - 240) * 262144 + low6 b * 4096 + low6 c * 64 + low6 d) # code_points s
         | _ \<Rightarrow> []))"

definition escape_u :: "nat \<Rightarrow> string" where
  "escape_u n =
     [CHR 0x5C, CHR ''u'', hex_digit (n div 4096), hex_digit (n div 256 mod 16),
      hex_digit (n div 16 mod 16), hex_digit (n mod 16)]"

definition escape_point :: "nat \<Rightarrow> string" where
  "escape_point p =
     (if p < 127 then escape_char (char_of p)
      else if p < 65536 then escape_u p
      else escape_u (55296 + (p - 65536) div 1024) @ escape_u (56320 + (p - 65536) mod 1024))"

definition dumps_ascii :: "string \<Rightarrow> string" where
  "dumps_ascii s = CHR 0x22 # concat (map escape_point (code_points s)) @ [CHR 0x22]"

definition indent_line :: "nat \<Rightarrow> string" where
  "indent_line k = CHR 0x0A # replicate (2 * k) CHR '' ''"

definition indented :: layout where
  "indented = \<lparr>ly_str = dumps_ascii, ly_open = (\<lambda>k. indent_line (k + 1)), ly_next = (\<lambda>k. indent_line (k + 1)),
     ly_close = indent_line\<rparr>"

definition save_text :: "(real \<Rightarrow> string) \<Rightarrow> key_store \<Rightarrow> string" where
  "save_text fr store = json_text indented fr 0 (save_payload store)"

lemma indented_simps [simp]:
  "ly_str indented = dumps_ascii" "ly_open indented k = indent_line (k + 1)"
  "ly_next indented k = indent_line (k + 1)" "ly_close indented k = indent_line k"
  by (simp_all add: indented_def)

subsection \<open>Reading the escapes\<close>

text \<open>A text the escapes can carry: UTF-8, no code point a surrogate.\<close>

definition scalar :: "nat \<Rightarrow> bool" where
  "scalar p \<longleftrightarrow> p < 55296 \<or> 57344 \<le> p \<and> p < 1114112"

definition unicode_text :: "string \<Rightarrow> bool" where
  "unicode_text s \<longleftrightarrow> utf8_valid s \<and> list_all scalar (code_points s)"

lemma hex4_digits:
  assumes "n < 65536"
  shows "hex4 (hex_digit (n div 4096) # hex_digit (n div 256 mod 16) # hex_digit (n div 16 mod 16) # hex_digit (n mod 16) # r) = Some n"
proof -
  have "n div 4096 < 16" using assms by (simp add: div_less_iff_less_mult)
  moreover have "((n div 4096 * 16 + n div 256 mod 16) * 16 + n div 16 mod 16) * 16 + n mod 16 = n"
  proof -
    have "n div 256 div 16 = n div 4096" "n div 16 div 16 = n div 256" by (simp_all add: div_mult2_eq [symmetric])
    then show ?thesis by (metis div_mult_mod_eq)
  qed
  ultimately show ?thesis by (simp add: hex4_def hex_val_digit)
qed

lemma json_str_escape_u:
  assumes "n < 65536" and "\<not> (55296 \<le> n \<and> n \<le> 56319)"
  shows "json_str (escape_u n @ r) = map_option (apfst ((@) (utf8 n))) (json_str r)"
proof -
  have "n < 55296 \<or> 56319 < n" using assms(2) by linarith
  then show ?thesis
    using assms(1) by (elim disjE) (simp_all add: escape_u_def json_str.simps json_unescape_def hex4_digits Let_def)
qed

lemma json_str_pair:
  assumes "55296 \<le> h" and "h \<le> 56319" and "56320 \<le> l" and "l \<le> 57343"
  shows "json_str (escape_u h @ escape_u l @ r) =
     map_option (apfst ((@) (utf8 (65536 + (h - 55296) * 1024 + (l - 56320))))) (json_str r)"
  using assms by (simp add: escape_u_def json_str.simps json_unescape_def hex4_digits Let_def)

lemma append_single: "(@) [c] = (#) c"
  by (simp add: fun_eq_iff)

lemma json_str_point:
  assumes "scalar p"
  shows "json_str (escape_point p @ r) = map_option (apfst ((@) (utf8 p))) (json_str r)"
proof -
  consider "p < 127" | "127 \<le> p" "p < 65536" | "65536 \<le> p" by linarith
  then show ?thesis
  proof cases
    case 1
    then show ?thesis using json_str_step [of "char_of p" r] by (simp add: escape_point_def utf8_def append_single)
  next
    case 2
    then have "\<not> (55296 \<le> p \<and> p \<le> 56319)" using assms unfolding scalar_def by linarith
    then show ?thesis using 2 by (simp add: escape_point_def json_str_escape_u)
  next
    case 3
    let ?q = "p - 65536"
    have "?q < 1048576" using assms 3 by (simp add: scalar_def)
    then have "?q div 1024 \<le> 1023" by (simp add: less_mult_imp_div_less flip: less_Suc_eq_le)
    moreover have "?q mod 1024 \<le> 1023" by (simp add: mod_less_eq_dividend flip: less_Suc_eq_le)
    moreover have "65536 + ?q div 1024 * 1024 + ?q mod 1024 = p" using 3 by (simp add: div_mult_mod_eq add.assoc)
    ultimately show ?thesis
      using 3 json_str_pair [of "55296 + ?q div 1024" "56320 + ?q mod 1024" r] by (simp add: escape_point_def)
  qed
qed

text \<open>UTF-8 gives back the bytes the code points were read from.\<close>

lemma utf8_two:
  assumes "194 \<le> n" and "n < 224" and "b < 64"
  shows "utf8 ((n - 192) * 64 + b) = [char_of n, char_of (128 + b)]"
proof -
  have "2 * 64 \<le> (n - 192) * 64" "(n - 192) * 64 \<le> 31 * 64" using assms(1,2) by (simp_all add: mult_le_mono1)
  then show ?thesis using assms by (simp add: utf8_def)
qed

lemma utf8_three:
  assumes "224 \<le> n" and "n < 240" and "b < 64" and "c < 64" and "n = 224 \<Longrightarrow> 32 \<le> b"
  shows "utf8 ((n - 224) * 4096 + b * 64 + c) = [char_of n, char_of (128 + b), char_of (128 + c)]"
proof -
  let ?p = "(n - 224) * 4096 + b * 64 + c"
  have "2048 \<le> ?p" using assms(1,5) by (cases "n = 224") auto
  moreover have "?p < 65536" using assms(2,3,4) by auto
  moreover have q: "?p div 64 = (n - 224) * 64 + b" using assms(4) by (simp add: div_mult_self3 algebra_simps)
  moreover have "?p div 4096 = n - 224" using q assms(3) div_mult2_eq [of ?p 64 64] by simp
  moreover have "?p mod 64 = c" using assms(4) by (simp add: mod_add_left_eq [symmetric] mod_mult_left_eq)
  ultimately show ?thesis using assms(1,3) by (simp add: utf8_def)
qed

lemma utf8_four:
  assumes "240 \<le> n" and "n < 245" and "b < 64" and "c < 64" and "d < 64" and "n = 240 \<Longrightarrow> 16 \<le> b"
  shows "utf8 ((n - 240) * 262144 + b * 4096 + c * 64 + d) = [char_of n, char_of (128 + b), char_of (128 + c), char_of (128 + d)]"
proof -
  let ?p = "(n - 240) * 262144 + b * 4096 + c * 64 + d"
  have "65536 \<le> ?p" using assms(1,6) by (cases "n = 240") auto
  moreover have q: "?p div 64 = (n - 240) * 4096 + b * 64 + c" using assms(5) by simp
  moreover have q': "?p div 4096 = (n - 240) * 64 + b"
  proof -
    have "?p div 4096 = (((n - 240) * 64 + b) * 64 + c) div 64"
      using q div_mult2_eq [of ?p 64 64] by (simp add: algebra_simps)
    then show ?thesis using assms(4) by simp
  qed
  moreover have "?p div 262144 = n - 240" using q' assms(3) div_mult2_eq [of ?p 4096 64] by simp
  moreover have "?p div 64 mod 64 = c"
  proof -
    have "?p div 64 div 64 = (n - 240) * 64 + b" using q' div_mult2_eq [of ?p 64 64] by linarith
    then show ?thesis using q div_mult_mod_eq [of "?p div 64" 64] by linarith
  qed
  moreover have "?p mod 64 = d" using q div_mult_mod_eq [of ?p 64] by linarith
  ultimately show ?thesis using assms(1,3,4) by (simp add: utf8_def del: One_nat_def)
qed

lemma utf8_cont_low6: "utf8_cont c \<Longrightarrow> low6 c < 64 \<and> of_char c = 128 + low6 c \<and> char_of (128 + low6 c) = c"
proof -
  assume "utf8_cont c"
  then have "128 \<le> (of_char c :: nat)" "(of_char c :: nat) < 192" by (simp_all add: utf8_cont_def Let_def)
  then have "low6 c < 64" "of_char c = 128 + low6 c" unfolding low6_def by linarith+
  then show ?thesis by (metis char_of_char)
qed

lemma utf8_of_points: "utf8_valid s \<Longrightarrow> concat (map utf8 (code_points s)) = s"
proof (induction s rule: utf8_valid.induct)
  case (2 a s)
  let ?n = "of_char a :: nat"
  consider "?n < 128" | "194 \<le> ?n" "?n < 224" | "224 \<le> ?n" "?n < 240" | "240 \<le> ?n" "?n < 245"
    using 2 by (auto simp: Let_def split: if_splits)
  then show ?case
  proof cases
    case 1
    then show ?thesis using 2 by (simp add: utf8_def)
  next
    case m: 2
    then obtain b t where s: "s = b # t" and b: "utf8_cont b" and t: "utf8_valid t"
      using 2 by (auto simp: Let_def split: list.splits)
    then show ?thesis using m 2 utf8_two [of ?n "low6 b"] utf8_cont_low6 [OF b] by (simp add: Let_def)
  next
    case m: 3
    then obtain b c t where s: "s = b # c # t" and b: "utf8_cont b" and c: "utf8_cont c"
      and g: "?n = 224 \<longrightarrow> 160 \<le> (of_char b :: nat)" and t: "utf8_valid t"
      using 2 by (auto simp: Let_def split: list.splits)
    then show ?thesis using m 2 utf8_three [of ?n "low6 b" "low6 c"] utf8_cont_low6 [OF b] utf8_cont_low6 [OF c]
      by (simp add: Let_def)
  next
    case m: 4
    then obtain b c d t where s: "s = b # c # d # t" and b: "utf8_cont b" and c: "utf8_cont c" and d: "utf8_cont d"
      and g: "?n = 240 \<longrightarrow> 144 \<le> (of_char b :: nat)" and t: "utf8_valid t"
      using 2 by (auto simp: Let_def split: list.splits)
    then show ?thesis using m 2 utf8_four [of ?n "low6 b" "low6 c" "low6 d"] utf8_cont_low6 [OF b] utf8_cont_low6 [OF c]
        utf8_cont_low6 [OF d] by (simp add: Let_def)
  qed
qed simp

lemma json_str_ascii:
  assumes "unicode_text s"
  shows "json_str (concat (map escape_point (code_points s)) @ CHR 0x22 # r) = Some (s, r)"
proof -
  have "json_str (concat (map escape_point ps) @ CHR 0x22 # r) = Some (concat (map utf8 ps), r)" if "list_all scalar ps" for ps
    using that by (induction ps) (simp_all add: json_str_point json_str.simps)
  from this [of "code_points s"] show ?thesis using assms by (simp add: unicode_text_def utf8_of_points)
qed

subsection \<open>The file\<close>

text \<open>What a record must be for its text to carry it: its strings Unicode, its numbers printable
  (\<open>repr\<close> reads back, no integer beyond Python's digit limit).\<close>

definition writable :: "(real \<Rightarrow> string) \<Rightarrow> api_key_record \<Rightarrow> bool" where
  "writable fr r \<longleftrightarrow>
     list_all unicode_text (ak_keyid r # ak_hash r # ak_label r # ak_scopes r) \<and>
     printable fr (json_of_real (ak_expires_at r)) \<and> printable fr (json_of_int (ak_token_budget r)) \<and>
     printable fr (json_of_int (ak_max_concurrency r))"

lemma writes_ascii [simp]: "unicode_text s \<Longrightarrow> writes indented s"
  by (simp add: writes_def dumps_ascii_def json_str_ascii)

lemma spaced_indented [simp]: "spaced indented"
  by (simp add: spaced_def indent_line_def json_space_def list_all_iff)

lemma unicode_ascii: "list_all (\<lambda>c. (of_char c :: nat) < 128) s \<Longrightarrow> unicode_text s"
  by (induction s) (simp_all add: unicode_text_def scalar_def)

lemma record_fits:
  assumes "writable fr r"
  shows "printable fr (JObj (to_json r)) \<and> fits indented (JObj (to_json r))"
  using assms unfolding writable_def to_json_def
  by (auto simp: unicode_ascii list_all_iff json_of_real_def json_of_int_def split: option.splits)

lemma writable_store:
  assumes "\<And>r. Add r \<in> set ops \<Longrightarrow> writable fr r" and "(k, r) \<in> set (foldl store_do [] ops)"
  shows "writable fr r"
proof -
  have "\<forall>(k, r) \<in> set (foldl store_do st ops). writable fr r" if "\<forall>(k, r) \<in> set st. writable fr r" for st
    using that assms(1)
  proof (induction ops arbitrary: st)
    case (Cons x ops)
    have "\<forall>(k, r) \<in> set (store_do st x). writable fr r"
      using Cons.prems
      by (cases x)
        (fastforce simp: store_do_def add_key_def revoke_def writable_def dest!: dict_set_vals dest: map_of_SomeD split: option.splits)+
    then show ?case using Cons.IH [of "store_do st x"] Cons.prems(2) by simp
  qed simp
  from this [of "[]"] assms(2) show ?thesis by auto
qed

text \<open>C23. What is saved is what is loaded: the text \<open>save\<close> writes for any store that \<open>add\<close> and
  \<open>revoke\<close> can build, escapes and indentation included, is read back by \<open>reload\<close> as the same
  store, every field of every record and the order of the keys, so a revocation survives a
  save and a reload. The records' strings may hold any Unicode text.\<close>

theorem key_file_reads_back:
  assumes "\<And>r. Add r \<in> set ops \<Longrightarrow> writable fr r"
  shows "reload (Some (save_text fr (foldl store_do [] ops))) = Inr (foldl store_do [] ops)"
proof -
  let ?st = "foldl store_do [] ops"
  have w: "writable fr r" if "(k, r) \<in> set ?st" for k r using writable_store [OF assms that] .
  have "printable fr (save_payload ?st)" and "fits indented (save_payload ?st)"
    using record_fits [OF w] by (auto simp: save_payload_def unicode_ascii)
  then have "json_loads (save_text fr ?st) = Some (save_payload ?st)"
    unfolding save_text_def by (intro loads_text) simp_all
  moreover have "save_text fr ?st \<noteq> []" by (simp add: save_text_def save_payload_def)
  ultimately show ?thesis by (simp add: reload_def save_load)
qed

definition demo_key :: api_key_record where
  "demo_key =
     \<lparr>ak_keyid = ''a1'', ak_hash = ''h'', ak_scopes = [''chat'', ''metrics''], ak_expires_at = Some (1 / 2),
      ak_revoked = False, ak_label = [CHR 0xC3, CHR 0xA9, CHR 0x0A, CHR 0x22, CHR 0xF0, CHR 0x9F, CHR 0x98, CHR 0x80],
      ak_token_budget = Some 400, ak_max_concurrency = None\<rparr>"

theorem key_file_reads_back_witness:
  "reload (Some (save_text demo_fr [(''a1'', demo_key\<lparr>ak_revoked := True\<rparr>)])) =
     Inr [(''a1'', demo_key\<lparr>ak_revoked := True\<rparr>)]"
proof -
  have "nat_digits 400 = ''400''" by (simp add: nat_digits.simps char_of_digits)
  then have "writable demo_fr demo_key"
    using demo_prints
    by (simp add: writable_def demo_key_def unicode_ascii json_of_real_def json_of_int_def short_int_def max_str_digits_def)
      (simp add: unicode_text_def utf8_cont_def low6_def scalar_def)
  moreover have "foldl store_do [] [Add demo_key, Revoke ''a1''] = [(''a1'', demo_key\<lparr>ak_revoked := True\<rparr>)]"
    by (simp add: store_do_def add_key_def revoke_def demo_key_def)
  ultimately show ?thesis using key_file_reads_back [of "[Add demo_key, Revoke ''a1'']" demo_fr] by simp
qed

end
