(* ===== verification/Stub.thy ===== *)
theory Stub
  imports Auth Json_Out
begin

section \<open>The stub upstream (stub/server.py)\<close>

text \<open>
  The fake OpenAI server the gateway is developed against. Its module state is the record
  \<open>stub_state\<close>; each endpoint is a function of the state and the clock. SHA-256 is the
  parameter \<open>sha\<close> (a text's digest, as bytes) and \<open>repr\<close> of a float the parameter \<open>fr\<close>.
  The chat handler is split where it awaits: \<open>chat_enter\<close> runs up to the admission
  semaphore, \<open>chat_admitted\<close> and \<open>chat_decoded\<close> around the simulated decode, and
  \<open>chat_answer\<close> builds the response. The cancellation of a handler is a step of \<open>stub_step\<close> (Stub_Laws).
\<close>

definition STUB_MODEL :: string where "STUB_MODEL = ''Qwen/Qwen3-8B-AWQ''"

definition STUB_WORDS :: "string list" where
  "STUB_WORDS =
     [''the'', ''asset'', ''portfolio'', ''position'', ''reported'', ''quarter'', ''value'',
      ''token'', ''supply'', ''investor'', ''compliance'', ''review'', ''figure'', ''record'',
      ''allocation'', ''yield'', ''treasury'', ''balance'', ''status'', ''summary'']"

record stub_state =
  su_think :: bool
  su_latency :: real
  su_fail_after :: "int option"
  su_requests :: int
  su_running :: int
  su_waiting :: int
  su_generated_tokens :: int
  su_wedge :: bool
  su_fail_until :: "real option"
  su_control_enabled :: bool
  su_fail_mode :: string
  su_fail_status :: int
  su_fail_first_n :: int
  su_max_concurrent :: int
  su_sem :: "int option"

definition new_stub :: stub_state where
  "new_stub =
     \<lparr>su_think = False, su_latency = 0, su_fail_after = None, su_requests = 0, su_running = 0, su_waiting = 0,
      su_generated_tokens = 0, su_wedge = False, su_fail_until = None, su_control_enabled = False,
      su_fail_mode = ''chat'', su_fail_status = 503, su_fail_first_n = 0, su_max_concurrent = 0, su_sem = None\<rparr>"

text \<open>The \<open>sem\<close> property: the free permits of the semaphore, built on first use.
  \<open>asyncio.Semaphore\<close> refuses a negative count.\<close>

definition stub_sem :: "stub_state \<Rightarrow> py_exn + int \<times> stub_state" where
  "stub_sem st =
     (case su_sem st of
        Some n \<Rightarrow> Inr (n, st)
      | None \<Rightarrow>
          (let n = (if su_max_concurrent st \<noteq> 0 then su_max_concurrent st else 1024)
           in if n < 0 then Inl ValueError else Inr (n, st\<lparr>su_sem := Some n\<rparr>)))"

subsection \<open>Deterministic text\<close>

definition py_upper_char :: "char \<Rightarrow> char" where
  "py_upper_char c =
     (let n = (of_char c :: nat) in if 97 \<le> n \<and> n \<le> 122 then char_of (n - 32) else c)"

definition word_at :: "nat list \<Rightarrow> nat \<Rightarrow> string" where
  "word_at digest i = STUB_WORDS ! (digest ! (i mod length digest) mod length STUB_WORDS)"

definition deterministic_text :: "(string \<Rightarrow> nat list) \<Rightarrow> string \<Rightarrow> int \<Rightarrow> string" where
  "deterministic_text sha seed_material n_tokens =
     (let digest = sha seed_material;
          out = map (word_at digest) [0..<nat (max 1 n_tokens)];
          text = py_join '' '' out
      in py_upper_char (hd text) # tl text @ ''.'')"

definition seed_of :: "(real \<Rightarrow> string) \<Rightarrow> (string \<times> json) list \<Rightarrow> string" where
  "seed_of fr body = json_dumps fr (sort_keys (get_default body ''messages'' (JArr [])))"

definition completion_text ::
  "(real \<Rightarrow> string) \<Rightarrow> (string \<Rightarrow> nat list) \<Rightarrow> stub_state \<Rightarrow> (string \<times> json) list \<Rightarrow> int \<Rightarrow> string" where
  "completion_text fr sha st body n_tokens =
     (let text = deterministic_text sha (seed_of fr body) n_tokens in
      if \<not> su_think st then text
      else ''<think>'' @ [CHR 0x0A] @ deterministic_text sha (''think'' @ seed_of fr body) 40 @
           [CHR 0x0A] @ ''</think>'' @ [CHR 0x0A, CHR 0x0A] @ text)"

subsection \<open>Failure modes and the simple endpoints\<close>

datatype stub_answer = Stub_json json | Stub_text string | Stub_error int string | Stub_raises py_exn

record control_body =
  ct_fail :: "bool option"
  ct_fail_status :: "int option"
  ct_fail_mode :: "string option"
  ct_latency :: "real option"
  ct_wedge :: "bool option"

definition or_keep :: "'a option \<Rightarrow> 'a \<Rightarrow> 'a" where
  "or_keep v old = (case v of None \<Rightarrow> old | Some x \<Rightarrow> x)"

definition control :: "control_body \<Rightarrow> stub_state \<Rightarrow> stub_answer \<times> stub_state" where
  "control c st =
     (if \<not> su_control_enabled st then (Stub_error 404 ''not found'', st)
      else
        (let st = (case ct_fail c of
                     None \<Rightarrow> st
                   | Some b \<Rightarrow> st\<lparr>su_fail_after := (if b then Some 0 else None), su_fail_until := None\<rparr>);
             st = st\<lparr>su_fail_status := or_keep (ct_fail_status c) (su_fail_status st),
                     su_fail_mode := or_keep (ct_fail_mode c) (su_fail_mode st),
                     su_latency := or_keep (ct_latency c) (su_latency st),
                     su_wedge := or_keep (ct_wedge c) (su_wedge st)\<rparr>
         in (Stub_json (JObj
               [(''ok'', JBool True),
                (''fail_after'', json_of_int (su_fail_after st)),
                (''wedge'', JBool (su_wedge st)),
                (''requests'', JInt (su_requests st))]), st)))"

definition should_fail :: "real \<Rightarrow> stub_state \<Rightarrow> bool \<times> stub_state" where
  "should_fail now st =
     (let st = (case su_fail_until st of
                  Some t \<Rightarrow> if now \<ge> t then st\<lparr>su_fail_after := None, su_fail_until := None\<rparr> else st
                | None \<Rightarrow> st)
      in (case su_fail_after st of
            Some n \<Rightarrow> if su_requests st > n then True
                      else su_fail_first_n st > 0 \<and> su_requests st \<le> su_fail_first_n st
          | None \<Rightarrow> su_fail_first_n st > 0 \<and> su_requests st \<le> su_fail_first_n st, st))"

text \<open>\<open>state.fail_mode == "all" and _should_fail()\<close>.\<close>

definition all_fails :: "real \<Rightarrow> stub_state \<Rightarrow> bool \<times> stub_state" where
  "all_fails now st = (if su_fail_mode st = ''all'' then should_fail now st else (False, st))"

definition stub_health :: "real \<Rightarrow> stub_state \<Rightarrow> stub_answer \<times> stub_state" where
  "stub_health now st =
     (let (bad, st) = all_fails now st in
      if bad then (Stub_error (su_fail_status st) ''stub: simulated outage'', st)
      else (Stub_json (JObj [(''status'', JStr ''ok'')]), st))"

definition stub_models :: "real \<Rightarrow> stub_state \<Rightarrow> stub_answer \<times> stub_state" where
  "stub_models now st =
     (let (bad, st) = all_fails now st in
      if bad then (Stub_error (su_fail_status st) ''stub: simulated outage'', st)
      else (Stub_json (JObj
              [(''object'', JStr ''list''),
               (''data'', JArr [JObj [(''id'', JStr STUB_MODEL), (''object'', JStr ''model''),
                                      (''created'', JInt \<lfloor>now\<rfloor>), (''owned_by'', JStr ''stub'')]])]), st))"

subsection \<open>The exposition\<close>

definition quote :: "string \<Rightarrow> string" where
  "quote s = CHR 0x22 # s @ [CHR 0x22]"

definition STUB_LABELS :: string where
  "STUB_LABELS = ''engine='' @ quote ''0'' @ '',model_name='' @ quote STUB_MODEL"

text \<open>One sample line and one \<open># TYPE\<close> line.\<close>

definition sample_line :: "string \<Rightarrow> string \<Rightarrow> string \<Rightarrow> string" where
  "sample_line name labels value = name @ ''{'' @ labels @ ''} '' @ value"

definition type_line :: "string \<Rightarrow> string \<Rightarrow> string" where
  "type_line name kind = ''# TYPE '' @ name @ '' '' @ kind"

definition stub_metrics :: "(real \<Rightarrow> string) \<Rightarrow> stub_state \<Rightarrow> stub_answer" where
  "stub_metrics fr st =
     (let created = fr (1789056823729462 / 1000000);
          num = (\<lambda>i. fr (of_int i));
          plain = (\<lambda>name value. sample_line name STUB_LABELS value);
          labelled = (\<lambda>name extra value. sample_line name (STUB_LABELS @ '','' @ extra) value)
      in Stub_text (py_join [CHR 0x0A]
           [type_line ''vllm:num_requests_running'' ''gauge'',
            plain ''vllm:num_requests_running'' (num (su_running st)),
            type_line ''vllm:num_requests_waiting'' ''gauge'',
            plain ''vllm:num_requests_waiting'' (num (su_waiting st)),
            type_line ''vllm:num_requests_waiting_by_reason'' ''gauge'',
            labelled ''vllm:num_requests_waiting_by_reason'' (''reason='' @ quote ''capacity'') (num (su_waiting st)),
            labelled ''vllm:num_requests_waiting_by_reason'' (''reason='' @ quote ''deferred'') ''0.0'',
            type_line ''vllm:kv_cache_usage_perc'' ''gauge'',
            plain ''vllm:kv_cache_usage_perc'' ''0.0'',
            type_line ''vllm:generation_tokens_total'' ''counter'',
            plain ''vllm:generation_tokens_total'' (num (su_generated_tokens st)),
            type_line ''vllm:generation_tokens_created'' ''gauge'',
            plain ''vllm:generation_tokens_created'' created,
            type_line ''vllm:prompt_tokens_total'' ''counter'',
            plain ''vllm:prompt_tokens_total'' ''0.0'',
            type_line ''vllm:num_preemptions_total'' ''counter'',
            plain ''vllm:num_preemptions_total'' ''0.0'',
            type_line ''vllm:prefix_cache_queries_total'' ''counter'',
            plain ''vllm:prefix_cache_queries_total'' ''0.0'',
            type_line ''vllm:prefix_cache_hits_total'' ''counter'',
            plain ''vllm:prefix_cache_hits_total'' ''0.0'',
            type_line ''vllm:time_to_first_token_seconds'' ''histogram'',
            labelled ''vllm:time_to_first_token_seconds_bucket'' (''le='' @ quote ''+Inf'') ''0.0'',
            plain ''vllm:time_to_first_token_seconds_sum'' ''0.0'',
            plain ''vllm:time_to_first_token_seconds_count'' ''0.0'',
            []]))"

subsection \<open>The chat handler\<close>

text \<open>A request past its checks: what it needs to be answered after the decode.\<close>

record chat_job =
  jb_body :: "(string \<times> json) list"
  jb_text :: string
  jb_prompt_tokens :: int
  jb_completion_tokens :: int

datatype stub_entry = Entry_error int string | Entry_raises py_exn | Entry_hangs | Entry_queued chat_job

text \<open>\<open>sum(len(str(m.get("content", "")).split()) for m in body["messages"])\<close>; the messages are
  truthy here. Iterating a text or an object gives texts, which have no \<open>get\<close>.\<close>

fun words_of_messages :: "(real \<Rightarrow> string) \<Rightarrow> json list \<Rightarrow> py_exn + int" where
  "words_of_messages fr [] = Inr 0"
| "words_of_messages fr (m # ms) =
     (case m of
        JObj o' \<Rightarrow>
          bindE (words_of_messages fr ms) (\<lambda>n.
            Inr (int (length (py_split (py_str fr (get_default o' ''content'' (JStr []))))) + n))
      | _ \<Rightarrow> Inl AttributeError)"

definition prompt_words :: "(real \<Rightarrow> string) \<Rightarrow> json \<Rightarrow> py_exn + int" where
  "prompt_words fr messages =
     (case messages of
        JArr ms \<Rightarrow> words_of_messages fr ms
      | JStr s \<Rightarrow> Inl AttributeError
      | JObj o' \<Rightarrow> Inl AttributeError
      | _ \<Rightarrow> Inl TypeError)"

definition chat_enter ::
  "(real \<Rightarrow> string) \<Rightarrow> (string \<Rightarrow> nat list) \<Rightarrow> real \<Rightarrow> string \<Rightarrow> stub_state \<Rightarrow> stub_entry \<times> stub_state" where
  "chat_enter fr sha now raw st =
     (case json_loads_bytes raw of
        None \<Rightarrow> (Entry_raises ValueError, st)
      | Some v \<Rightarrow>
          (let st = st\<lparr>su_requests := su_requests st + 1\<rparr>;
               (bad, st) = should_fail now st
           in if bad then (Entry_error (su_fail_status st) ''stub: simulated overload'', st)
              else
                (case v of
                   JObj body \<Rightarrow>
                     (let messages = get_default body ''messages'' JNull in
                      if \<not> json_truth messages then (Entry_error 400 ''messages is required'', st)
                      else if su_wedge st then (Entry_hangs, st\<lparr>su_waiting := su_waiting st + 1\<rparr>)
                      else
                        (case py_int (py_or (get_default body ''max_tokens'' JNull) (JInt 64)) of
                           Inl e \<Rightarrow> (Entry_raises e, st)
                         | Inr max_tokens \<Rightarrow>
                             (let text = completion_text fr sha st body max_tokens in
                              case prompt_words fr messages of
                                Inl e \<Rightarrow> (Entry_raises e, st)
                              | Inr n \<Rightarrow>
                                  (Entry_queued \<lparr>jb_body = body, jb_text = text, jb_prompt_tokens = n,
                                                 jb_completion_tokens = int (length (py_split text))\<rparr>,
                                   st\<lparr>su_waiting := su_waiting st + 1\<rparr>))))
                 | _ \<Rightarrow> (Entry_raises AttributeError, st))))"

text \<open>The semaphore grants a permit, if there is one; then the decode ends and gives it back.\<close>

definition chat_admitted :: "stub_state \<Rightarrow> py_exn + stub_state option" where
  "chat_admitted st =
     bindE (stub_sem st) (\<lambda>(n, st).
       Inr (if n = 0 then None
            else Some (st\<lparr>su_sem := Some (n - 1), su_waiting := su_waiting st - 1, su_running := su_running st + 1\<rparr>)))"

definition chat_decoded :: "stub_state \<Rightarrow> stub_state" where
  "chat_decoded st = st\<lparr>su_running := su_running st - 1, su_sem := map_option (\<lambda>n. n + 1) (su_sem st)\<rparr>"

definition usage_of_job :: "chat_job \<Rightarrow> (string \<times> json) list" where
  "usage_of_job j =
     [(''prompt_tokens'', JInt (jb_prompt_tokens j)), (''completion_tokens'', JInt (jb_completion_tokens j)),
      (''total_tokens'', JInt (jb_prompt_tokens j + jb_completion_tokens j))]"

subsection \<open>The stream\<close>

definition stream_payload :: "string \<Rightarrow> int \<Rightarrow> json \<Rightarrow> (string \<times> json) list \<Rightarrow> json \<Rightarrow> json" where
  "stream_payload cid created model delta finish =
     JObj [(''id'', JStr cid), (''object'', JStr ''chat.completion.chunk''), (''created'', JInt created),
           (''model'', model),
           (''choices'', JArr [JObj [(''index'', JInt 0), (''delta'', JObj delta), (''finish_reason'', finish)]])]"

definition sse :: "string \<Rightarrow> string" where
  "sse text = ''data: '' @ text @ [CHR 0x0A, CHR 0x0A]"

definition frame ::
  "(real \<Rightarrow> string) \<Rightarrow> string \<Rightarrow> int \<Rightarrow> json \<Rightarrow> (string \<times> json) list \<Rightarrow> json \<Rightarrow> string" where
  "frame fr cid created model delta finish = sse (json_dumps fr (stream_payload cid created model delta finish))"

definition usage_payload :: "string \<Rightarrow> int \<Rightarrow> json \<Rightarrow> (string \<times> json) list \<Rightarrow> json" where
  "usage_payload cid created model usage =
     JObj [(''id'', JStr cid), (''object'', JStr ''chat.completion.chunk''), (''created'', JInt created),
           (''model'', model), (''choices'', JArr []), (''usage'', JObj usage)]"

text \<open>The state changes of a stream: it starts, it sends a word, it ends (or is abandoned).\<close>

definition stream_begins :: "stub_state \<Rightarrow> stub_state" where
  "stream_begins st = st\<lparr>su_running := su_running st + 1\<rparr>"

definition stream_counts :: "stub_state \<Rightarrow> stub_state" where
  "stream_counts st = st\<lparr>su_generated_tokens := su_generated_tokens st + 1\<rparr>"

definition stream_ends :: "stub_state \<Rightarrow> stub_state" where
  "stream_ends st = st\<lparr>su_running := su_running st - 1\<rparr>"

text \<open>Everything \<open>_stream\<close> yields, in order, with the server state when the piece is sent (the
  state the next reader of \<open>/metrics\<close> sees, if no other request is served meanwhile); the last
  state is the one at its end.\<close>

fun stream_words ::
  "(real \<Rightarrow> string) \<Rightarrow> string \<Rightarrow> int \<Rightarrow> json \<Rightarrow> string list \<Rightarrow> stub_state \<Rightarrow> (string \<times> stub_state) list \<times> stub_state" where
  "stream_words fr cid created model [] st = ([], st)"
| "stream_words fr cid created model (w # ws) st =
     (let st = stream_counts st;
          piece = frame fr cid created model [(''content'', JStr (w @ '' ''))] JNull;
          (rest, st') = stream_words fr cid created model ws st
      in ((piece, st) # rest, st'))"

definition stub_stream ::
  "(real \<Rightarrow> string) \<Rightarrow> string \<Rightarrow> int \<Rightarrow> json \<Rightarrow> string \<Rightarrow> (string \<times> json) list option \<Rightarrow> stub_state \<Rightarrow>
   (string \<times> stub_state) list \<times> stub_state" where
  "stub_stream fr cid created model text usage st =
     (let st = stream_begins st;
          opening = (frame fr cid created model [(''role'', JStr ''assistant''), (''content'', JStr [])] JNull, st);
          (words, st) = stream_words fr cid created model (py_split text) st;
          closing = (frame fr cid created model [] (JStr ''stop''), st);
          st = stream_ends st;
          final = (case usage of
                     None \<Rightarrow> []
                   | Some u \<Rightarrow> [(sse (json_dumps fr (usage_payload cid created model u)), st)])
      in (opening # words @ [closing] @ final @ [(sse ''[DONE]'', st)], st))"

text \<open>What the handler answers after the decode: a stream (not yet running) or the completion.\<close>

datatype chat_reply = Reply_stream json string "(string \<times> json) list option" | Reply_json json

definition chat_answer :: "string \<Rightarrow> int \<Rightarrow> chat_job \<Rightarrow> stub_state \<Rightarrow> (py_exn + chat_reply) \<times> stub_state" where
  "chat_answer cid created j st =
     (let body = jb_body j; model = get_default body ''model'' (JStr STUB_MODEL) in
      if json_truth (get_default body ''stream'' JNull) then
        (case py_or (get_default body ''stream_options'' JNull) (JObj []) of
           JObj options \<Rightarrow>
             (Inr (Reply_stream model (jb_text j)
                (if json_truth (get_default options ''include_usage'' JNull) then Some (usage_of_job j) else None)), st)
         | _ \<Rightarrow> (Inl AttributeError, st))
      else
        (Inr (Reply_json (JObj
           [(''id'', JStr cid), (''object'', JStr ''chat.completion''), (''created'', JInt created), (''model'', model),
            (''choices'', JArr [JObj [(''index'', JInt 0),
               (''message'', JObj [(''role'', JStr ''assistant''), (''content'', JStr (jb_text j))]),
               (''finish_reason'', JStr ''stop'')]]),
            (''usage'', JObj (usage_of_job j))])),
         st\<lparr>su_generated_tokens := su_generated_tokens st + jb_completion_tokens j\<rparr>))"

subsection \<open>The command line\<close>

record stub_args =
  sa_think :: bool
  sa_latency :: real
  sa_fail_after :: "int option"
  sa_control :: bool
  sa_fail_seconds :: "real option"
  sa_fail_mode :: string
  sa_fail_status :: int
  sa_fail_first_n :: int
  sa_wedge :: bool
  sa_max_concurrent :: int

definition stub_arg_defaults :: stub_args where
  "stub_arg_defaults =
     \<lparr>sa_think = False, sa_latency = 0, sa_fail_after = None, sa_control = False, sa_fail_seconds = None,
      sa_fail_mode = ''chat'', sa_fail_status = 503, sa_fail_first_n = 0, sa_wedge = False, sa_max_concurrent = 0\<rparr>"

definition stub_configure :: "stub_args \<Rightarrow> real \<Rightarrow> stub_state \<Rightarrow> stub_state" where
  "stub_configure args now st =
     st\<lparr>su_think := sa_think args, su_latency := sa_latency args, su_fail_after := sa_fail_after args,
        su_wedge := sa_wedge args, su_control_enabled := sa_control args, su_fail_mode := sa_fail_mode args,
        su_fail_status := sa_fail_status args, su_fail_first_n := sa_fail_first_n args,
        su_fail_until := (case sa_fail_seconds args of None \<Rightarrow> su_fail_until st | Some s \<Rightarrow> Some (now + s)),
        su_max_concurrent := sa_max_concurrent args\<rparr>"

end
