(* ===== verification/Stub_Laws.thy ===== *)
theory Stub_Laws
  imports Gateway Stub
begin

section \<open>What the stub promises, and the gateway in front of it\<close>

text \<open>
  The stub's gauges under every interleaving of its requests; its stream as the gateway's
  relay reads it; and the gateway's retry against a stub that fails its first requests.
\<close>

subsection \<open>Many requests on one server\<close>

text \<open>The server with its requests: those queued at the semaphore, those that hang, those decoding,
  the streams answered but not yet begun, and the ones running. A step is what one of them, or
  an endpoint, does between two awaits. A handler may be cancelled at an await: one that decodes
  leaves through its \<open>finally\<close>, one that waits (queued or hung) through none, and \<open>ss_lost\<close>
  counts those, as well as the ones a \<open>ValueError\<close> ends because the semaphore cannot be made (a negative
  \<open>--stub-max-concurrent\<close>), answered 500. A cancelled stream ends as a finished one does.\<close>

record stub_sys =
  ss_server :: stub_state
  ss_queued :: "chat_job list"
  ss_hung :: nat
  ss_decoding :: "chat_job list"
  ss_streams :: nat
  ss_lost :: nat

inductive stub_step ::
  "(real \<Rightarrow> string) \<Rightarrow> (string \<Rightarrow> nat list) \<Rightarrow> stub_sys \<Rightarrow> stub_sys \<Rightarrow> bool"
  for fr :: "real \<Rightarrow> string" and sha :: "string \<Rightarrow> nat list"
where
  queue: "chat_enter fr sha now raw (ss_server s) = (Entry_queued j, t) \<Longrightarrow>
    stub_step fr sha s (s\<lparr>ss_server := t, ss_queued := j # ss_queued s\<rparr>)"
| hang: "chat_enter fr sha now raw (ss_server s) = (Entry_hangs, t) \<Longrightarrow>
    stub_step fr sha s (s\<lparr>ss_server := t, ss_hung := ss_hung s + 1\<rparr>)"
| refuse: "chat_enter fr sha now raw (ss_server s) = (e, t) \<Longrightarrow> \<nexists>j. e = Entry_queued j \<Longrightarrow> e \<noteq> Entry_hangs \<Longrightarrow>
    stub_step fr sha s (s\<lparr>ss_server := t\<rparr>)"
| admit: "j \<in> set (ss_queued s) \<Longrightarrow> chat_admitted (ss_server s) = Inr (Some t) \<Longrightarrow>
    stub_step fr sha s (s\<lparr>ss_server := t, ss_queued := remove1 j (ss_queued s), ss_decoding := j # ss_decoding s\<rparr>)"
| unadmitted: "j \<in> set (ss_queued s) \<Longrightarrow> chat_admitted (ss_server s) = Inl e \<Longrightarrow>
    stub_step fr sha s (s\<lparr>ss_queued := remove1 j (ss_queued s), ss_lost := ss_lost s + 1\<rparr>)"
| answer: "j \<in> set (ss_decoding s) \<Longrightarrow> chat_answer cid created j (chat_decoded (ss_server s)) = (r, t) \<Longrightarrow>
    stub_step fr sha s (s\<lparr>ss_server := t, ss_decoding := remove1 j (ss_decoding s)\<rparr>)"
| cancel_decoding: "j \<in> set (ss_decoding s) \<Longrightarrow>
    stub_step fr sha s (s\<lparr>ss_server := chat_decoded (ss_server s), ss_decoding := remove1 j (ss_decoding s)\<rparr>)"
| cancel_queued: "j \<in> set (ss_queued s) \<Longrightarrow>
    stub_step fr sha s (s\<lparr>ss_queued := remove1 j (ss_queued s), ss_lost := ss_lost s + 1\<rparr>)"
| cancel_hung: "0 < ss_hung s \<Longrightarrow> stub_step fr sha s (s\<lparr>ss_hung := ss_hung s - 1, ss_lost := ss_lost s + 1\<rparr>)"
| stream: "stub_step fr sha s (s\<lparr>ss_server := stream_begins (ss_server s), ss_streams := ss_streams s + 1\<rparr>)"
| word: "0 < ss_streams s \<Longrightarrow> stub_step fr sha s (s\<lparr>ss_server := stream_counts (ss_server s)\<rparr>)"
| finish: "0 < ss_streams s \<Longrightarrow>
    stub_step fr sha s (s\<lparr>ss_server := stream_ends (ss_server s), ss_streams := ss_streams s - 1\<rparr>)"
| control: "control c (ss_server s) = (r, t) \<Longrightarrow> stub_step fr sha s (s\<lparr>ss_server := t\<rparr>)"
| health: "stub_health now (ss_server s) = (r, t) \<Longrightarrow> stub_step fr sha s (s\<lparr>ss_server := t\<rparr>)"
| models: "stub_models now (ss_server s) = (r, t) \<Longrightarrow> stub_step fr sha s (s\<lparr>ss_server := t\<rparr>)"

inductive stub_reachable ::
  "(real \<Rightarrow> string) \<Rightarrow> (string \<Rightarrow> nat list) \<Rightarrow> stub_args \<Rightarrow> stub_sys \<Rightarrow> bool"
  for fr :: "real \<Rightarrow> string" and sha :: "string \<Rightarrow> nat list" and args :: stub_args
where
  boot: "stub_reachable fr sha args
    \<lparr>ss_server = stub_configure args now new_stub, ss_queued = [], ss_hung = 0, ss_decoding = [], ss_streams = 0, ss_lost = 0\<rparr>"
| step: "stub_reachable fr sha args s \<Longrightarrow> stub_step fr sha s t \<Longrightarrow> stub_reachable fr sha args t"

definition permits :: "stub_args \<Rightarrow> int" where
  "permits args = (if sa_max_concurrent args \<noteq> 0 then sa_max_concurrent args else 1024)"

definition stub_inv :: "stub_args \<Rightarrow> stub_sys \<Rightarrow> bool" where
  "stub_inv args s \<longleftrightarrow>
     su_waiting (ss_server s) = int (length (ss_queued s) + ss_hung s + ss_lost s) \<and>
     su_running (ss_server s) = int (length (ss_decoding s) + ss_streams s) \<and>
     su_max_concurrent (ss_server s) = sa_max_concurrent args \<and>
     (case su_sem (ss_server s) of
        None \<Rightarrow> ss_decoding s = []
      | Some n \<Rightarrow> 0 \<le> n \<and> n + int (length (ss_decoding s)) = permits args)"

text \<open>What each piece of a request changes of the gauges.\<close>

definition gauges :: "stub_state \<Rightarrow> int \<times> int \<times> int \<times> int option" where
  "gauges st = (su_waiting st, su_running st, su_max_concurrent st, su_sem st)"

lemma gauges_should_fail: "should_fail now st = (b, st') \<Longrightarrow> gauges st' = gauges st"
  by (auto simp: should_fail_def gauges_def Let_def split: option.splits if_splits)

lemma gauges_all_fails: "all_fails now st = (b, st') \<Longrightarrow> gauges st' = gauges st"
  by (auto simp: all_fails_def dest: gauges_should_fail split: if_splits)

lemma gauges_control: "control c st = (r, st') \<Longrightarrow> gauges st' = gauges st"
  by (auto simp: control_def gauges_def Let_def split: option.splits if_splits)

lemma gauges_health: "stub_health now st = (r, st') \<Longrightarrow> gauges st' = gauges st"
  by (auto simp: stub_health_def dest: gauges_all_fails split: if_splits prod.splits)

lemma gauges_models: "stub_models now st = (r, st') \<Longrightarrow> gauges st' = gauges st"
  by (auto simp: stub_models_def dest: gauges_all_fails split: if_splits prod.splits)

lemma gauges_enter:
  assumes "chat_enter fr sha now raw st = (e, st')"
  shows "gauges st' =
     (if e = Entry_hangs \<or> (\<exists>j. e = Entry_queued j) then (su_waiting st + 1, snd (gauges st)) else gauges st)"
proof -
  have r: "gauges (st\<lparr>su_requests := n\<rparr>) = gauges st" for n by (simp add: gauges_def)
  have w: "gauges (t\<lparr>su_waiting := n\<rparr>) = (n, snd (gauges t))" for t n
    by (simp add: gauges_def)
  obtain b t where f: "should_fail now (st\<lparr>su_requests := su_requests st + 1\<rparr>) = (b, t)" by fastforce
  have t: "gauges t = gauges st" using gauges_should_fail [OF f] by (simp add: r)
  then have "su_waiting t = su_waiting st" by (simp add: gauges_def)
  with assms f t show ?thesis
    by (auto simp: chat_enter_def Let_def w split: option.splits json.splits if_splits sum.splits)
qed

lemma gauges_answer: "chat_answer cid created j st = (r, st') \<Longrightarrow> gauges st' = gauges st"
  by (auto simp: chat_answer_def gauges_def Let_def split: if_splits json.splits)

lemma inv_gauges:
  assumes "stub_inv args s" and "gauges t = gauges (ss_server s)"
  shows "stub_inv args (s\<lparr>ss_server := t\<rparr>)"
  using assms by (simp add: stub_inv_def gauges_def split: option.splits)

lemma inv_enter:
  assumes "stub_inv args s" and "gauges t = (su_waiting (ss_server s) + 1, snd (gauges (ss_server s)))"
  shows "stub_inv args (s\<lparr>ss_server := t, ss_queued := j # ss_queued s\<rparr>)"
    and "stub_inv args (s\<lparr>ss_server := t, ss_hung := ss_hung s + 1\<rparr>)"
  using assms by (simp_all add: stub_inv_def gauges_def split: option.splits)

lemma length_remove1_in: "j \<in> set js \<Longrightarrow> int (length (remove1 j js)) = int (length js) - 1"
  by (induction js) auto

lemma inv_admit:
  assumes "stub_inv args s" and "j \<in> set (ss_queued s)" and "chat_admitted (ss_server s) = Inr (Some t)"
  shows "stub_inv args (s\<lparr>ss_server := t, ss_queued := remove1 j (ss_queued s), ss_decoding := j # ss_decoding s\<rparr>)"
proof -
  obtain n st where n: "stub_sem (ss_server s) = Inr (n, st)" "n \<noteq> 0"
    "t = st\<lparr>su_sem := Some (n - 1), su_waiting := su_waiting st - 1, su_running := su_running st + 1\<rparr>"
    using assms(3) by (auto simp: chat_admitted_def bindE_Inr split: if_splits)
  have st: "su_waiting st = su_waiting (ss_server s)" "su_running st = su_running (ss_server s)"
    "su_max_concurrent st = su_max_concurrent (ss_server s)" "0 \<le> n" "n + int (length (ss_decoding s)) = permits args"
    using n(1) assms(1) by (auto simp: stub_sem_def stub_inv_def permits_def Let_def split: option.splits if_splits)
  then show ?thesis
    using n(2,3) assms(1,2) by (simp add: stub_inv_def length_remove1_in)
qed

lemma inv_answer:
  assumes "stub_inv args s" and "j \<in> set (ss_decoding s)" and "gauges t = gauges (chat_decoded (ss_server s))"
  shows "stub_inv args (s\<lparr>ss_server := t, ss_decoding := remove1 j (ss_decoding s)\<rparr>)"
proof -
  obtain n where "su_sem (ss_server s) = Some n"
    using assms(1,2) by (auto simp: stub_inv_def split: option.splits)
  then show ?thesis
    using assms by (simp add: stub_inv_def gauges_def chat_decoded_def length_remove1_in)
qed

lemma stub_step_inv: "stub_step fr sha s t \<Longrightarrow> stub_inv args s \<Longrightarrow> stub_inv args t"
proof (induction rule: stub_step.induct)
  case (queue now raw s j t)
  then show ?case using gauges_enter by (intro inv_enter) fastforce+
next
  case (hang now raw s t)
  then show ?case using gauges_enter by (intro inv_enter) fastforce+
next
  case (refuse now raw s e t)
  then show ?case using gauges_enter [of fr sha now raw "ss_server s" e t] by (intro inv_gauges) auto
next
  case (answer j s cid created r t)
  then show ?case using gauges_answer by (intro inv_answer) blast+
next
  case (cancel_decoding j s)
  then show ?case by (intro inv_answer) simp_all
next
  case (unadmitted j s e)
  then show ?case by (simp add: stub_inv_def length_remove1_in split: option.splits)
next
  case (cancel_queued j s)
  then show ?case by (simp add: stub_inv_def length_remove1_in split: option.splits)
next
  case (cancel_hung s)
  then show ?case by (simp add: stub_inv_def of_nat_diff split: option.splits)
next
  case (admit j s t)
  then show ?case by (intro inv_admit)
next
  case (stream s)
  then show ?case by (simp add: stub_inv_def stream_begins_def split: option.splits)
next
  case (word s)
  then show ?case by (simp add: stub_inv_def stream_counts_def split: option.splits)
next
  case (finish s)
  then show ?case by (simp add: stub_inv_def stream_ends_def of_nat_diff split: option.splits)
qed (blast intro: inv_gauges gauges_control gauges_health gauges_models)+

lemma stub_reachable_inv: "stub_reachable fr sha args s \<Longrightarrow> stub_inv args s"
proof (induction rule: stub_reachable.induct)
  case (boot now)
  show ?case by (simp add: stub_inv_def stub_configure_def new_stub_def)
qed (rule stub_step_inv)

text \<open>A request given up while it waits is counted as waiting from then on.\<close>

lemma lost_stays_lost: "stub_step fr sha s t \<Longrightarrow> ss_lost s \<le> ss_lost t"
  by (induction rule: stub_step.induct) simp_all

text \<open>C32. The stub's gauges tell the truth: however requests, streams, control calls and cancellations
  interleave, \<open>running\<close> is the number of requests decoding or streaming, \<open>waiting\<close> the number
  queued or hung and those cancelled while they were (or lost to a semaphore that cannot be made), which
  nothing takes out again; and never
  more than the configured number of requests decode at once (1024 when none is set). So the
  wedge signature, work waiting, can be reached, and is only reached by work that waits or was
  given up waiting.\<close>

theorem stub_gauges_exact:
  assumes "stub_reachable fr sha args s"
  shows "su_waiting (ss_server s) = int (length (ss_queued s) + ss_hung s + ss_lost s) \<and>
     su_running (ss_server s) = int (length (ss_decoding s) + ss_streams s) \<and>
     (ss_decoding s \<noteq> [] \<longrightarrow> int (length (ss_decoding s)) \<le> (if sa_max_concurrent args \<noteq> 0 then sa_max_concurrent args else 1024))"
  using stub_reachable_inv [OF assms] by (auto simp: stub_inv_def permits_def split: option.splits)

definition one_waiting :: stub_sys where
  "one_waiting =
     \<lparr>ss_server = (stub_configure (stub_arg_defaults\<lparr>sa_wedge := True\<rparr>) 0 new_stub)\<lparr>su_requests := 1, su_waiting := 1\<rparr>,
      ss_queued = [], ss_hung = 1, ss_decoding = [], ss_streams = 0, ss_lost = 0\<rparr>"

lemma one_waiting_reachable: "stub_reachable (\<lambda>_. []) (\<lambda>_. [0]) (stub_arg_defaults\<lparr>sa_wedge := True\<rparr>) one_waiting"
proof -
  let ?args = "stub_arg_defaults\<lparr>sa_wedge := True\<rparr>"
  let ?s = "\<lparr>ss_server = stub_configure ?args 0 new_stub, ss_queued = [], ss_hung = 0, ss_decoding = [], ss_streams = 0, ss_lost = 0\<rparr>"
  have "chat_enter (\<lambda>_. []) (\<lambda>_. [0]) 1 demo_raw (ss_server ?s) =
      (Entry_hangs, (stub_configure ?args 0 new_stub)\<lparr>su_requests := 1, su_waiting := 1\<rparr>)"
    by (simp add: chat_enter_def demo_loads demo_body_def get_default_def should_fail_def stub_configure_def
        stub_arg_defaults_def new_stub_def)
  from stub_step.hang [OF this] have "stub_step (\<lambda>_. []) (\<lambda>_. [0]) ?s one_waiting"
    by (simp add: one_waiting_def)
  with stub_reachable.boot show ?thesis by (rule stub_reachable.step)
qed

theorem stub_gauges_exact_witness:
  "su_waiting (ss_server one_waiting) = 1 \<and> su_running (ss_server one_waiting) = 0"
  using stub_gauges_exact [OF one_waiting_reachable] by (simp add: one_waiting_def)

subsection \<open>The stream, as the relay reads it\<close>

definition ascii :: "string \<Rightarrow> bool" where
  "ascii s \<longleftrightarrow> (\<forall>c \<in> set s. (of_char c :: nat) < 128)"

lemma ascii_simps [simp]: "ascii []" "ascii (c # s) \<longleftrightarrow> (of_char c :: nat) < 128 \<and> ascii s"
  "ascii (s @ t) \<longleftrightarrow> ascii s \<and> ascii t"
  by (auto simp: ascii_def)

lemma ascii_utf8: "ascii s \<Longrightarrow> utf8_valid s"
  by (induction s) simp_all

fun ascii_json :: "(real \<Rightarrow> string) \<Rightarrow> json \<Rightarrow> bool" where
  "ascii_json fr (JStr s) = ascii s"
| "ascii_json fr (JFloat (Fin x)) = ascii (fr x)"
| "ascii_json fr (JArr xs) = (\<forall>x \<in> set xs. ascii_json fr x)"
| "ascii_json fr (JObj kvs) = (\<forall>(k, v) \<in> set kvs. ascii k \<and> ascii_json fr v)"
| "ascii_json fr v = True"

lemma ascii_join: "ascii sep \<Longrightarrow> (\<And>x. x \<in> set xs \<Longrightarrow> ascii x) \<Longrightarrow> ascii (py_join sep xs)"
  using set_py_join [of sep xs] by (auto simp: ascii_def)

lemma ascii_escape: "(of_char c :: nat) < 128 \<Longrightarrow> ascii (escape_char c)"
  by (auto simp: escape_char_def hex_digit_def Let_def)

lemma ascii_dumps_str: "ascii s \<Longrightarrow> ascii (dumps_str s)"
  using ascii_escape by (auto simp: dumps_str_def ascii_def)

lemma ascii_nat_digits: "ascii (nat_digits n)"
  using nat_digits_digits [of _ n] by (force simp: ascii_def is_digit_def Let_def)

lemma ascii_dumps: "ascii_json fr v \<Longrightarrow> ascii (json_dumps fr v)"
proof (induction v)
  case (JInt i)
  then show ?case by (simp add: str_int_def ascii_nat_digits)
next
  case (JFloat f)
  then show ?case by (cases f) simp_all
next
  case (JArr xs)
  then show ?case by (auto intro!: ascii_join)
next
  case (JObj kvs)
  have "ascii (dumps_member fr (k, v))" if "(k, v) \<in> set kvs" for k v
    using JObj.IH [of "(k, v)" v] JObj.prems that by (auto simp: ascii_dumps_str snds.simps)
  then show ?case by (auto intro!: ascii_join)
qed (simp_all add: ascii_dumps_str)

text \<open>One event on one line: the relay's scanner cuts it off, and its usage is its object's.\<close>

lemma split_event_line:
  assumes "CHR 0x0A \<notin> set t"
  shows "split_event (t @ [CHR 0x0A, CHR 0x0A] @ r) = Some (t, r)"
  using assms by (induction t) (auto simp: startswith_def)

lemma dumps_obj_shape: "\<exists>t. json_dumps fr (JObj kvs) = CHR ''{'' # t \<and> last (CHR ''{'' # t) = CHR ''}''"
  by simp

lemma loads_bytes_dumps:
  assumes "printable fr (JObj kvs)" and "ascii_json fr (JObj kvs)"
  shows "json_loads_bytes (json_dumps fr (JObj kvs)) = Some (JObj kvs)"
proof -
  obtain t where t: "json_dumps fr (JObj kvs) = CHR ''{'' # t" using dumps_obj_shape by blast
  with ascii_utf8 [OF ascii_dumps [OF assms(2)]] loads_dumps_value [OF assms(1)] show ?thesis
    by (simp add: json_loads_bytes_def startswith_def del: json_dumps.simps)
qed

lemma parse_event:
  assumes "printable fr (JObj kvs)" and "ascii_json fr (JObj kvs)"
  shows "parse_usage_frame (''data: '' @ json_dumps fr (JObj kvs)) =
     Inr (case get_default kvs ''usage'' JNull of JObj usage \<Rightarrow> Some usage | _ \<Rightarrow> None)"
proof -
  let ?t = "json_dumps fr (JObj kvs)"
  obtain t where t: "?t = CHR ''{'' # t" "last (CHR ''{'' # t) = CHR ''}''" using dumps_obj_shape by blast
  have "CHR 0x0A \<notin> set (''data: '' @ ?t)"
    using clean_no_newline [OF clean_dumps [OF assms(1)]] by (simp del: json_dumps.simps)
  then have lines: "split_on CHR 0x0A (''data: '' @ ?t) = [''data: '' @ ?t]" by (rule split_on_single)
  have strip: "bytes_strip (CHR '' '' # ?t) = ?t"
  proof -
    have "bytes_strip ?t = ?t" unfolding t(1) using t(2) by (intro strip_by_id) (simp add: bytes_space_def)
    moreover have "bytes_strip (CHR '' '' # ?t) = bytes_strip ?t" by (simp add: strip_by_def bytes_space_def del: json_dumps.simps)
    ultimately show ?thesis by simp
  qed
  note loads = loads_bytes_dumps [OF assms]
  have "startswith (''data: '' @ ?t) ''data:''" by (simp add: startswith_def)
  moreover have "drop (length ''data:'') (''data: '' @ ?t) = CHR '' '' # ?t" by simp
  moreover have "?t \<noteq> ''[DONE]''" by (simp add: t(1))
  ultimately show ?thesis
    unfolding parse_usage_frame_def lines
    by (simp add: strip loads Let_def del: json_dumps.simps split: json.split)
qed

lemma scan_event:
  assumes "printable fr (JObj kvs)" and "ascii_json fr (JObj kvs)"
  shows "scan_events (sse (json_dumps fr (JObj kvs)) @ r) u =
     scan_events r (case get_default kvs ''usage'' JNull of JObj usage \<Rightarrow> usage | _ \<Rightarrow> u)"
proof -
  have "CHR 0x0A \<notin> set (''data: '' @ json_dumps fr (JObj kvs))"
    using clean_no_newline [OF clean_dumps [OF assms(1)]] by (simp del: json_dumps.simps)
  from split_event_line [OF this, of r] parse_event [OF assms] show ?thesis
    by (subst scan_events.simps) (simp add: sse_def del: json_dumps.simps split: json.split)
qed

lemma scan_done: "scan_events (sse ''[DONE]'') u = Scanning [] u"
proof -
  have "split_event (''data: [DONE]'' @ [CHR 0x0A, CHR 0x0A] @ []) = Some (''data: [DONE]'', [])"
    by (rule split_event_line) simp
  moreover have "parse_usage_frame ''data: [DONE]'' = Inr None"
    by (simp add: parse_usage_frame_def startswith_def strip_by_def bytes_space_def)
  ultimately show ?thesis by (subst scan_events.simps) (simp add: sse_def scan_none)
qed

text \<open>The stub's own texts are ASCII.\<close>

lemma words_acc_chars: "w' \<in> set (words_acc w s) \<Longrightarrow> set w' \<subseteq> set w \<union> set s"
  by (induction w s rule: words_acc.induct) (fastforce split: if_splits)+

lemma ascii_split: "ascii s \<Longrightarrow> w \<in> set (py_split s) \<Longrightarrow> ascii w"
  using words_acc_chars [of w "[]" s] by (auto simp: py_split_def ascii_def)

lemma word_at_in: "word_at digest i \<in> set STUB_WORDS"
proof -
  have "length STUB_WORDS = 20" by (simp add: STUB_WORDS_def)
  then show ?thesis unfolding word_at_def by (intro nth_mem) simp
qed

lemma stub_words: "\<forall>w \<in> set STUB_WORDS. ascii w \<and> w \<noteq> []"
  by (simp add: STUB_WORDS_def)

lemma ascii_word: "ascii (word_at digest i)" and word_at_not_Nil: "word_at digest i \<noteq> []"
  using word_at_in stub_words by blast+

lemma ascii_upper: "(of_char c :: nat) < 128 \<Longrightarrow> (of_char (py_upper_char c) :: nat) < 128"
  by (auto simp: py_upper_char_def Let_def)

lemma upt_max: "[0..<nat (max 1 n)] = 0 # [1..<nat (max 1 n)]"
  by (simp add: upt_rec)

lemma ascii_deterministic: "ascii (deterministic_text sha seed n)"
proof -
  let ?text = "py_join '' '' (map (word_at (sha seed)) [0..<nat (max 1 n)])"
  have a: "ascii ?text" using ascii_word by (intro ascii_join) auto
  have "?text \<noteq> []" using word_at_not_Nil by (simp add: upt_max join_Cons)
  with a have "ascii (py_upper_char (hd ?text) # tl ?text)" by (cases ?text) (simp_all add: ascii_upper)
  then show ?thesis by (simp add: deterministic_text_def Let_def)
qed

lemma ascii_completion: "ascii (completion_text fr sha st body n)"
  by (simp add: completion_text_def ascii_deterministic Let_def)

lemma words_of_messages_nonneg: "words_of_messages fr ms = Inr n \<Longrightarrow> 0 \<le> n"
  by (induction ms arbitrary: n) (auto simp: bindE_Inr split: json.splits)

lemma queued_job:
  assumes "chat_enter fr sha now raw st = (Entry_queued j, st')"
  shows "ascii (jb_text j)" and "0 \<le> jb_prompt_tokens j" and "jb_completion_tokens j = int (length (py_split (jb_text j)))"
  using assms words_of_messages_nonneg
  by (auto simp: chat_enter_def prompt_words_def ascii_completion Let_def
      split: option.splits json.splits if_splits sum.splits prod.splits)

lemma payload_ok:
  assumes "printable fr model" and "ascii_json fr model" and "ascii cid" and "short_int created"
    and "\<forall>(k, v) \<in> set delta. ascii k \<and> ascii_json fr v \<and> printable fr v" and "distinct (map fst delta)"
    and "finish = JNull \<or> finish = JStr ''stop''"
  shows "printable fr (stream_payload cid created model delta finish) \<and> ascii_json fr (stream_payload cid created model delta finish)"
proof -
  have "short_int 0" by (simp add: short_int_def max_str_digits_def nat_digits.simps)
  with assms show ?thesis by (auto simp: stream_payload_def)
qed

lemma scan_frame:
  assumes "printable fr model" and "ascii_json fr model" and "ascii cid" and "short_int created"
    and "\<forall>(k, v) \<in> set delta. ascii k \<and> ascii_json fr v \<and> printable fr v" and "distinct (map fst delta)"
    and "finish = JNull \<or> finish = JStr ''stop''"
  shows "scan_events (frame fr cid created model delta finish @ r) u = scan_events r u"
proof -
  obtain kvs where kvs: "stream_payload cid created model delta finish = JObj kvs" "get_default kvs ''usage'' JNull = JNull"
    by (simp add: stream_payload_def get_default_def)
  from payload_ok [OF assms] scan_event [of fr kvs r u] show ?thesis
    unfolding frame_def kvs(1) by (simp add: kvs(2) del: json_dumps.simps)
qed

lemma scan_words:
  assumes "printable fr model" and "ascii_json fr model" and "ascii cid" and "short_int created"
    and "\<And>w. w \<in> set ws \<Longrightarrow> ascii w"
  shows "scan_events (concat (map fst (fst (stream_words fr cid created model ws st))) @ r) u = scan_events r u"
  using assms(5)
proof (induction ws arbitrary: st)
  case (Cons w ws)
  have "scan_events (frame fr cid created model [(''content'', JStr (w @ '' ''))] JNull @ q) u = scan_events q u" for q
    using Cons.prems by (intro scan_frame [OF assms(1-4)]) auto
  with Cons show ?case by (simp add: Let_def split_beta)
qed simp

lemma scan_stub_stream:
  assumes "printable fr model" and "ascii_json fr model" and "ascii cid" and "short_int created" and "ascii text"
    and "\<And>v. v \<in> {JObj (case usage of None \<Rightarrow> [] | Some x \<Rightarrow> x)} \<Longrightarrow> printable fr v \<and> ascii_json fr v"
  shows "scan_events (concat (map fst (fst (stub_stream fr cid created model text usage st)))) u =
     Scanning [] (case usage of None \<Rightarrow> u | Some x \<Rightarrow> x)"
proof -
  have op: "scan_events (frame fr cid created model [(''role'', JStr ''assistant''), (''content'', JStr [])] JNull @ q) u
      = scan_events q u" for q by (intro scan_frame [OF assms(1-4)]) auto
  have cl: "scan_events (frame fr cid created model [] (JStr ''stop'') @ q) u = scan_events q u" for q
    by (intro scan_frame [OF assms(1-4)]) auto
  have ws: "scan_events (concat (map fst (fst (stream_words fr cid created model (py_split text) t))) @ q) u = scan_events q u"
    for t q using assms(5) ascii_split by (intro scan_words [OF assms(1-4)])
  have fin: "scan_events (sse (json_dumps fr (usage_payload cid created model x)) @ sse ''[DONE]'') u = Scanning [] x"
    if x: "usage = Some x" for x
  proof -
    obtain kvs where kvs: "usage_payload cid created model x = JObj kvs" "get_default kvs ''usage'' JNull = JObj x"
      by (simp add: usage_payload_def get_default_def)
    have "printable fr (JObj kvs) \<and> ascii_json fr (JObj kvs)"
      using assms x unfolding kvs(1) [symmetric] by (auto simp: usage_payload_def)
    with scan_event [of fr kvs "sse ''[DONE]''" u] show ?thesis
      unfolding kvs(1) by (simp add: kvs(2) scan_done del: json_dumps.simps)
  qed
  show ?thesis
    by (cases usage) (simp_all add: stub_stream_def Let_def split_beta op cl ws fin scan_done)
qed

subsection \<open>What a stream of the stub costs\<close>

text \<open>A relay of a stream that ends well and reported its usage, with nobody else running.\<close>

lemma relay_clean_stream:
  assumes "scan_all (rs_chunks resp) = Scanning buf usage" and "rs_end resp = None"
    and "\<And>i s. ce_chunk env i s = s" and "\<And>s. ce_close env s = (None, s)" and "ce_audit_ok env"
    and "get_default usage ''prompt_tokens'' JNull = JInt a" and "get_default usage ''completion_tokens'' JNull = JInt b"
    and "0 \<le> a" and "0 \<le> b"
  shows "\<exists>st' r. relay cfg env p m rk upstream resp st = (rs_chunks resp, None, st') \<and>
     (\<forall>k. tokens_used (gw_quota st') k = tokens_used (gw_quota st) k + (if pr_keyid p = Some k then a + b else 0)) \<and>
     (\<forall>l. counter_value (tokens_total (cs_metrics st')) l = counter_value (tokens_total (cs_metrics st)) l +
        (if l = (safe_model cfg m, ''prompt'') then a else 0) +
        (if l = (safe_model cfg m, ''completion'') then b else 0)) \<and>
     gw_audit st' = gw_audit st @ [r] \<and> au_prompt_tokens r = JInt a \<and> au_completion_tokens r = JInt b \<and>
     au_keyid r = pr_keyid p \<and> au_reason r = None \<and> au_streamed r"
proof -
  obtain out u e st1 where l: "relay_loop cfg env m (rs_end resp) 0 True [] [] (rs_chunks resp) st = (out, u, e, st1)"
    by (metis prod_cases4)
  have o: "out = rs_chunks resp" "u = usage" "e = None"
    using relay_loop_outcome [OF l, folded scan_all_def] assms(1,2) by simp_all
  have st1: "gw_audit st1 = gw_audit st" "gw_quota st1 = gw_quota st" "tokens_total (cs_metrics st1) = tokens_total (cs_metrics st)"
    using relay_loop_state [OF assms(3) _ l] by (auto simp: observe_ttft_def split: if_splits)
  let ?st2 = "release_slot rk st1"
  obtain ms where ms: "charge_usage cfg m usage (pr_keyid p) ?st2 =
       (None, (case pr_keyid p of None \<Rightarrow> ?st2\<lparr>cs_metrics := ms\<rparr>
          | Some k \<Rightarrow> ?st2\<lparr>cs_metrics := ms, gw_quota := record_usage (gw_quota ?st2) k (a + b)\<rparr>))"
    "\<And>l. counter_value (tokens_total ms) l = counter_value (tokens_total (cs_metrics ?st2)) l +
        (if l = (safe_model cfg m, ''prompt'') then a else 0) +
        (if l = (safe_model cfg m, ''completion'') then b else 0)"
    using charge_ints [OF assms(6-9)] by blast
  have r: "tokens_used (gw_quota ?st2) k = tokens_used (gw_quota st) k"
    "tokens_total (cs_metrics ?st2) = tokens_total (cs_metrics st)" "gw_audit ?st2 = gw_audit st" for k
    by (simp_all add: release_slot_def st1 split: option.split)
  have g: "py_or (get_default usage ''prompt_tokens'' (JInt 0)) (JInt 0) = JInt a"
    "py_or (get_default usage ''completion_tokens'' (JInt 0)) (JInt 0) = JInt b"
    using assms(6,7) by (auto simp: get_default_def py_or_def split: option.splits)
  show ?thesis
    using l o ms r g assms(4,5,8,9)
    by (cases "pr_keyid p") (simp_all add: relay_def write_audit_def audit_write_def)
qed

text \<open>C33. A stream of the stub costs what the stub counted: when a request that asked for its usage
  is answered with a stream and the gateway relays it, however the network cuts its bytes into
  chunks, the caller receives every byte and no exception, the key is charged the prompt words
  plus the words sent, the two token counters of the model rise by exactly those, and the
  audit record names them. No frame of the stub is ever misread.\<close>

theorem stub_stream_is_charged:
  assumes "chat_enter fr sha now raw sv = (Entry_queued j, sw)"
    and "chat_answer cid created j sx = (Inr (Reply_stream model text (Some usage)), sy)"
    and "printable fr model" and "ascii_json fr model" and "ascii cid" and "short_int created"
    and "printable fr (JObj usage)"
    and "concat (rs_chunks resp) = concat (map fst (fst (stub_stream fr cid created model text (Some usage) sz)))"
    and "rs_end resp = None"
    and "\<And>i s. ce_chunk env i s = s" and "\<And>s. ce_close env s = (None, s)" and "ce_audit_ok env"
  shows "\<exists>st' r. relay cfg env p m rk upstream resp st = (rs_chunks resp, None, st') \<and>
     (\<forall>k. tokens_used (gw_quota st') k = tokens_used (gw_quota st) k +
        (if pr_keyid p = Some k then jb_prompt_tokens j + int (length (py_split text)) else 0)) \<and>
     (\<forall>l. counter_value (tokens_total (cs_metrics st')) l = counter_value (tokens_total (cs_metrics st)) l +
        (if l = (safe_model cfg m, ''prompt'') then jb_prompt_tokens j else 0) +
        (if l = (safe_model cfg m, ''completion'') then int (length (py_split text)) else 0)) \<and>
     gw_audit st' = gw_audit st @ [r] \<and> au_prompt_tokens r = JInt (jb_prompt_tokens j) \<and>
     au_completion_tokens r = JInt (int (length (py_split text))) \<and>
     au_keyid r = pr_keyid p \<and> au_reason r = None \<and> au_streamed r"
proof -
  have u: "text = jb_text j" "usage = usage_of_job j"
    using assms(2) by (auto simp: chat_answer_def Let_def split: if_splits json.splits)
  have "ascii_json fr (JObj usage)" by (simp add: u usage_of_job_def)
  then have "scan_all (rs_chunks resp) = Scanning [] usage"
    using scan_stub_stream [OF assms(3-6), of "text" "Some usage" sz "[]"] queued_job(1) [OF assms(1)] assms(7,8) u
    by (simp add: scan_all_concat)
  moreover have "get_default usage ''prompt_tokens'' JNull = JInt (jb_prompt_tokens j)"
    "get_default usage ''completion_tokens'' JNull = JInt (int (length (py_split text)))"
    using queued_job(3) [OF assms(1)] by (simp_all add: u usage_of_job_def get_default_def)
  ultimately show ?thesis
    using relay_clean_stream [OF _ assms(9-12)] queued_job(2) [OF assms(1)] by simp
qed

definition tiny_raw :: string where
  "tiny_raw = ''{'' @ quo @ ''messages'' @ quo @ '':[{'' @ quo @ ''content'' @ quo @ '':'' @ quo @ ''hi'' @ quo @ ''}],'' @
     quo @ ''max_tokens'' @ quo @ '':1,'' @ quo @ ''stream'' @ quo @ '':true,'' @ quo @ ''stream_options'' @ quo @
     '':{'' @ quo @ ''include_usage'' @ quo @ '':true}}''"

definition tiny_body :: "(string \<times> json) list" where
  "tiny_body = [(''messages'', JArr [JObj [(''content'', JStr ''hi'')]]), (''max_tokens'', JInt 1), (''stream'', JBool True),
     (''stream_options'', JObj [(''include_usage'', JBool True)])]"

lemma tiny_loads: "json_loads_bytes tiny_raw = Some (JObj tiny_body)"
  by code_simp

definition tiny_job :: chat_job where
  "tiny_job = \<lparr>jb_body = tiny_body, jb_text = ''The.'', jb_prompt_tokens = 1, jb_completion_tokens = 1\<rparr>"

lemma char_T: "char_of (84 :: nat) = CHR ''T''"
  by code_simp

lemma tiny_text: "deterministic_text (\<lambda>_. [0]) seed 1 = ''The.''"
  by (simp add: deterministic_text_def word_at_def STUB_WORDS_def py_upper_char_def Let_def char_T)

lemma tiny_split: "py_split ''The.'' = [''The.'']" "py_split ''hi'' = [''hi'']"
  by code_simp+

lemma tiny_enters:
  "chat_enter (\<lambda>_. []) (\<lambda>_. [0]) 0 tiny_raw new_stub =
     (Entry_queued tiny_job, new_stub\<lparr>su_requests := 1, su_waiting := 1\<rparr>)"
  by (simp add: chat_enter_def tiny_loads tiny_body_def tiny_job_def get_default_def should_fail_def new_stub_def
      completion_text_def tiny_text tiny_split prompt_words_def py_or_def)

definition tiny_usage :: "(string \<times> json) list" where
  "tiny_usage = [(''prompt_tokens'', JInt 1), (''completion_tokens'', JInt 1), (''total_tokens'', JInt 2)]"

definition tiny_response :: response where
  "tiny_response = demo_response\<lparr>rs_chunks :=
     [concat (map fst (fst (stub_stream (\<lambda>_. []) ''c'' 0 (JStr STUB_MODEL) ''The.'' (Some tiny_usage) new_stub)))]\<rparr>"

theorem stub_stream_is_charged_witness:
  "\<exists>st'. relay default_settings (quiet_env (Answer demo_response)) demo_principal JNull None ''a'' tiny_response demo_gateway
     = (rs_chunks tiny_response, None, st') \<and> tokens_used (gw_quota st') ''a1'' = 2"
proof -
  have a: "chat_answer ''c'' 0 tiny_job new_stub = (Inr (Reply_stream (JStr STUB_MODEL) ''The.'' (Some tiny_usage)), new_stub)"
    by (simp add: chat_answer_def tiny_job_def tiny_body_def get_default_def usage_of_job_def tiny_usage_def py_or_def)
  have "short_int 0" "short_int 1" "short_int 2"
    by (simp_all add: short_int_def max_str_digits_def nat_digits.simps)
  then show ?thesis
    using stub_stream_is_charged [OF tiny_enters a, of tiny_response new_stub "quiet_env (Answer demo_response)"
        default_settings demo_principal JNull None "''a''" demo_gateway]
    by (fastforce simp: STUB_MODEL_def tiny_response_def tiny_usage_def quiet_env_def demo_response_def demo_principal_def
        tiny_job_def tiny_split demo_gateway_def tokens_used_def new_quota_def)
qed

end
