(* ===== verification/Stub_Retry.thy ===== *)
theory Stub_Retry
  imports Stub_Laws
begin

section \<open>The gateway's retry against a stub that fails its first requests\<close>

text \<open>
  The upstream client with the stub behind it: one state for both, and a network that hands each
  request to the stub and answers what the stub answers at once.
\<close>

record world = client_state +
  wd_stub :: stub_state

definition plain_response :: "int \<Rightarrow> string \<Rightarrow> response" where
  "plain_response status content =
     \<lparr>rs_status = status, rs_headers = Map.empty, rs_content = content, rs_chunks = [], rs_end = None\<rparr>"

text \<open>One request on a stub that serves nobody else, from its bytes to its answer; a hung request is a
  read timeout for the client. The framework prints a JSON body without the spaces \<open>json.dumps\<close> puts
  after separators; what the client reads of it, the status and the parsed value, is the same.\<close>

definition serve_stub ::
  "(real \<Rightarrow> string) \<Rightarrow> (string \<Rightarrow> nat list) \<Rightarrow> real \<Rightarrow> string \<Rightarrow> string \<Rightarrow> stub_state \<Rightarrow> http_outcome \<times> stub_state" where
  "serve_stub fr sha now cid raw st =
     (case chat_enter fr sha now raw st of
        (Entry_error status d, st) \<Rightarrow> (Answer (plain_response status (json_dumps fr (JObj [(''detail'', JStr d)]))), st)
      | (Entry_raises e, st) \<Rightarrow> (Answer (plain_response 500 ''Internal Server Error''), st)
      | (Entry_hangs, st) \<Rightarrow> (Send_raised ReadTimeout, st)
      | (Entry_queued j, st) \<Rightarrow>
          (case chat_admitted st of
             Inl e \<Rightarrow> (Answer (plain_response 500 ''Internal Server Error''), st)
           | Inr None \<Rightarrow> (Send_raised ReadTimeout, st)
           | Inr (Some st) \<Rightarrow>
               (case chat_answer cid \<lfloor>now\<rfloor> j (chat_decoded st) of
                  (Inl e, st) \<Rightarrow> (Answer (plain_response 500 ''Internal Server Error''), st)
                | (Inr (Reply_json v), st) \<Rightarrow> (Answer (plain_response 200 (json_dumps fr v)), st)
                | (Inr (Reply_stream model content usage), st) \<Rightarrow>
                    (let (pieces, st) = stub_stream fr cid \<lfloor>now\<rfloor> model content usage st
                     in (Answer (plain_response 200 []\<lparr>rs_chunks := map fst pieces\<rparr>), st)))))"

definition stub_net ::
  "(real \<Rightarrow> string) \<Rightarrow> (string \<Rightarrow> nat list) \<Rightarrow> real \<Rightarrow> string \<Rightarrow> world net" where
  "stub_net fr sha now cid =
     \<lparr>net_send = (\<lambda>_ _ body _ w. let (x, sv) = serve_stub fr sha now cid (json_dumps fr body) (wd_stub w) in (x, w\<lparr>wd_stub := sv\<rparr>)),
      net_sleep = (\<lambda>_ _ w. (None, w)), net_close = (\<lambda>_ w. (None, w)),
      net_pick_time = (\<lambda>_. now), net_record_time = (\<lambda>_. now), net_random = (\<lambda>_. 0)\<rparr>"

subsection \<open>One attempt\<close>

text \<open>What an answered attempt leaves of a world with one replica.\<close>

definition after_answer :: "string \<Rightarrow> real \<Rightarrow> int \<Rightarrow> stub_state \<Rightarrow> world \<Rightarrow> world \<Rightarrow> bool" where
  "after_answer u now status sv w w' \<longleftrightarrow>
     wd_stub w' = sv \<and> pool_ok (cs_pool w') \<and> up_urls (cs_pool w') = [u] \<and> up_client (cs_pool w') = up_client (cs_pool w) \<and>
     breaker_of (cs_pool w') u = apply_outcome (breaker_of (cs_pool w) u) (classify None (Some status)) now"

lemma answered_attempt:
  assumes "pool_ok (cs_pool w)" and "up_urls (cs_pool w) = [u]" and "up_client (cs_pool w) \<noteq> None"
    and "serve_stub fr sha now cid (json_dumps fr body) (wd_stub w) = (Answer resp, sv)"
  shows "\<exists>w'. send_and_record (stub_net fr sha now cid) a u url body False (w\<lparr>cs_pool := cs_pool w\<lparr>up_next := 0\<rparr>\<rparr>) =
       (Inr (Answer resp), w') \<and> after_answer u now (rs_status resp) sv w w'"
proof -
  have v: "pool_ok (cs_pool w\<lparr>up_next := 0\<rparr>)" "breaker_of (cs_pool w\<lparr>up_next := 0\<rparr>) u = breaker_of (cs_pool w) u"
    using pool_view [of "cs_pool w\<lparr>up_next := 0\<rparr>" "cs_pool w"] assms(1) by simp_all
  with pool_record_breaker_of [of "cs_pool w\<lparr>up_next := 0\<rparr>" u None "Some (rs_status resp)" now u] assms(2-4) show ?thesis
    by (auto simp: send_and_record_def pool_client_def stub_net_def count_upstream_def after_answer_def Let_def split: option.splits)
qed

lemma stub_net_simps [simp]:
  "net_pick_time (stub_net fr sha now cid) a = now" "net_sleep (stub_net fr sha now cid) a d w = (None, w)"
  by (simp_all add: stub_net_def)

lemma final_attempt:
  assumes "BREAKER_ENABLED cfg" and "pool_ok (cs_pool w)" and "up_urls (cs_pool w) = [u]" and "up_client (cs_pool w) \<noteq> None"
    and "rb_state (breaker_of (cs_pool w) u) = CLOSED"
    and "serve_stub fr sha now cid (json_dumps fr body) (wd_stub w) = (Answer resp, sv)"
    and "rs_status resp < 400 \<or> 1 \<le> a"
  shows "\<exists>w'. retry_loop cfg (stub_net fr sha now cid) path body False a exclude w =
       ([Sent u (attempt_url path u) body (Inr (Answer resp))], Inr (u, resp), w') \<and> after_answer u now (rs_status resp) sv w w'"
proof -
  obtain w' where w': "send_and_record (stub_net fr sha now cid) a u (attempt_url path u) body False (w\<lparr>cs_pool := cs_pool w\<lparr>up_next := 0\<rparr>\<rparr>) =
      (Inr (Answer resp), w')" "after_answer u now (rs_status resp) sv w w'"
    using answered_attempt [OF assms(2-4,6)] by blast
  then show ?thesis using assms(7)
    by (subst retry_loop.simps)
      (auto simp: single_pick [OF assms(2,1,3)] assms(5) attempt_url_def MAX_ATTEMPTS_def Let_def)
qed

lemma failed_attempt:
  assumes "BREAKER_ENABLED cfg" and "pool_ok (cs_pool w)" and "up_urls (cs_pool w) = [u]" and "up_client (cs_pool w) \<noteq> None"
    and "rb_state (breaker_of (cs_pool w) u) = CLOSED"
    and "serve_stub fr sha now cid (json_dumps fr body) (wd_stub w) = (Answer resp, sv)" and "rs_status resp = 503"
  shows "\<exists>w' d. retry_loop cfg (stub_net fr sha now cid) path body False 0 exclude w =
       (let (tr, r, w'') = retry_loop cfg (stub_net fr sha now cid) path body False 1 (Some u) w'
        in (Sent u (attempt_url path u) body (Inr (Answer resp)) # Slept d # tr, r, w'')) \<and>
       after_answer u now 503 sv w w'"
proof -
  obtain w' where w': "send_and_record (stub_net fr sha now cid) 0 u (attempt_url path u) body False (w\<lparr>cs_pool := cs_pool w\<lparr>up_next := 0\<rparr>\<rparr>) =
      (Inr (Answer resp), w')" "after_answer u now (rs_status resp) sv w w'"
    using answered_attempt [OF assms(2-4,6)] by blast
  have "should_retry (Answer resp)" using assms(7) by (simp add: should_retry_def RETRYABLE_STATUS_def)
  with w' assms(7) have "retry_loop cfg (stub_net fr sha now cid) path body False 0 exclude w =
       (let (tr, r, w'') = retry_loop cfg (stub_net fr sha now cid) path body False 1 (Some u) w'
        in (Sent u (attempt_url path u) body (Inr (Answer resp)) #
            Slept (retry_delay (net_random (stub_net fr sha now cid) 0) 0 (Some resp)) # tr, r, w''))"
    by (subst retry_loop.simps)
      (simp add: single_pick [OF assms(2,1,3)] assms(5) attempt_url_def MAX_ATTEMPTS_def Let_def)
  with w'(2) assms(7) show ?thesis by auto
qed

subsection \<open>What the stub answers\<close>

text \<open>A healthy stub but for its first requests, and a body it can answer without a stream.\<close>

definition stub_ready :: "stub_state \<Rightarrow> bool" where
  "stub_ready s \<longleftrightarrow> su_fail_after s = None \<and> su_fail_until s = None \<and> \<not> su_wedge s \<and> su_sem s = None \<and>
     0 \<le> su_max_concurrent s \<and> su_fail_status s = 503 \<and> 0 \<le> su_requests s"

definition plain_job :: "(real \<Rightarrow> string) \<Rightarrow> (string \<Rightarrow> nat list) \<Rightarrow> stub_state \<Rightarrow> (string \<times> json) list \<Rightarrow> chat_job \<Rightarrow> bool" where
  "plain_job fr sha s b j \<longleftrightarrow>
     json_truth (get_default b ''messages'' JNull) \<and> \<not> json_truth (get_default b ''stream'' JNull) \<and>
     prompt_words fr (get_default b ''messages'' JNull) = Inr (jb_prompt_tokens j) \<and> jb_body j = b \<and>
     (\<exists>n. py_int (py_or (get_default b ''max_tokens'' JNull) (JInt 64)) = Inr n \<and> jb_text j = completion_text fr sha s b n) \<and>
     jb_completion_tokens j = int (length (py_split (jb_text j)))"

lemma completion_text_requests [simp]: "completion_text fr sha (s\<lparr>su_requests := n\<rparr>) b k = completion_text fr sha s b k"
  by (simp add: completion_text_def)

lemma plain_job_requests [simp]: "plain_job fr sha (s\<lparr>su_requests := n\<rparr>) b j = plain_job fr sha s b j"
  by (simp add: plain_job_def)

lemma serve_fails:
  assumes "stub_ready s" and "json_loads_bytes raw = Some v" and "su_requests s < su_fail_first_n s"
  shows "\<exists>resp. serve_stub fr sha now cid raw s = (Answer resp, s\<lparr>su_requests := su_requests s + 1\<rparr>) \<and> rs_status resp = 503"
  using assms by (simp add: serve_stub_def chat_enter_def should_fail_def stub_ready_def plain_response_def)

definition reply_payload :: "string \<Rightarrow> int \<Rightarrow> chat_job \<Rightarrow> json" where
  "reply_payload cid created j =
     (case fst (chat_answer cid created j new_stub) of Inr (Reply_json v) \<Rightarrow> v | _ \<Rightarrow> JNull)"

lemma serve_answers:
  assumes "stub_ready s" and "json_loads_bytes raw = Some (JObj b)" and "su_fail_first_n s \<le> su_requests s"
    and "plain_job fr sha s b j"
  shows "\<exists>sv. serve_stub fr sha now cid raw s =
       (Answer (plain_response 200 (json_dumps fr (reply_payload cid \<lfloor>now\<rfloor> j))), sv) \<and>
     su_requests sv = su_requests s + 1 \<and> su_generated_tokens sv = su_generated_tokens s + jb_completion_tokens j"
proof -
  obtain n where n: "py_int (py_or (get_default b ''max_tokens'' JNull) (JInt 64)) = Inr n"
    "jb_text j = completion_text fr sha s b n" using assms(4) by (auto simp: plain_job_def)
  have "chat_enter fr sha now raw s =
      (Entry_queued j, s\<lparr>su_requests := su_requests s + 1, su_waiting := su_waiting s + 1\<rparr>)"
    using assms n by (cases j) (auto simp: chat_enter_def should_fail_def stub_ready_def plain_job_def Let_def)
  then show ?thesis
    using assms(1,4)
    by (simp add: serve_stub_def chat_admitted_def stub_sem_def stub_ready_def chat_answer_def chat_decoded_def plain_job_def
        reply_payload_def Let_def)
qed

text \<open>C36. The retry recovers from exactly one failure: against a stub that fails its first \<open>n\<close> requests
  with 503, one client request to a closed replica costs one send if \<open>n\<close> is 0 and two
  otherwise; it is answered with the stub's completion when \<open>n\<close> is at most 1 and with the 503
  of the second attempt when it is more; the stub has counted exactly the attempts made, and
  a recovered request leaves the breaker closed.\<close>

theorem retry_recovers_from_one_failure:
  assumes "BREAKER_ENABLED cfg" and "pool_ok (cs_pool w)" and "up_urls (cs_pool w) = [u]" and "up_client (cs_pool w) \<noteq> None"
    and "rb_state (breaker_of (cs_pool w) u) = CLOSED"
    and "rb_state (record_failure (breaker_of (cs_pool w) u) SERVER_ERROR now) = CLOSED"
    and "stub_ready (wd_stub w)" and "su_requests (wd_stub w) = 0" and "0 \<le> su_fail_first_n (wd_stub w)"
    and "json_loads_bytes (json_dumps fr (JObj b)) = Some (JObj b)" and "plain_job fr sha (wd_stub w) b j"
  shows "\<exists>tr resp w'. request cfg (stub_net fr sha now cid) path (JObj b) w = (tr, Inr (u, resp), w') \<and>
     length (sends tr) = (if su_fail_first_n (wd_stub w) = 0 then 1 else 2) \<and>
     su_requests (wd_stub w') = int (length (sends tr)) \<and>
     (if su_fail_first_n (wd_stub w) \<le> 1
      then resp = plain_response 200 (json_dumps fr (reply_payload cid \<lfloor>now\<rfloor> j)) \<and>
           rb_state (breaker_of (cs_pool w') u) = CLOSED
      else rs_status resp = 503)"
  supply json_dumps.simps [simp del]
proof -
  let ?n = "su_fail_first_n (wd_stub w)" and ?s = "wd_stub w" and ?net = "stub_net fr sha now cid"
  have ok: "rb_state (record_success b now) = CLOSED" if "rb_state b = CLOSED" for b
    using that by (simp add: record_success_def)
  show ?thesis
  proof (cases "?n = 0")
    case True
    obtain sv where sv: "serve_stub fr sha now cid (json_dumps fr (JObj b)) ?s =
        (Answer (plain_response 200 (json_dumps fr (reply_payload cid \<lfloor>now\<rfloor> j))), sv)" "su_requests sv = 1"
      using serve_answers [OF assms(7,10) _ assms(11), of now cid] True assms(8) by auto
    from final_attempt [OF assms(1-5) sv(1), of 0 path None] obtain w' where
      "retry_loop cfg ?net path (JObj b) False 0 None w = ([Sent u (attempt_url path u) (JObj b) (Inr (Answer (plain_response 200
         (json_dumps fr (reply_payload cid \<lfloor>now\<rfloor> j)))))], Inr (u, plain_response 200 (json_dumps fr (reply_payload cid \<lfloor>now\<rfloor> j))), w')"
      "after_answer u now 200 sv w w'" by (auto simp: plain_response_def)
    then show ?thesis using True sv(2) ok [OF assms(5)]
      by (simp add: with_retry_def after_answer_def classify_def apply_outcome_def)
  next
    case False
    then have "su_requests ?s < ?n" using assms(8,9) by simp
    from serve_fails [OF assms(7,10) this, of fr sha now cid] obtain resp1 where
      r1: "serve_stub fr sha now cid (json_dumps fr (JObj b)) ?s = (Answer resp1, ?s\<lparr>su_requests := 1\<rparr>)" "rs_status resp1 = 503"
      using assms(8) by auto
    obtain w1 d where w1: "retry_loop cfg ?net path (JObj b) False 0 None w =
        (let (tr, r, w'') = retry_loop cfg ?net path (JObj b) False 1 (Some u) w1
         in (Sent u (attempt_url path u) (JObj b) (Inr (Answer resp1)) # Slept d # tr, r, w''))"
      and a1: "after_answer u now 503 (?s\<lparr>su_requests := 1\<rparr>) w w1"
      using failed_attempt [OF assms(1-5) r1, of path None] by blast
    have c1: "pool_ok (cs_pool w1)" "up_urls (cs_pool w1) = [u]" "up_client (cs_pool w1) \<noteq> None"
      "rb_state (breaker_of (cs_pool w1) u) = CLOSED" "wd_stub w1 = ?s\<lparr>su_requests := 1\<rparr>"
      using a1 assms(4,6) by (simp_all add: after_answer_def classify_def apply_outcome_def)
    have ready: "stub_ready (wd_stub w1)" using assms(7) c1(5) by (simp add: stub_ready_def)
    show ?thesis
    proof (cases "?n = 1")
      case True
      obtain sv where sv: "serve_stub fr sha now cid (json_dumps fr (JObj b)) (wd_stub w1) =
          (Answer (plain_response 200 (json_dumps fr (reply_payload cid \<lfloor>now\<rfloor> j))), sv)" "su_requests sv = 2"
        using serve_answers [OF ready assms(10), of fr sha j now cid] True assms(11) c1(5) by auto
      from final_attempt [OF assms(1) c1(1-4) sv(1), of 1 path "Some u"] obtain w' where
        "retry_loop cfg ?net path (JObj b) False 1 (Some u) w1 = ([Sent u (attempt_url path u) (JObj b) (Inr (Answer (plain_response 200
           (json_dumps fr (reply_payload cid \<lfloor>now\<rfloor> j)))))], Inr (u, plain_response 200 (json_dumps fr (reply_payload cid \<lfloor>now\<rfloor> j))), w')"
        "after_answer u now 200 sv w1 w'" by (auto simp: plain_response_def)
      then show ?thesis using True w1 sv(2) ok [OF c1(4)]
        by (simp add: with_retry_def after_answer_def classify_def apply_outcome_def)
    next
      case more: False
      then have "su_requests (wd_stub w1) < su_fail_first_n (wd_stub w1)" using False assms(9) c1(5) by simp
      from serve_fails [OF ready assms(10) this, of fr sha now cid] obtain resp2 where
        r2: "serve_stub fr sha now cid (json_dumps fr (JObj b)) (wd_stub w1) = (Answer resp2, ?s\<lparr>su_requests := 2\<rparr>)" "rs_status resp2 = 503"
        using c1(5) by auto
      from final_attempt [OF assms(1) c1(1-4) r2(1), of 1 path "Some u"] obtain w' where
        "retry_loop cfg ?net path (JObj b) False 1 (Some u) w1 =
           ([Sent u (attempt_url path u) (JObj b) (Inr (Answer resp2))], Inr (u, resp2), w')"
        "wd_stub w' = ?s\<lparr>su_requests := 2\<rparr>" by (auto simp: after_answer_def)
      then show ?thesis using False more w1 r2(2) assms(9) by (simp add: with_retry_def)
    qed
  qed
qed

definition one_failure :: world where
  "one_failure = client_state.extend fresh_single \<lparr>wd_stub = new_stub\<lparr>su_fail_first_n := 1\<rparr>\<rparr>"

definition short_body :: "(string \<times> json) list" where
  "short_body = [(''messages'', JArr [JObj [(''content'', JStr ''hi'')]]), (''max_tokens'', JInt 1)]"

definition short_job :: chat_job where
  "short_job = \<lparr>jb_body = short_body, jb_text = ''The.'', jb_prompt_tokens = 1, jb_completion_tokens = 1\<rparr>"

lemma short_body_loads: "json_loads_bytes (json_dumps (\<lambda>_. []) (JObj short_body)) = Some (JObj short_body)"
proof -
  have "short_int 1" by (simp add: short_int_def max_str_digits_def nat_digits.simps)
  then show ?thesis by (intro loads_bytes_dumps) (simp_all add: short_body_def)
qed

lemma short_body_job: "plain_job (\<lambda>_. []) (\<lambda>_. [0]) (new_stub\<lparr>su_fail_first_n := n\<rparr>) short_body short_job"
  by (simp add: plain_job_def short_body_def short_job_def get_default_def py_or_def prompt_words_def completion_text_def
      new_stub_def tiny_text tiny_split)

theorem retry_recovers_from_one_failure_witness:
  "\<exists>tr resp w'. request default_settings (stub_net (\<lambda>_. []) (\<lambda>_. [0]) 0 ''c'') ''/chat/completions'' (JObj short_body) one_failure
       = (tr, Inr (''a'', resp), w') \<and> length (sends tr) = 2 \<and> rs_status resp = 200"
proof -
  have "rb_state (record_failure (new_breaker ''a'' ''0'') SERVER_ERROR 0) = CLOSED"
    by (simp add: record_failure_def new_breaker_def threshold_def TRIP_SCORE_def Let_def)
  moreover have "rb_state (new_breaker ''a'' ''0'') = CLOSED" by (simp add: new_breaker_def)
  moreover have "stub_ready (wd_stub one_failure)"
    by (simp add: one_failure_def stub_ready_def new_stub_def client_state.defs)
  ultimately show ?thesis
    using retry_recovers_from_one_failure [OF default_breaker, of one_failure "''a''" 0 "\<lambda>_. []" short_body "\<lambda>_. [0]" short_job
        "''c''" "''/chat/completions''"] fresh_single_simps short_body_loads short_body_job [of 1]
    by (fastforce simp: one_failure_def client_state.defs new_stub_def plain_response_def)
qed

end
