(* ===== verification/Script_Base.thy ===== *)
theory Script_Base
  imports Json_Out
begin

section \<open>What the measuring scripts share (scripts/)\<close>

text \<open>
  The Python operations the two scripts use beside those of the gateway: the search for a
  substring, slices and paddings that count characters, \<open>round\<close>, subscripts of a parsed JSON
  value; then the headers and the address both build in the same way. The exceptions of httpx
  are texts, the names of their classes.
\<close>

subsection \<open>Substrings\<close>

text \<open>The leftmost occurrence of a text: what is before it and what follows it.\<close>

fun cut_at :: "string \<Rightarrow> string \<Rightarrow> (string \<times> string) option" where
  "cut_at p [] = (if p = [] then Some ([], []) else None)"
| "cut_at p (c # cs) =
     (if startswith (c # cs) p then Some ([], drop (length p) (c # cs))
      else map_option (apfst ((#) c)) (cut_at p cs))"

definition occurs :: "string \<Rightarrow> string \<Rightarrow> bool" where
  "occurs p s \<longleftrightarrow> cut_at p s \<noteq> None"

lemma cut_Some: "cut_at p s = Some (a, r) \<Longrightarrow> s = a @ p @ r"
proof (induction s arbitrary: a)
  case (Cons c cs)
  then show ?case by (fastforce simp: startswith_iff split: if_splits)
qed (auto split: if_splits)

lemma cut_less: "cut_at p s = Some (a, r) \<Longrightarrow> p \<noteq> [] \<Longrightarrow> length r < length s"
  by (drule cut_Some) auto

lemma cut_Nil: "p \<noteq> [] \<Longrightarrow> cut_at p [] = None"
  by simp

lemma occurs_simps [simp]:
  "occurs p [] \<longleftrightarrow> p = []" "occurs p (c # cs) \<longleftrightarrow> startswith (c # cs) p \<or> occurs p cs"
  by (auto simp: occurs_def)

lemma occurs_iff: "occurs p s \<longleftrightarrow> sublist p s"
  by (induction s) (auto simp: sublist_Cons_right startswith_iff prefix_def)

lemma not_occurs_cut: "\<not> occurs p s \<Longrightarrow> cut_at p s = None"
  by (simp only: occurs_def not_not)

text \<open>What is before the leftmost occurrence has none.\<close>

lemma cut_before: "cut_at p s = Some (a, r) \<Longrightarrow> p \<noteq> [] \<Longrightarrow> \<not> occurs p a"
proof (induction s arbitrary: a)
  case (Cons c cs)
  show ?case
  proof (cases "startswith (c # cs) p")
    case True
    with Cons.prems show ?thesis by simp
  next
    case False
    with Cons.prems(1) obtain b where b: "cut_at p cs = Some (b, r)" "a = c # b" by auto
    from cut_Some [OF b(1)] have cs: "cs = b @ p @ r" .
    have "\<not> startswith (c # b) p"
    proof
      assume "startswith (c # b) p"
      then obtain t where "c # b = p @ t" by (auto simp: startswith_iff)
      then have "c # cs = p @ t @ p @ r" using cs by (metis append.assoc append_Cons)
      with False show False by simp
    qed
    with Cons.IH [OF b(1) Cons.prems(2)] b(2) show ?thesis by simp
  qed
qed simp

lemma occurs_sublist: "occurs p t \<Longrightarrow> sublist t s \<Longrightarrow> occurs p s"
  by (metis occurs_iff sublist_order.order_trans)

lemma cut_found: "\<not> occurs p (a @ butlast p) \<Longrightarrow> p \<noteq> [] \<Longrightarrow> cut_at p (a @ p @ r) = Some (a, r)"
proof (induction a)
  case Nil
  then show ?case by (cases p) (simp_all add: startswith_def)
next
  case (Cons c a)
  have "\<not> startswith (c # a @ p @ r) p"
  proof
    assume "startswith (c # a @ p @ r) p"
    then obtain t where t: "c # a @ p @ r = p @ t" by (auto simp: startswith_iff)
    have "take (length p) (c # a @ p @ r) = take (length p) (c # a @ butlast p)"
      using Cons.prems(2) by (cases p rule: rev_cases) (simp_all add: take_Cons' min_def)
    with t have "take (length p) (c # a @ butlast p) = p" by simp
    then have "startswith (c # a @ butlast p) p" by (simp add: startswith_def)
    with Cons.prems(1) show False by simp
  qed
  moreover have "\<not> occurs p (a @ butlast p)"
    using Cons.prems(1) by simp
  ultimately show ?case using Cons by simp
qed

lemma occurs_mem: "occurs (c # p) s \<Longrightarrow> c \<in> set s"
  by (auto simp: occurs_iff sublist_def)

lemma strip_sublist: "sublist (strip_by q s) s"
proof -
  have "strip_by q s @ rev (takeWhile q (rev (dropWhile q s))) = dropWhile q s"
    by (metis rev_append rev_rev_ident strip_by_def takeWhile_dropWhile_id)
  then have "s = takeWhile q s @ strip_by q s @ rev (takeWhile q (rev (dropWhile q s)))"
    by (metis takeWhile_dropWhile_id)
  then show ?thesis unfolding sublist_def by blast
qed

subsection \<open>Characters\<close>

text \<open>\<open>len(s)\<close>, \<open>s[:n]\<close> and the paddings \<open>{s:<n}\<close>, \<open>{s:>n}\<close> count characters, not bytes.\<close>

definition py_len :: "string \<Rightarrow> nat" where
  "py_len s = length (filter (\<lambda>c. \<not> utf8_cont c) s)"

fun py_take :: "nat \<Rightarrow> string \<Rightarrow> string" where
  "py_take n [] = []"
| "py_take n (c # cs) =
     (if utf8_cont c then c # py_take n cs
      else (case n of 0 \<Rightarrow> [] | Suc m \<Rightarrow> c # py_take m cs))"

definition ljust :: "nat \<Rightarrow> string \<Rightarrow> string" where
  "ljust n s = s @ replicate (n - py_len s) CHR '' ''"

definition rjust :: "nat \<Rightarrow> string \<Rightarrow> string" where
  "rjust n s = replicate (n - py_len s) CHR '' '' @ s"

lemma py_take_Nil: "py_take n s = [] \<Longrightarrow> 0 < n \<Longrightarrow> s = []"
  by (cases s) (auto split: if_splits nat.splits)

lemma py_len_rjust: "py_len s \<le> n \<Longrightarrow> py_len (rjust n s) = n"
  by (simp add: rjust_def py_len_def utf8_cont_def)

subsection \<open>Rounding\<close>

definition half_even :: "real \<Rightarrow> int" where
  "half_even x =
     (let f = \<lfloor>x\<rfloor>; d = x - of_int f in
      if d < 1 / 2 then f else if d > 1 / 2 then f + 1 else if even f then f else f + 1)"

definition py_round :: "nat \<Rightarrow> real \<Rightarrow> real" where
  "py_round n x = of_int (half_even (x * 10 ^ n)) / 10 ^ n"

lemma half_even_bounds: "\<lfloor>x\<rfloor> \<le> half_even x \<and> half_even x \<le> \<lfloor>x\<rfloor> + 1"
  by (simp add: half_even_def Let_def)

lemma half_even_mono: "x \<le> y \<Longrightarrow> half_even x \<le> half_even y"
proof -
  assume le: "x \<le> y"
  then have f: "\<lfloor>x\<rfloor> \<le> \<lfloor>y\<rfloor>" by (rule floor_mono)
  show "half_even x \<le> half_even y"
  proof (cases "\<lfloor>x\<rfloor> = \<lfloor>y\<rfloor>")
    case True
    with le show ?thesis by (auto simp: half_even_def Let_def)
  next
    case False
    with f have "\<lfloor>x\<rfloor> + 1 \<le> \<lfloor>y\<rfloor>" by simp
    with half_even_bounds [of x] half_even_bounds [of y] show ?thesis by linarith
  qed
qed

lemma py_round_mono: "x \<le> y \<Longrightarrow> py_round n x \<le> py_round n y"
  unfolding py_round_def
  by (intro divide_right_mono) (simp_all add: half_even_mono mult_right_mono)

lemma half_even_of_int [simp]: "half_even (of_int i) = i"
  by (simp add: half_even_def)

lemma half_even_near: "\<bar>of_int (half_even x) - x\<bar> \<le> 1 / 2"
  unfolding half_even_def Let_def by (simp; linarith)

lemma py_round_near: "\<bar>py_round n x - x\<bar> \<le> 1 / 2 / 10 ^ n"
proof -
  have "\<bar>py_round n x - x\<bar> = \<bar>of_int (half_even (x * 10 ^ n)) - x * 10 ^ n\<bar> / 10 ^ n"
    by (simp add: py_round_def diff_divide_distrib [symmetric] abs_divide)
      (simp add: field_simps)
  also have "\<dots> \<le> 1 / 2 / 10 ^ n" using half_even_near by (intro divide_right_mono) auto
  finally show ?thesis .
qed

subsection \<open>Subscripts\<close>

text \<open>\<open>v[0]\<close> and \<open>v["k"]\<close> of a parsed JSON value; the keys of an object are texts.\<close>

fun subscript0 :: "json \<Rightarrow> py_exn + json" where
  "subscript0 (JArr (x # xs)) = Inr x"
| "subscript0 (JArr []) = Inl IndexError"
| "subscript0 (JStr s) = (if s = [] then Inl IndexError else Inr (JStr (py_take 1 s)))"
| "subscript0 (JObj kvs) = Inl KeyError"
| "subscript0 v = Inl TypeError"

fun subscript :: "string \<Rightarrow> json \<Rightarrow> py_exn + json" where
  "subscript k (JObj kvs) = (case dict_get kvs k of None \<Rightarrow> Inl KeyError | Some v \<Rightarrow> Inr v)"
| "subscript k v = Inl TypeError"

text \<open>\<open>v.get("k")\<close>: only an object has it.\<close>

fun get_attr :: "string \<Rightarrow> json \<Rightarrow> py_exn + json" where
  "get_attr k (JObj kvs) = Inr (case dict_get kvs k of None \<Rightarrow> JNull | Some v \<Rightarrow> v)"
| "get_attr k v = Inl AttributeError"

subsection \<open>What a script sends with every request\<close>

definition script_headers :: "string \<Rightarrow> (string \<times> string) list" where
  "script_headers api_key =
     (''Content-Type'', ''application/json'') #
     (if api_key = [] then [] else [(''Authorization'', ''Bearer '' @ api_key)])"

definition script_url :: "string \<Rightarrow> string" where
  "script_url base = py_rstrip CHR ''/'' base @ ''/chat/completions''"

text \<open>How a script ends: with an exit code, or with an exception nobody catches.\<close>

datatype script_end = Exit int | Died string

end
