(* ===== verification/B3_Probe.thy ===== *)
theory B3_Probe
  imports Auth Script_Base
begin

section \<open>The reasoning-switch probe (scripts/b3_probe.py)\<close>

text \<open>
  Seven requests, sent one after the other, that find out whether a served model still reasons
  when it is told not to. A row of the result is a Python dictionary, here the association list
  of its JSON values. The network is a parameter: what each request comes back with and how
  long it took. \<open>repr\<close> of a float is the parameter \<open>fr\<close>.
\<close>

subsection \<open>Stripping the reasoning\<close>

text \<open>\<open>_THINK_BLOCK.sub("", text)\<close>: every \<open><think>\<close> up to the next \<open></think>\<close>, from the left.\<close>

function drop_blocks :: "string \<Rightarrow> string" where
  "drop_blocks s =
     (case cut_at ''<think>'' s of
        None \<Rightarrow> s
      | Some (a, r) \<Rightarrow>
          (case cut_at ''</think>'' r of
             None \<Rightarrow> s
           | Some (b, r) \<Rightarrow> a @ drop_blocks r))"
  by pat_completeness auto
termination
  by (relation "measure length") (auto dest!: cut_less)

declare drop_blocks.simps [simp del]

text \<open>\<open>_THINK_UNTERMINATED.sub("", text)\<close>: from the first \<open><think>\<close> left, everything.\<close>

definition drop_open :: "string \<Rightarrow> string" where
  "drop_open s = (case cut_at ''<think>'' s of None \<Rightarrow> s | Some (a, r) \<Rightarrow> a)"

definition strip_think :: "string \<Rightarrow> string" where
  "strip_think s = py_strip (drop_open (drop_blocks s))"

subsection \<open>The matrix\<close>

record b3_case =
  bc_name :: string
  bc_flag :: "bool option"
  bc_prompt :: string
  bc_max_tokens :: int
  bc_why :: string

definition para :: string where "para = [CHR 0xC2, CHR 0xA7]"

definition SUMMARISE :: string where
  "SUMMARISE = ''Summarise the treasury position in one sentence.''"

definition CASES :: "b3_case list" where
  "CASES =
     [\<lparr>bc_name = ''baseline_no_flag'', bc_flag = None, bc_prompt = SUMMARISE, bc_max_tokens = 512, bc_why =
         ''Pre-B3 baseline. Qwen3 is a hybrid reasoning model and its default chat '' @
         ''template emits <think>. If no block appears here, this build's default '' @
         ''differs from what B3 assumed and the rest of the matrix must be re-read.''\<rparr>,
      \<lparr>bc_name = ''flag_false'', bc_flag = Some False, bc_prompt = SUMMARISE, bc_max_tokens = 512, bc_why =
         ''B3's fix on its own. A <think> block here means the flag was ignored.''\<rparr>,
      \<lparr>bc_name = ''flag_false_user_types_think'', bc_flag = Some False,
       bc_prompt = ''/think '' @ SUMMARISE, bc_max_tokens = 512, bc_why =
         ''*** THE OPEN QUESTION (PRD '' @ para @ ''6.1 B3). *** Does the user's soft switch '' @
         ''override the request-level flag?''\<rparr>,
      \<lparr>bc_name = ''flag_false_user_types_no_think'', bc_flag = Some False,
       bc_prompt = ''/no_think '' @ SUMMARISE, bc_max_tokens = 512, bc_why =
         ''Flag and soft switch agree. Confirms the template parses the switch at all, '' @
         ''which is what makes the previous case's result interpretable.''\<rparr>,
      \<lparr>bc_name = ''flag_true_user_types_no_think'', bc_flag = Some True,
       bc_prompt = ''/no_think '' @ SUMMARISE, bc_max_tokens = 512, bc_why =
         ''The mirror image. Together with the case above it establishes which layer '' @
         ''wins, rather than just what happens once.''\<rparr>,
      \<lparr>bc_name = ''flag_absent_tight_budget'', bc_flag = None, bc_prompt = SUMMARISE, bc_max_tokens = 160, bc_why =
         ''Reproduces B3's stated failure exactly: FAQ_MAX_TOKENS = 160 consumed by an '' @
         ''unterminated <think> block, leaving an empty answer after stripping.''\<rparr>,
      \<lparr>bc_name = ''flag_false_tight_budget'', bc_flag = Some False, bc_prompt = SUMMARISE, bc_max_tokens = 160, bc_why =
         ''The same tight budget with the fix on. This is the case that shows B3's fix '' @
         ''is what makes a 160-token allowance usable.''\<rparr>]"

subsection \<open>One request\<close>

definition json_of_flag :: "bool option \<Rightarrow> json" where
  "json_of_flag f = (case f of None \<Rightarrow> JNull | Some b \<Rightarrow> JBool b)"

definition probe_body :: "string \<Rightarrow> b3_case \<Rightarrow> (string \<times> json) list" where
  "probe_body model c =
     [(''model'', JStr model),
      (''messages'', JArr [JObj [(''role'', JStr ''user''), (''content'', JStr (bc_prompt c))]]),
      (''max_tokens'', JInt (bc_max_tokens c)),
      (''stream'', JBool False),
      (''temperature'', JFloat (Fin (7 / 10))), (''top_p'', JFloat (Fin (8 / 10)))] @
     (case bc_flag c of
        None \<Rightarrow> []
      | Some b \<Rightarrow> [(''chat_template_kwargs'', JObj [(''enable_thinking'', JBool b)])])"

text \<open>What comes back: an httpx exception, or a status, the text and the bytes of the body.\<close>

record probe_reply =
  pb_status :: int
  pb_text :: string
  pb_content :: string

datatype probe_outcome = Failed_with string | Replied_with probe_reply

type_synonym row = "(string \<times> json) list"

definition row_start :: "b3_case \<Rightarrow> int \<Rightarrow> real \<Rightarrow> row" where
  "row_start c status latency_ms =
     [(''case'', JStr (bc_name c)),
      (''enable_thinking'', json_of_flag (bc_flag c)),
      (''prompt'', JStr (bc_prompt c)),
      (''max_tokens'', JInt (bc_max_tokens c)),
      (''rationale'', JStr (bc_why c)),
      (''status'', JInt status),
      (''latency_ms'', JFloat (Fin (py_round 1 latency_ms)))]"

text \<open>What the row says of the text of the answer.\<close>

definition row_text :: "string \<Rightarrow> json \<Rightarrow> json \<Rightarrow> row" where
  "row_text raw finish tokens =
     (let stripped = strip_think raw in
      [(''has_think_open'', JBool (occurs ''<think>'' raw)),
       (''has_think_close'', JBool (occurs ''</think>'' raw)),
       (''think_unterminated'', JBool (occurs ''<think>'' raw \<and> \<not> occurs ''</think>'' raw)),
       (''raw_chars'', JInt (int (py_len raw))),
       (''stripped_chars'', JInt (int (py_len stripped))),
       (''empty_after_strip'', JBool (raw \<noteq> [] \<and> stripped = [])),
       (''finish_reason'', finish),
       (''completion_tokens'', tokens),
       (''raw_head'', JStr (py_take 240 raw)),
       (''stripped_head'', JStr (py_take 240 stripped))])"

text \<open>The answer's part of the row, in the order the code evaluates it: the content (a text, for
  \<open>strip_think\<close>), the usage, the finish reason.\<close>

definition row_answer :: "json \<Rightarrow> py_exn + row" where
  "row_answer payload =
     bindE (bindE (subscript ''choices'' payload) subscript0) (\<lambda>choice.
     bindE (bindE (subscript ''message'' choice) (get_attr ''content'')) (\<lambda>content.
       case py_or content (JStr []) of
         JStr raw \<Rightarrow>
           bindE (get_attr ''usage'' payload) (\<lambda>u.
           bindE (get_attr ''finish_reason'' choice) (\<lambda>finish.
           bindE (get_attr ''completion_tokens'' (py_or u (JObj []))) (\<lambda>tokens.
             Inr (row_text raw finish tokens))))
       | _ \<Rightarrow> Inl TypeError))"

definition b3_probe :: "b3_case \<Rightarrow> probe_outcome \<Rightarrow> real \<Rightarrow> string + row" where
  "b3_probe c outcome latency_ms =
     (case outcome of
        Failed_with x \<Rightarrow> Inl x
      | Replied_with resp \<Rightarrow>
          (let row = row_start c (pb_status resp) latency_ms in
           if pb_status resp \<ge> 400 then Inr (row @ [(''error'', JStr (py_take 400 (pb_text resp)))])
           else
             (case json_loads_bytes (pb_content resp) of
                None \<Rightarrow> Inl ''JSONDecodeError''
              | Some payload \<Rightarrow>
                  (case row_answer payload of
                     Inl e \<Rightarrow> Inl (exn_name e)
                   | Inr answer \<Rightarrow> Inr (row @ answer)))))"

subsection \<open>The run\<close>

text \<open>The cases in order, until one raises: the rows, the lines printed, and the exception. The
  network answers the request number \<open>i\<close> with \<open>net i\<close>, \<open>ms i\<close> milliseconds later.\<close>

definition ran_line :: "row \<Rightarrow> (real \<Rightarrow> string) \<Rightarrow> string" where
  "ran_line r fr =
     ''  ran '' @ ljust 32 (py_str fr (get_default r ''case'' JNull)) @ '' status='' @
     py_str fr (get_default r ''status'' JNull)"

fun run_cases ::
  "(nat \<Rightarrow> probe_outcome) \<Rightarrow> (nat \<Rightarrow> real) \<Rightarrow> nat \<Rightarrow> b3_case list \<Rightarrow> row list \<times> string option" where
  "run_cases net ms i [] = ([], None)"
| "run_cases net ms i (c # cs) =
     (case b3_probe c (net i) (ms i) of
        Inl x \<Rightarrow> ([], Some x)
      | Inr row \<Rightarrow> (let (rows, x) = run_cases net ms (i + 1) cs in (row # rows, x)))"

subsection \<open>The report\<close>

definition has_error :: "row \<Rightarrow> bool" where
  "has_error r \<longleftrightarrow> json_truth (get_default r ''error'' JNull)"

text \<open>A field the report prints: \<open>str(r[k])\<close>, padded.\<close>

definition cell :: "(real \<Rightarrow> string) \<Rightarrow> nat \<Rightarrow> string \<Rightarrow> row \<Rightarrow> py_exn + string" where
  "cell fr n k r = bindE (subscript k (JObj r)) (\<lambda>v. Inr (rjust n (py_str fr v)))"

definition report_line :: "(real \<Rightarrow> string) \<Rightarrow> row \<Rightarrow> py_exn + string" where
  "report_line fr r =
     bindE (subscript ''case'' (JObj r)) (\<lambda>name.
       if has_error r then
         Inr (ljust 34 (py_str fr name) @ '' '' @ rjust 6 ''ERROR'' @ ''  '' @
              py_take 40 (py_str fr (get_default r ''error'' JNull)))
       else
         bindE (cell fr 6 ''enable_thinking'' r) (\<lambda>a.
         bindE (cell fr 8 ''has_think_open'' r) (\<lambda>b.
         bindE (cell fr 7 ''think_unterminated'' r) (\<lambda>c.
         bindE (cell fr 6 ''empty_after_strip'' r) (\<lambda>d.
         bindE (cell fr 10 ''finish_reason'' r) (\<lambda>e.
           Inr (ljust 34 (py_str fr name) @ '' '' @ a @ ''  '' @ b @ ''  '' @ c @ ''  '' @ d @ ''  '' @ e)))))))"

fun report :: "(real \<Rightarrow> string) \<Rightarrow> row list \<Rightarrow> string list \<times> py_exn option" where
  "report fr [] = ([], None)"
| "report fr (r # rs) =
     (case report_line fr r of
        Inl e \<Rightarrow> ([], Some e)
      | Inr l \<Rightarrow> (let (ls, e) = report fr rs in (l # ls, e)))"

subsection \<open>The verdicts\<close>

text \<open>\<open>by_name.get(name, {})\<close>: the last row of that name.\<close>

fun by_name :: "row list \<Rightarrow> string \<Rightarrow> row" where
  "by_name [] name = []"
| "by_name (r # rs) name =
     (if by_name rs name \<noteq> [] then by_name rs name
      else if get_default r ''case'' JNull = JStr name then r else [])"

definition no_error :: "row \<Rightarrow> bool" where
  "no_error r \<longleftrightarrow> get_default r ''error'' JNull = JNull"

definition truthy :: "row \<Rightarrow> string \<Rightarrow> bool" where
  "truthy r k \<longleftrightarrow> json_truth (get_default r k JNull)"

definition verdicts :: "(real \<Rightarrow> string) \<Rightarrow> row list \<Rightarrow> string list" where
  "verdicts fr rows =
     (let baseline = by_name rows ''baseline_no_flag'';
          fix' = by_name rows ''flag_false'';
          override = by_name rows ''flag_false_user_types_think'';
          tight_off = by_name rows ''flag_absent_tight_budget'';
          tight_on = by_name rows ''flag_false_tight_budget''
      in (if no_error baseline \<and> \<not> truthy baseline ''has_think_open'' then
            [''! baseline_no_flag produced NO <think> block. This build does not '' @
             ''default to thinking mode, so B3's premise does not hold as stated '' @
             ''here and every verdict below must be read in that light.'']
          else []) @
         (if no_error fix' then
            [''B3 fix alone (enable_thinking: false): '' @
             (if \<not> truthy fix' ''has_think_open'' then ''WORKS -- no reasoning block'' else ''IGNORED -- block still present'')]
          else []) @
         (if no_error override then
            (if truthy override ''has_think_open'' then
               [''*** `/think` OVERRIDES the request flag. *** The soft switch wins. '' @
                ''The `strip_think` stripper is therefore LOAD-BEARING, not a belt: '' @
                ''any user typing /think re-enables reasoning, and with a tight '' @
                ''max_tokens their answers silently degrade to RAG-only. Consider '' @
                ''stripping the switch from user input at the app boundary.'']
             else
               [''`/think` does NOT override the request flag. enable_thinking: false '' @
                ''holds even when the user asks for reasoning, so the stripper is a '' @
                ''belt rather than the primary defence.''])
          else []) @
         (if no_error tight_off \<and> no_error tight_on then
            [''B3's stated failure at max_tokens=160: '' @
             ''empty_after_strip='' @ py_str fr (get_default tight_off ''empty_after_strip'' JNull) @ '' without the '' @
             ''fix, '' @ py_str fr (get_default tight_on ''empty_after_strip'' JNull) @ '' with it'']
          else []))"

subsection \<open>The main program\<close>

record b3_args =
  b3_url :: string
  b3_direct :: bool
  b3_api_key :: string
  b3_model :: string
  b3_output :: string

definition b3_arg_defaults :: b3_args where
  "b3_arg_defaults =
     \<lparr>b3_url = ''http://127.0.0.1:8080/v1'', b3_direct = False, b3_api_key = [],
      b3_model = ''Qwen/Qwen3-8B-AWQ'', b3_output = ''logs/b3_probe.jsonl''\<rparr>"

definition b3_header :: "b3_args \<Rightarrow> string \<Rightarrow> json" where
  "b3_header args timestamp =
     JObj [(''kind'', JStr ''header''), (''tool'', JStr ''b3_probe.py''), (''target'', JStr (b3_url args)),
           (''direct'', JBool (b3_direct args)), (''model'', JStr (b3_model args)), (''timestamp'', JStr timestamp)]"

definition TABLE_HEAD :: string where
  "TABLE_HEAD = ljust 34 ''case'' @ '' '' @ rjust 6 ''flag'' @ ''  '' @ rjust 8 ''<think>'' @ ''  '' @ rjust 7 ''unterm'' @
     ''  '' @ rjust 6 ''empty'' @ ''  '' @ rjust 10 ''finish''"

text \<open>The last lines and the exit code.\<close>

definition b3_finish :: "(real \<Rightarrow> string) \<Rightarrow> b3_args \<Rightarrow> row list \<Rightarrow> string list \<times> int" where
  "b3_finish fr args rows =
     (let failures = filter has_error rows in
      ([[], ''wrote '' @ b3_output args] @
       (if failures \<noteq> [] then
          [''WARNING: '' @ str_int (int (length failures)) @ '' case(s) errored and have no verdict: '' @
           py_repr fr (JArr (map (\<lambda>r. get_default r ''case'' JNull) failures))]
        else []),
       if failures \<noteq> [] then 1 else 0))"

record b3_run =
  br_file :: "json list"
  br_printed :: "string list"
  br_end :: script_end

definition b3_main ::
  "(real \<Rightarrow> string) \<Rightarrow> b3_args \<Rightarrow> string \<Rightarrow> (nat \<Rightarrow> probe_outcome) \<Rightarrow> (nat \<Rightarrow> real) \<Rightarrow> b3_run" where
  "b3_main fr args timestamp net ms =
     (let (rows, died) = run_cases net ms 0 CASES;
          file = b3_header args timestamp # map (\<lambda>r. JObj ((''kind'', JStr ''case'') # r)) rows;
          ran = map (\<lambda>r. ran_line r fr) rows
      in case died of
           Some x \<Rightarrow> \<lparr>br_file = file, br_printed = ran, br_end = Died x\<rparr>
         | None \<Rightarrow>
             (let (lines, e) = report fr rows;
                  printed = ran @ [[], TABLE_HEAD, replicate 84 CHR ''-''] @ lines
              in case e of
                   Some x \<Rightarrow> \<lparr>br_file = file, br_printed = printed, br_end = Died (exn_name x)\<rparr>
                 | None \<Rightarrow>
                     (let (last_lines, code) = b3_finish fr args rows
                      in \<lparr>br_file = file,
                          br_printed = printed @ [[], ''=== Verdicts ==='' ] @ verdicts fr rows @ last_lines,
                          br_end = Exit code\<rparr>)))"

end
