(* ===== verification/B3_Laws.thy ===== *)
theory B3_Laws
  imports B3_Probe Stub_Laws
begin

section \<open>What the probe's verdicts are worth\<close>

text \<open>
  The stripper against the stub's reasoning, the rows against the answers, the exit code
  against the replies, and the probe's bodies through the gateway.
\<close>

subsection \<open>Stripping\<close>

text \<open>A text without the opening tag is only stripped of white space.\<close>

lemma drop_blocks_plain: "\<not> occurs ''<think>'' s \<Longrightarrow> drop_blocks s = s"
  by (simp add: not_occurs_cut drop_blocks.simps [of s])

lemma strip_think_plain: "\<not> occurs ''<think>'' s \<Longrightarrow> strip_think s = py_strip s"
  by (simp add: strip_think_def drop_blocks_plain drop_open_def not_occurs_cut)

lemma drop_open_none: "\<not> occurs ''<think>'' (drop_open s)"
proof (cases "cut_at ''<think>'' s")
  case None
  then show ?thesis by (simp add: drop_open_def occurs_def)
next
  case (Some ar)
  then show ?thesis using cut_before [of "''<think>''" s] by (cases ar) (simp add: drop_open_def)
qed

lemma strip_think_none: "\<not> occurs ''<think>'' (strip_think s)"
  unfolding strip_think_def using drop_open_none occurs_sublist strip_sublist by blast

text \<open>The stripper leaves no trace: no opening tag survives it, wherever the tags stand, however
  they nest or overlap and even when removing one block forms another, and stripping again
  changes nothing.\<close>

theorem strip_think_leaves_no_tag:
  "\<not> occurs ''<think>'' (strip_think s) \<and> strip_think (strip_think s) = strip_think s"
  using strip_think_none strip_think_plain by (simp add: strip_think_def)

text \<open>One whole block in front is removed; an unterminated one takes the rest.\<close>

lemma strip_block:
  assumes "\<not> occurs ''</think>'' (b @ butlast ''</think>'')" and "\<not> occurs ''<think>'' r"
  shows "strip_think (''<think>'' @ b @ ''</think>'' @ r) = py_strip r"
proof -
  have "cut_at ''<think>'' (''<think>'' @ b @ ''</think>'' @ r) = Some ([], b @ ''</think>'' @ r)"
    by (simp add: startswith_def)
  moreover have "cut_at ''</think>'' (b @ ''</think>'' @ r) = Some (b, r)"
    using assms(1) by (intro cut_found) auto
  ultimately have "drop_blocks (''<think>'' @ b @ ''</think>'' @ r) = r"
    using assms(2) by (subst drop_blocks.simps) (simp add: drop_blocks_plain)
  with assms(2) show ?thesis
    by (simp add: strip_think_def drop_open_def not_occurs_cut)
qed

lemma strip_unterminated:
  assumes "\<not> occurs ''</think>'' r"
  shows "strip_think (''<think>'' @ r) = []"
proof -
  have c: "cut_at ''<think>'' (''<think>'' @ r) = Some ([], r)" by (simp add: startswith_def)
  have "drop_blocks (''<think>'' @ r) = ''<think>'' @ r"
    using assms by (subst drop_blocks.simps) (simp only: c, simp add: not_occurs_cut)
  then have "drop_open (drop_blocks (''<think>'' @ r)) = []" using c by (simp only: drop_open_def) simp
  then show ?thesis by (simp add: strip_think_def strip_by_def)
qed

text \<open>The stub's filler has no tag and no white space around it.\<close>

lemma stub_words_plain: "\<forall>w \<in> set STUB_WORDS. w \<noteq> [] \<and> (\<forall>c \<in> set w. 97 \<le> (of_char c :: nat) \<and> (of_char c :: nat) \<le> 122)"
  by (simp add: STUB_WORDS_def)

lemma deterministic_shape:
  "\<exists>c t. deterministic_text sha seed n = py_upper_char c # t @ ''.'' \<and> 97 \<le> (of_char c :: nat) \<and> (of_char c :: nat) \<le> 122 \<and>
     (\<forall>d \<in> set t. 97 \<le> (of_char d :: nat) \<or> d = CHR '' '')"
proof -
  let ?ws = "map (word_at (sha seed)) [0..<nat (max 1 n)]"
  let ?s = "py_join '' '' ?ws"
  have w: "word_at (sha seed) i \<noteq> [] \<and> (\<forall>c \<in> set (word_at (sha seed) i). 97 \<le> (of_char c :: nat) \<and> (of_char c :: nat) \<le> 122)" for i
    using word_at_in stub_words_plain by blast
  obtain c t where ct: "word_at (sha seed) 0 = c # t" using w [of 0] by (cases "word_at (sha seed) 0") auto
  have c: "97 \<le> (of_char c :: nat) \<and> (of_char c :: nat) \<le> 122" using w [of 0] ct by simp
  obtain u where u: "?s = c # u" by (simp add: upt_max join_Cons ct)
  have "97 \<le> (of_char d :: nat) \<or> d = CHR '' ''" if "d \<in> set u" for d
    using that u set_py_join [of "'' ''" ?ws] w by fastforce
  with c u show ?thesis by (auto simp: deterministic_text_def Let_def)
qed

lemma upper_not_tag: "97 \<le> (of_char c :: nat) \<Longrightarrow> (of_char c :: nat) \<le> 122 \<Longrightarrow>
    py_upper_char c \<noteq> CHR ''<'' \<and> \<not> py_space (py_upper_char c)"
  by (auto simp: py_upper_char_def py_space_def Let_def dest: arg_cong [of _ _ "of_char :: char \<Rightarrow> nat"])

lemma deterministic_plain: "CHR ''<'' \<notin> set (deterministic_text sha seed n)"
  and deterministic_strip: "py_strip (deterministic_text sha seed n) = deterministic_text sha seed n"
proof -
  obtain c t where s: "deterministic_text sha seed n = py_upper_char c # t @ ''.''" "97 \<le> (of_char c :: nat)"
    "(of_char c :: nat) \<le> 122" "\<forall>d \<in> set t. 97 \<le> (of_char d :: nat) \<or> d = CHR '' ''"
    using deterministic_shape by blast
  have "CHR ''<'' \<notin> set t" using s(4) by force
  then show "CHR ''<'' \<notin> set (deterministic_text sha seed n)" using s(1) upper_not_tag [OF s(2,3)] by auto
  show "py_strip (deterministic_text sha seed n) = deterministic_text sha seed n"
    unfolding s(1) using upper_not_tag [OF s(2,3)] by (intro strip_by_id) (simp add: py_space_def)
qed

lemma not_occurs_tag: "CHR ''<'' \<notin> set s \<Longrightarrow> \<not> occurs (CHR ''<'' # p) s"
  using occurs_mem by blast

lemma not_occurs_close: "CHR ''<'' \<notin> set b \<Longrightarrow> \<not> occurs ''</think>'' (b @ butlast ''</think>'')"
  by (induction b) (auto simp: startswith_def)

text \<open>C35. The stripper undoes the stub's reasoning exactly: what the stub answers with \<open>--stub-think\<close>
  is, stripped, what it answers without it, for every body, digest and length, so a client
  that strips cannot tell the two modes apart.\<close>

theorem strip_undoes_stub_thinking:
  "strip_think (completion_text fr sha st body n) = completion_text fr sha (st\<lparr>su_think := False\<rparr>) body n"
proof -
  let ?s = "deterministic_text sha (seed_of fr body) n"
  let ?b = "[CHR 0x0A] @ deterministic_text sha (''think'' @ seed_of fr body) 40 @ [CHR 0x0A]"
  let ?r = "[CHR 0x0A, CHR 0x0A] @ ?s"
  have plain: "strip_think ?s = ?s"
    using strip_think_plain [OF not_occurs_tag [OF deterministic_plain]] deterministic_strip by simp
  have "\<not> occurs ''</think>'' (?b @ butlast ''</think>'')"
    using deterministic_plain by (intro not_occurs_close) auto
  moreover have "\<not> occurs ''<think>'' ?r" using deterministic_plain by (intro not_occurs_tag) auto
  ultimately have "strip_think (''<think>'' @ ?b @ ''</think>'' @ ?r) = py_strip ?r" by (rule strip_block)
  also have "py_strip ?r = py_strip ?s" by (simp add: strip_by_def py_space_def)
  finally show ?thesis using plain by (simp add: completion_text_def deterministic_strip Let_def)
qed

subsection \<open>The rows\<close>

definition refused :: "probe_outcome \<Rightarrow> bool" where
  "refused x \<longleftrightarrow> (case x of Failed_with e \<Rightarrow> False | Replied_with r \<Rightarrow> pb_status r \<ge> 400)"

definition refused_silently :: "probe_outcome \<Rightarrow> bool" where
  "refused_silently x \<longleftrightarrow> (case x of Failed_with e \<Rightarrow> False | Replied_with r \<Rightarrow> pb_status r \<ge> 400 \<and> pb_text r = [])"

lemma row_answer_Inr: "row_answer payload = Inr row \<Longrightarrow> \<exists>raw f t. row = row_text raw f t"
proof -
  assume r: "row_answer payload = Inr row"
  then obtain choice content where "(case py_or content (JStr []) of
         JStr raw \<Rightarrow>
           bindE (get_attr ''usage'' payload) (\<lambda>u.
           bindE (get_attr ''finish_reason'' choice) (\<lambda>finish.
           bindE (get_attr ''completion_tokens'' (py_or u (JObj []))) (\<lambda>tokens.
             Inr (row_text raw finish tokens))))
       | _ \<Rightarrow> Inl TypeError) = Inr row"
    unfolding row_answer_def bindE_Inr by blast
  then show ?thesis by (auto simp: bindE_Inr split: json.split_asm)
qed

text \<open>A row either ends in the error's text or tells of the answer.\<close>

lemma probe_row:
  assumes "b3_probe c x ms = Inr row"
  obtains (error) r where "x = Replied_with r" and "refused x"
      and "row = row_start c (pb_status r) ms @ [(''error'', JStr (py_take 400 (pb_text r)))]"
  | (answer) r raw f t where "x = Replied_with r" and "\<not> refused x" and "row = row_start c (pb_status r) ms @ row_text raw f t"
proof (cases x)
  case (Replied_with r)
  show ?thesis
  proof (cases "400 \<le> pb_status r")
    case True
    with Replied_with assms show ?thesis by (intro error [of r]) (auto simp: b3_probe_def refused_def Let_def)
  next
    case False
    then obtain payload a where a: "row_answer payload = Inr a" "row = row_start c (pb_status r) ms @ a"
      using assms Replied_with by (auto simp: b3_probe_def Let_def split: option.splits sum.splits)
    from row_answer_Inr [OF a(1)] a(2) False Replied_with show ?thesis
      by (auto intro: answer simp: refused_def)
  qed
qed (use assms in \<open>simp add: b3_probe_def\<close>)

lemma probe_case_name: "b3_probe c x ms = Inr row \<Longrightarrow> dict_get row ''case'' = Some (JStr (bc_name c))"
  by (erule probe_row) (simp_all add: row_start_def)

lemma get_error_row:
  "get_default (row_start c st ms @ [(''error'', v)]) ''error'' JNull = v"
  "get_default (row_start c st ms @ row_text raw f t) ''error'' JNull = JNull"
  by (simp_all add: get_default_def row_start_def row_text_def Let_def)

lemma probe_has_error:
  assumes "b3_probe c x ms = Inr row"
  shows "has_error row \<longleftrightarrow> refused x \<and> \<not> refused_silently x"
  using assms
proof (cases rule: probe_row)
  case (error r)
  have "py_take 400 (pb_text r) = [] \<longleftrightarrow> pb_text r = []" using py_take_Nil [of 400 "pb_text r"] by auto
  with error show ?thesis by (simp add: has_error_def get_error_row refused_def refused_silently_def)
next
  case (answer r raw f t)
  then show ?thesis by (simp add: has_error_def get_error_row)
qed

lemma probe_report_line:
  assumes "b3_probe c x ms = Inr row"
  shows "if refused_silently x then report_line fr row = Inl KeyError else \<exists>l. report_line fr row = Inr l"
proof -
  note e = probe_has_error [OF assms]
  show ?thesis
    using assms
  proof (cases rule: probe_row)
    case (error r)
    then show ?thesis using e
      by (auto simp: report_line_def cell_def row_start_def refused_silently_def refused_def)
  next
    case (answer r raw f t)
    then show ?thesis using e
      by (simp add: report_line_def cell_def row_start_def row_text_def Let_def refused_def refused_silently_def split: if_splits)
  qed
qed

lemma run_cases_rows:
  "run_cases net ms i cs = (rows, None) \<Longrightarrow>
   length rows = length cs \<and> (\<forall>k < length cs. b3_probe (cs ! k) (net (i + k)) (ms (i + k)) = Inr (rows ! k))"
proof (induction cs arbitrary: i rows)
  case (Cons c cs)
  obtain row rest where r: "b3_probe c (net i) (ms i) = Inr row" "run_cases net ms (i + 1) cs = (rest, None)" "rows = row # rest"
    using Cons.prems by (auto simp: Let_def split: sum.splits prod.splits)
  with Cons.IH [OF r(2)] show ?case by (auto simp: less_Suc_eq_0_disj)
qed simp

lemma report_KeyError:
  assumes "\<And>r e. r \<in> set rs \<Longrightarrow> report_line fr r = Inl e \<Longrightarrow> e = KeyError"
  shows "snd (report fr rs) = (if \<exists>r \<in> set rs. \<exists>e. report_line fr r = Inl e then Some KeyError else None)"
  using assms
proof (induction rs)
  case (Cons r rs)
  have "snd (report fr rs) = (if \<exists>r \<in> set rs. \<exists>e. report_line fr r = Inl e then Some KeyError else None)"
    using Cons.prems by (intro Cons.IH) (meson list.set_intros(2))
  with Cons.prems [of r] show ?case
    by (cases "report_line fr r") (auto simp: Let_def split: prod.splits, blast)
qed simp

text \<open>The exception a request ends the script with: httpx could not send it, or its answer, though no
  refusal, does not hold what the row is built from.\<close>

definition failure :: "probe_outcome \<Rightarrow> string option" where
  "failure x =
     (case x of
        Failed_with n \<Rightarrow> Some n
      | Replied_with r \<Rightarrow>
          if pb_status r \<ge> 400 then None
          else
            (case json_loads_bytes (pb_content r) of
               None \<Rightarrow> Some ''JSONDecodeError''
             | Some payload \<Rightarrow> (case row_answer payload of Inl e \<Rightarrow> Some (exn_name e) | Inr a \<Rightarrow> None)))"

lemma probe_failure: "b3_probe c x ms = (case failure x of Some n \<Rightarrow> Inl n | None \<Rightarrow> Inr (projr (b3_probe c x ms)))"
  by (auto simp: b3_probe_def failure_def Let_def split: probe_outcome.split option.split sum.split)

lemma run_cases_failure:
  "snd (run_cases net ms i cs) =
     (case find (\<lambda>k. failure (net k) \<noteq> None) [i..<i + length cs] of None \<Rightarrow> None | Some k \<Rightarrow> failure (net k))"
proof (induction cs arbitrary: i)
  case (Cons c cs)
  have u: "[i..<i + length (c # cs)] = i # [i + 1..<i + 1 + length cs]" by (simp add: upt_conv_Cons del: upt_Suc)
  show ?case
    unfolding u using probe_failure [of c "net i" "ms i"] Cons.IH [of "i + 1"]
    by (cases "failure (net i)") (auto simp: split_beta simp del: upt_Suc split: sum.splits)
qed simp

text \<open>The status the shell sees: an exception that leaves \<open>main\<close> is a traceback and status 1.\<close>

definition exit_status :: "script_end \<Rightarrow> int" where
  "exit_status e = (case e of Exit c \<Rightarrow> c | Died x \<Rightarrow> 1)"

text \<open>C37. How a run of the probe ends, whatever comes back. The shell sees status 0 when all seven requests
  were answered with what a row needs, and 1 otherwise, so a run without seven verdicts is never
  reported as a success. In detail: the first request that cannot be sent, or whose answer is no
  refusal but cannot be read, ends the run with its exception; when there is none, a refusal (status
  400 or more) with an empty body ends the report with a \<open>KeyError\<close>, because its error text is
  false and the row is taken for an answer; and otherwise the script returns 1 if some request
  was refused and 0 if none was.\<close>

theorem probe_exit_code:
  "(let e = br_end (b3_main fr args timestamp net ms) in
      e = (case find (\<lambda>i. failure (net i) \<noteq> None) [0..<7] of
             Some i \<Rightarrow> Died (the (failure (net i)))
           | None \<Rightarrow>
               if \<exists>i < 7. refused_silently (net i) then Died ''KeyError''
               else Exit (if \<exists>i < 7. refused (net i) then 1 else 0)) \<and>
      exit_status e = (if \<forall>i < 7. failure (net i) = None \<and> \<not> refused (net i) then 0 else 1))"
proof -
  have len: "length CASES = 7" by (simp add: CASES_def)
  obtain rows died where run: "run_cases net ms 0 CASES = (rows, died)" by fastforce
  have died: "died = (case find (\<lambda>k. failure (net k) \<noteq> None) [0..<7] of None \<Rightarrow> None | Some k \<Rightarrow> failure (net k))"
    using run_cases_failure [of net ms 0 CASES] by (simp add: run len)
  show ?thesis
  proof (cases "find (\<lambda>k. failure (net k) \<noteq> None) [0..<7]")
    case (Some i)
    then obtain n where n: "failure (net i) = Some n" "i < 7" by (auto simp: find_Some_iff)
    then have "br_end (b3_main fr args timestamp net ms) = Died n" using died Some run by (simp add: b3_main_def)
    then show ?thesis using Some n by (auto simp: exit_status_def)
  next
    case None
    then have run: "run_cases net ms 0 CASES = (rows, None)" using run died by simp
    note r = run_cases_rows [OF run, unfolded len add_0]
    have ix: "(\<exists>r \<in> set rows. P r) \<longleftrightarrow> (\<exists>i < 7. P (rows ! i))" for P
      using r by (metis in_set_conv_nth)
    have line: "(\<exists>e. report_line fr (rows ! i) = Inl e) \<longleftrightarrow> refused_silently (net i)"
      "report_line fr (rows ! i) = Inl e \<Longrightarrow> e = KeyError" if "i < 7" for i e
      using probe_report_line [of "CASES ! i" "net i" "ms i" "rows ! i" fr] r that by (auto split: if_splits)
    have key: "snd (report fr rows) = (if \<exists>i < 7. refused_silently (net i) then Some KeyError else None)"
      using report_KeyError [of rows fr] line ix [of "\<lambda>r. \<exists>e. report_line fr r = Inl e"] r
      by (metis in_set_conv_nth)
    have err: "filter has_error rows \<noteq> [] \<longleftrightarrow> (\<exists>i < 7. refused (net i) \<and> \<not> refused_silently (net i))"
      using ix [of has_error] probe_has_error [of "CASES ! i" "net i" "ms i" "rows ! i" for i] r by (metis filter_empty_conv)
    have e: "br_end (b3_main fr args timestamp net ms) =
       (if \<exists>i < 7. refused_silently (net i) then Died ''KeyError'' else Exit (if \<exists>i < 7. refused (net i) then 1 else 0))"
      using key err by (auto simp: b3_main_def run b3_finish_def Let_def split: prod.splits)
    have "\<forall>i < 7. failure (net i) = None" using None by (simp add: find_None_iff)
    moreover have "refused_silently x \<Longrightarrow> refused x" for x by (simp add: refused_silently_def refused_def split: probe_outcome.splits)
    ultimately show ?thesis using None unfolding e by (auto simp: exit_status_def)
  qed
qed

text \<open>A reasoning block that never closes is named for what it is: whenever a request is answered
  and the text is an opening tag followed by anything without a closing one, the row says that
  the block was opened and not closed and that nothing survived the stripping, whatever the
  token allowance and the rest of the answer were.\<close>

theorem unterminated_block_is_named:
  assumes "pb_status r < 400" and "json_loads_bytes (pb_content r) = Some (JObj payload)"
    and "dict_get payload ''choices'' = Some (JArr (JObj choice # choices))"
    and "dict_get choice ''message'' = Some (JObj message)"
    and "dict_get message ''content'' = Some (JStr (''<think>'' @ rest))" and "\<not> occurs ''</think>'' rest"
    and "get_default payload ''usage'' JNull \<in> {JNull, JObj usage}"
  shows "\<exists>row. b3_probe c (Replied_with r) ms = Inr row \<and> truthy row ''has_think_open'' \<and> truthy row ''think_unterminated'' \<and>
     truthy row ''empty_after_strip'' \<and> dict_get row ''stripped_chars'' = Some (JInt 0) \<and> no_error row"
proof -
  define raw where "raw = ''<think>'' @ rest"
  have o: "occurs ''<think>'' raw" and c: "\<not> occurs ''</think>'' raw" and ne: "raw \<noteq> []"
    using assms(6) by (simp_all add: startswith_def raw_def)
  have s: "strip_think raw = []" unfolding raw_def using assms(6) by (rule strip_unterminated)
  have u: "get_attr ''completion_tokens'' (py_or (get_default payload ''usage'' JNull) (JObj [])) \<in> range Inr"
    using assms(7) by (auto simp: py_or_def)
  have g: "(case dict_get payload ''usage'' of None \<Rightarrow> JNull | Some v \<Rightarrow> v) = get_default payload ''usage'' JNull"
    by (simp add: get_default_def)
  obtain f t where "row_answer (JObj payload) = Inr (row_text raw f t)"
    using assms(3-5) [folded raw_def] u ne by (auto simp: row_answer_def py_or_def g)
  with assms(1,2) show ?thesis
    using o c s ne
    by (simp add: b3_probe_def row_start_def row_text_def Let_def truthy_def get_default_def no_error_def py_len_def)
qed

text \<open>A network that refuses everything, with a status and a text.\<close>

definition refusal_net :: "string \<Rightarrow> nat \<Rightarrow> probe_outcome" where
  "refusal_net t i = Replied_with \<lparr>pb_status = 503, pb_text = t, pb_content = t\<rparr>"

definition unreachable_net :: "nat \<Rightarrow> probe_outcome" where
  "unreachable_net i = Failed_with ''ConnectError''"

theorem probe_exit_code_witness:
  "br_end (b3_main (\<lambda>_. []) b3_arg_defaults [] (refusal_net []) (\<lambda>_. 0)) = Died ''KeyError'' \<and>
   br_end (b3_main (\<lambda>_. []) b3_arg_defaults [] (refusal_net ''no'') (\<lambda>_. 0)) = Exit 1 \<and>
   br_end (b3_main (\<lambda>_. []) b3_arg_defaults [] unreachable_net (\<lambda>_. 0)) = Died ''ConnectError''"
proof -
  have "refused_silently (refusal_net [] 0)" "\<not> refused_silently (refusal_net ''no'' i)" "refused (refusal_net ''no'' 0)" for i
    by (simp_all add: refused_silently_def refused_def refusal_net_def)
  moreover from this have "\<exists>i < 7. refused_silently (refusal_net [] i)" "\<exists>i < 7. refused (refusal_net ''no'' i)"
    by (intro exI [of _ 0]; simp)+
  moreover have "find (\<lambda>i. failure (refusal_net t i) \<noteq> None) [0..<7] = None" for t
    by (simp add: find_None_iff failure_def refusal_net_def)
  moreover have "find (\<lambda>i. failure (unreachable_net i) \<noteq> None) [0..<7] = Some 0"
    by (simp add: upt_rec failure_def unreachable_net_def)
  ultimately show ?thesis
    using probe_exit_code [of "\<lambda>_. []" b3_arg_defaults "[]" _ "\<lambda>_. 0"]
    by (simp add: Let_def) (simp add: failure_def unreachable_net_def)
qed

definition cut_short :: probe_reply where
  "cut_short = \<lparr>pb_status = 200, pb_text = [], pb_content =
     ''{'' @ quo @ ''choices'' @ quo @ '':[{'' @ quo @ ''message'' @ quo @ '':{'' @ quo @ ''content'' @ quo @ '':'' @ quo @
     ''<think>so'' @ quo @ ''}}]}''\<rparr>"

lemma cut_short_loads:
  "json_loads_bytes (pb_content cut_short) =
     Some (JObj [(''choices'', JArr [JObj [(''message'', JObj [(''content'', JStr ''<think>so'')])]])])"
  by code_simp

theorem unterminated_block_is_named_witness:
  "\<exists>row. b3_probe (CASES ! 5) (Replied_with cut_short) 1 = Inr row \<and> truthy row ''empty_after_strip''"
  using unterminated_block_is_named [OF _ cut_short_loads, where rest = "''so''" and c = "CASES ! 5" and ms = 1]
  by (fastforce simp: cut_short_def get_default_def startswith_def)

subsection \<open>The probe through the gateway\<close>

lemma CASES_small:
  "c \<in> set CASES \<Longrightarrow> length (py_split (bc_prompt c)) \<le> 8 \<and> 1 \<le> bc_max_tokens c \<and> bc_max_tokens c \<le> 512"
proof -
  have "list_all (\<lambda>c. length (py_split (bc_prompt c)) \<le> 8 \<and> 1 \<le> bc_max_tokens c \<and> bc_max_tokens c \<le> 512) CASES"
    by code_simp
  then show "c \<in> set CASES \<Longrightarrow> ?thesis" by (simp add: list_all_iff)
qed

text \<open>The gateway changes nothing of the probe's requests, so the run through it and the direct run
  test the same thing: for every case of the matrix, in whatever bytes the client sent it, a
  principal with the scope passes validation, and the only body any replica can be sent is the
  probe's own, \<open>chat_template_kwargs\<close> included, with its token allowance unclamped.\<close>

theorem gateway_keeps_probe_bodies:
  assumes "c \<in> set CASES" and "json_loads_bytes raw = Some (JObj (probe_body model c))"
    and "int (length raw) \<le> MAX_BODY_BYTES cfg" and "8 \<le> MAX_PROMPT_TOKENS cfg" and "512 \<le> MAX_COMPLETION_TOKENS cfg"
    and "has_scope p ''chat''" and "model \<in> set (ALLOWED_MODELS cfg)"
    and "chat_completions cfg env p raw st = (tr, h, st')"
  shows "chat_validate cfg (ce_repr env) p raw = Inr (JStr model, probe_body model c, False) \<and>
     set (sent_bodies tr) \<subseteq> {JObj (probe_body model c)}"
proof -
  have get: "get_default (probe_body model c) ''model'' JNull = JStr model"
    "get_default (probe_body model c) ''messages'' JNull = JArr [JObj [(''role'', JStr ''user''), (''content'', JStr (bc_prompt c))]]"
    "get_default (probe_body model c) ''max_tokens'' JNull = JInt (bc_max_tokens c)"
    "get_default (probe_body model c) ''stream'' JNull = JBool False"
    by (simp_all add: probe_body_def get_default_def)
  have content: "get_default [(''role'', JStr ''user''), (''content'', v)] ''content'' d = v" for v d
    by (simp add: get_default_def)
  have keep: "dict_set ''max_tokens'' (JInt (bc_max_tokens c)) (probe_body model c) = probe_body model c"
    by (simp add: probe_body_def)
  have clamp: "clamp_max_tokens cfg (JStr model) (probe_body model c) = Inr (probe_body model c)"
    using CASES_small [OF assms(1)] assms(5) by (simp add: clamp_max_tokens_def get(3) min_absorb1 keep)
  have v: "chat_validate cfg (ce_repr env) p raw = Inr (JStr model, probe_body model c, False)"
    using assms(2-7) CASES_small [OF assms(1)]
    by (simp add: chat_validate_def get content clamp model_allowed_def Let_def)
  moreover have "b = JObj (probe_body model c)" if "b \<in> set (sent_bodies tr)" for b
    using chat_completions_sent [OF assms(8) that] v by auto
  ultimately show ?thesis by blast
qed

definition tenths :: "real \<Rightarrow> string" where
  "tenths x = (if x = 7 / 10 then ''0.7'' else ''0.8'')"

lemma tenths_print: "prints_float tenths (7 / 10)" "prints_float tenths (8 / 10)"
proof -
  have "json_value (Suc n) (''0.7'' @ r) = Some (JFloat (Fin (7 / 10)), r)" and
    "json_value (Suc n) (''0.8'' @ r) = Some (JFloat (Fin (8 / 10)), r)" if "value_end r" for n r
    using value_end_plain [OF that] that
    by (cases r, auto simp: json_value.simps json_word_def startswith_def json_number_def json_fraction_def is_digit_def
        value_end_def json_space_def Let_def digits_val_def digit_val_def to_pyfloat_def float_limit_def json_exponent_def)+
  then show "prints_float tenths (7 / 10)" "prints_float tenths (8 / 10)"
    by (simp_all add: prints_float_def tenths_def json_space_def)
qed

definition open_question :: b3_case where "open_question = CASES ! 2"

definition probe_raw :: string where
  "probe_raw = json_dumps tenths (JObj (probe_body STUB_MODEL open_question))"

lemma probe_raw_loads: "json_loads_bytes probe_raw = Some (JObj (probe_body STUB_MODEL open_question))"
proof -
  have "short_int 512" by (simp add: short_int_def max_str_digits_def nat_digits.simps)
  then have "printable tenths (JObj (probe_body STUB_MODEL open_question))" "ascii_json tenths (JObj (probe_body STUB_MODEL open_question))"
    using tenths_print
    by (simp_all add: probe_body_def open_question_def CASES_def SUMMARISE_def STUB_MODEL_def tenths_def)
  then show ?thesis unfolding probe_raw_def by (rule loads_bytes_dumps)
qed

theorem gateway_keeps_probe_bodies_witness:
  "chat_validate default_settings (\<lambda>_. []) demo_principal probe_raw =
     Inr (JStr STUB_MODEL, probe_body STUB_MODEL open_question, False)"
proof -
  obtain tr h st' where r: "chat_completions default_settings (quiet_env (Answer demo_response)) demo_principal probe_raw demo_gateway
      = (tr, h, st')" by (metis prod_cases3)
  have "int (length probe_raw) \<le> 1048576"
    by (simp add: probe_raw_def probe_body_def open_question_def CASES_def SUMMARISE_def STUB_MODEL_def tenths_def
        dumps_str_def escape_char_def str_int_def nat_digits.simps)
  moreover have "open_question \<in> set CASES" by (simp add: open_question_def CASES_def)
  moreover have "STUB_MODEL \<in> set (ALLOWED_MODELS default_settings)" by (simp add: STUB_MODEL_def default_models)
  ultimately show ?thesis
    using gateway_keeps_probe_bodies [OF _ probe_raw_loads _ _ _ demo_scope _ r] by (simp add: quiet_env_def)
qed

end
