(* ===== verification/Loadgen.thy ===== *)
theory Loadgen
  imports Stub Script_Base
begin

section \<open>The load generator (scripts/loadgen.py)\<close>

text \<open>
  Streamed requests at several levels of concurrency, timed frame by frame, and their
  summary. A request's dealings with the network are the record \<open>exchange\<close>: the reply's status
  and lines, the exceptions of httpx (by name), and the clock readings the code takes. A
  level's requests complete in some order, which is a parameter. SHA-256 is the parameter
  \<open>sha\<close>, \<open>repr\<close> of a float \<open>fr\<close>. Token counts that are floats are not modelled.
\<close>

subsection \<open>Percentiles\<close>

definition interpolate :: "real list \<Rightarrow> real \<Rightarrow> real" where
  "interpolate ordered pos =
     (let lo = nat \<lfloor>pos\<rfloor>; hi = min (lo + 1) (length ordered - 1); frac = pos - real lo
      in ordered ! lo * (1 - frac) + ordered ! hi * frac)"

definition pct :: "real list \<Rightarrow> real \<Rightarrow> real option" where
  "pct values q =
     (if values = [] then None
      else
        (let ordered = sort values in
         if length ordered = 1 then Some (py_round 2 (ordered ! 0))
         else Some (py_round 2 (interpolate ordered (real (length ordered - 1) * q)))))"

subsection \<open>The prompts\<close>

definition filler :: "(string \<Rightarrow> nat list) \<Rightarrow> int \<Rightarrow> string option \<Rightarrow> string" where
  "filler sha n_words seed =
     (let material = (case seed of None \<Rightarrow> ''shared-prefix'' | Some s \<Rightarrow> if s = [] then ''shared-prefix'' else s);
          digest = sha material
      in py_join '' '' (map (word_at digest) [0..<nat (max 1 n_words)]))"

definition filler_words :: "int \<Rightarrow> int" where
  "filler_words ctx_tokens = (if ctx_tokens < 0 then \<lceil>of_int ctx_tokens * (3 / 4 :: real)\<rceil> else \<lfloor>of_int ctx_tokens * (3 / 4 :: real)\<rfloor>)"

definition build_prompt :: "(string \<Rightarrow> nat list) \<Rightarrow> string \<Rightarrow> string \<Rightarrow> int \<Rightarrow> bool \<Rightarrow> json list" where
  "build_prompt sha nonce shared_prefix ctx_tokens unique_prefix =
     (let prefix' = (if unique_prefix then filler sha (filler_words ctx_tokens) (Some nonce) else shared_prefix)
      in [JObj [(''role'', JStr ''system''), (''content'', JStr prefix')],
          JObj [(''role'', JStr ''user''), (''content'', JStr (''Summarise position '' @ nonce @ '' in one paragraph.''))]])"

definition load_body :: "string \<Rightarrow> json list \<Rightarrow> int \<Rightarrow> (string \<times> json) list" where
  "load_body model messages max_tokens =
     [(''model'', JStr model), (''messages'', JArr messages), (''max_tokens'', JInt max_tokens), (''stream'', JBool True),
      (''stream_options'', JObj [(''include_usage'', JBool True)]),
      (''temperature'', JFloat (Fin (7 / 10))), (''top_p'', JFloat (Fin (8 / 10)))]"

subsection \<open>One request\<close>

record request_result =
  rr_level :: int
  rr_worker :: int
  rr_ok :: bool
  rr_status :: "int option"
  rr_error :: "string option"
  rr_ttft_ms :: "real option"
  rr_decode_ms :: "real option"
  rr_total_ms :: "real option"
  rr_prompt_tokens :: json
  rr_completion_tokens :: json
  rr_decode_tok_s :: "real option"
  rr_usage_reported :: bool

definition new_result :: "int \<Rightarrow> int \<Rightarrow> request_result" where
  "new_result level worker =
     \<lparr>rr_level = level, rr_worker = worker, rr_ok = False, rr_status = None, rr_error = None, rr_ttft_ms = None,
      rr_decode_ms = None, rr_total_ms = None, rr_prompt_tokens = JNull, rr_completion_tokens = JNull,
      rr_decode_tok_s = None, rr_usage_reported = False\<rparr>"

text \<open>The exchange: no reply at all, or a reply. \<open>ex_lines\<close> is what \<open>aiter_lines\<close> yields before it
  stops or raises \<open>ex_end\<close>; \<open>ex_read\<close> and \<open>ex_close\<close> are what \<open>aread\<close> and leaving the context
  raise. \<open>ex_now i\<close> is the clock at the content frame number \<open>i\<close>.\<close>

record exchange =
  ex_refused :: "string option"
  ex_status :: int
  ex_lines :: "string list"
  ex_end :: "string option"
  ex_read :: "string option"
  ex_close :: "string option"
  ex_start :: real
  ex_now :: "nat \<Rightarrow> real"
  ex_stop :: real

record frames =
  fs_first :: "real option"
  fs_last :: "real option"
  fs_count :: nat
  fs_usage :: json

definition no_frames :: frames where
  "no_frames = \<lparr>fs_first = None, fs_last = None, fs_count = 0, fs_usage = JNull\<rparr>"

text \<open>\<open>(choices[0].get("delta") or {}).get("content") or ""\<close>, of true \<open>choices\<close>.\<close>

definition delta_content :: "json \<Rightarrow> py_exn + json" where
  "delta_content choices =
     bindE (subscript0 choices) (\<lambda>choice.
     bindE (get_attr ''delta'' choice) (\<lambda>delta.
     bindE (get_attr ''content'' (py_or delta (JObj []))) (\<lambda>content.
       Inr (py_or content (JStr [])))))"

definition saw_content :: "(nat \<Rightarrow> real) \<Rightarrow> frames \<Rightarrow> frames" where
  "saw_content clock fs =
     (let now = clock (fs_count fs) in
      fs\<lparr>fs_first := (case fs_first fs of None \<Rightarrow> Some now | Some t \<Rightarrow> Some t),
         fs_last := Some now, fs_count := fs_count fs + 1\<rparr>)"

text \<open>One decoded frame.\<close>

definition read_frame :: "(nat \<Rightarrow> real) \<Rightarrow> json \<Rightarrow> frames \<Rightarrow> py_exn option \<times> frames" where
  "read_frame clock event fs =
     (case get_attr ''usage'' event of
        Inl e \<Rightarrow> (Some e, fs)
      | Inr usage \<Rightarrow>
          (let fs = (if json_truth usage then fs\<lparr>fs_usage := usage\<rparr> else fs) in
           case get_attr ''choices'' event of
             Inl e \<Rightarrow> (Some e, fs)
           | Inr choices \<Rightarrow>
               if \<not> json_truth (py_or choices (JArr [])) then (None, fs)
               else
                 (case delta_content choices of
                    Inl e \<Rightarrow> (Some e, fs)
                  | Inr content \<Rightarrow> (None, if json_truth content then saw_content clock fs else fs))))"

text \<open>Python raises a plain \<open>ValueError\<close>, and no \<open>JSONDecodeError\<close>, for an integer of more than 4300
  digits; a text that does not parse and has such a run of digits is left to that case.\<close>

fun longest_run :: "nat \<Rightarrow> string \<Rightarrow> nat" where
  "longest_run n [] = n"
| "longest_run n (c # cs) = (if is_digit c then longest_run (n + 1) cs else max n (longest_run 0 cs))"

text \<open>The loop over the lines: the exception that ends it, and what was seen.\<close>

fun read_lines :: "(nat \<Rightarrow> real) \<Rightarrow> string list \<Rightarrow> string option \<Rightarrow> frames \<Rightarrow> string option \<times> frames" where
  "read_lines clock [] ending fs = (ending, fs)"
| "read_lines clock (line # rest) ending fs =
     (if \<not> startswith line ''data: '' then read_lines clock rest ending fs
      else
        (let payload = py_strip (drop (length ''data: '') line) in
         if payload = ''[DONE]'' then (None, fs)
         else
           (case json_loads payload of
              None \<Rightarrow>
                if longest_run 0 payload > max_str_digits then (Some ''ValueError'', fs)
                else read_lines clock rest ending fs
            | Some event \<Rightarrow>
                (case read_frame clock event fs of
                   (Some e, fs) \<Rightarrow> (Some (exn_name e), fs)
                 | (None, fs) \<Rightarrow> read_lines clock rest ending fs))))"

text \<open>The network part: what the \<open>try\<close> block leaves, \<open>Inl\<close> the finished result of an early return
  or an exception.\<close>

definition converse :: "exchange \<Rightarrow> request_result \<Rightarrow> request_result + request_result \<times> frames" where
  "converse ex res =
     (case ex_refused ex of
        Some x \<Rightarrow> Inl (res\<lparr>rr_error := Some x\<rparr>)
      | None \<Rightarrow>
          (let res = res\<lparr>rr_status := Some (ex_status ex)\<rparr> in
           if ex_status ex \<ge> 400 then
             (let res = (case ex_read ex of
                           None \<Rightarrow> res\<lparr>rr_error := Some (''http_'' @ str_int (ex_status ex))\<rparr>
                         | Some x \<Rightarrow> res\<lparr>rr_error := Some x\<rparr>)
              in Inl (case ex_close ex of None \<Rightarrow> res | Some x \<Rightarrow> res\<lparr>rr_error := Some x\<rparr>))
           else
             (let (e, fs) = read_lines (ex_now ex) (ex_lines ex) (ex_end ex) no_frames in
              case (case ex_close ex of Some x \<Rightarrow> Some x | None \<Rightarrow> e) of
                Some x \<Rightarrow> Inl (res\<lparr>rr_error := Some x\<rparr>)
              | None \<Rightarrow> Inr (res, fs))))"

text \<open>A token count as arithmetic takes it, after \<open>or 0\<close>.\<close>

definition token_number :: "json \<Rightarrow> py_failure + int" where
  "token_number v =
     (if \<not> json_truth v then Inr 0
      else (case v of
              JInt i \<Rightarrow> Inr i
            | JBool b \<Rightarrow> Inr 1
            | JFloat f \<Rightarrow> Inl Not_modelled
            | _ \<Rightarrow> Inl (Raises TypeError)))"

definition decode_rate :: "int \<Rightarrow> real option \<Rightarrow> real option" where
  "decode_rate n decode_ms =
     (case decode_ms of
        None \<Rightarrow> None
      | Some d \<Rightarrow> if n > 1 \<and> d > 0 then Some (py_round 2 ((of_int n - 1) / (d / 1000))) else None)"

text \<open>What follows a stream that ended: \<open>Inl\<close> an exception nobody catches (a usage that is no
  object, a token count that is no number).\<close>

definition take_usage :: "frames \<Rightarrow> request_result \<Rightarrow> py_failure + request_result" where
  "take_usage fs res =
     (if \<not> json_truth (fs_usage fs) then Inr res
      else
        (case fs_usage fs of
           JObj u \<Rightarrow>
             Inr (res\<lparr>rr_usage_reported := True,
                      rr_prompt_tokens := get_default u ''prompt_tokens'' JNull,
                      rr_completion_tokens := get_default u ''completion_tokens'' JNull\<rparr>)
         | _ \<Rightarrow> Inl (Raises AttributeError)))"

definition settle :: "exchange \<Rightarrow> request_result \<Rightarrow> frames \<Rightarrow> py_failure + request_result" where
  "settle ex res fs =
     (let res = res\<lparr>rr_total_ms := Some ((ex_stop ex - ex_start ex) * 1000)\<rparr> in
      case (fs_first fs, fs_last fs) of
        (Some t_first, Some t_last) \<Rightarrow>
          bindE (take_usage fs (res\<lparr>rr_ok := True,
                                    rr_ttft_ms := Some ((t_first - ex_start ex) * 1000),
                                    rr_decode_ms := Some ((t_last - t_first) * 1000)\<rparr>)) (\<lambda>res.
          let res = (if rr_completion_tokens res = JNull
                     then res\<lparr>rr_completion_tokens := JInt (int (fs_count fs))\<rparr> else res)
          in bindE (token_number (rr_completion_tokens res)) (\<lambda>n.
               Inr (res\<lparr>rr_decode_tok_s := decode_rate n (rr_decode_ms res)\<rparr>)))
      | _ \<Rightarrow> Inr (res\<lparr>rr_error := Some ''empty_completion''\<rparr>))"

definition one_request :: "int \<Rightarrow> int \<Rightarrow> exchange \<Rightarrow> py_failure + request_result" where
  "one_request level worker ex =
     (case converse ex (new_result level worker) of
        Inl res \<Rightarrow> Inr res
      | Inr (res, fs) \<Rightarrow> settle ex res fs)"

subsection \<open>The summary of a level\<close>

record level_summary =
  ls_concurrency :: int
  ls_requests :: int
  ls_failures :: int
  ls_wall_s :: real
  ls_per_user_p50 :: "real option"
  ls_per_user_min :: "real option"
  ls_aggregate :: "real option"
  ls_ttft_p50 :: "real option"
  ls_ttft_p95 :: "real option"
  ls_completion_total :: int
  ls_prompt_total :: int
  ls_usage_reported :: bool
  ls_errors :: "(string \<times> int) list"

fun sum_tokens :: "json list \<Rightarrow> py_failure + int" where
  "sum_tokens [] = Inr 0"
| "sum_tokens (v # vs) = bindE (token_number v) (\<lambda>n. bindE (sum_tokens vs) (\<lambda>m. Inr (n + m)))"

definition error_key :: "request_result \<Rightarrow> string" where
  "error_key r = (case rr_error r of None \<Rightarrow> ''unknown'' | Some e \<Rightarrow> if e = [] then ''unknown'' else e)"

definition count_error :: "string \<Rightarrow> (string \<times> int) list \<Rightarrow> (string \<times> int) list" where
  "count_error k errors = dict_set k ((case dict_get errors k of None \<Rightarrow> 0 | Some n \<Rightarrow> n) + 1) errors"

definition count_errors :: "request_result list \<Rightarrow> (string \<times> int) list" where
  "count_errors results = foldl (\<lambda>errors r. if rr_ok r then errors else count_error (error_key r) errors) [] results"

fun somes :: "'a option list \<Rightarrow> 'a list" where
  "somes [] = []"
| "somes (x # xs) = (case x of None \<Rightarrow> somes xs | Some y \<Rightarrow> y # somes xs)"

definition summarise :: "int \<Rightarrow> real \<Rightarrow> request_result list \<Rightarrow> py_failure + level_summary" where
  "summarise level wall results =
     (let ok = filter rr_ok results;
          rates = somes (map rr_decode_tok_s ok);
          ttfts = somes (map rr_ttft_ms ok)
      in bindE (sum_tokens (map rr_completion_tokens ok)) (\<lambda>comp.
         bindE (sum_tokens (map rr_prompt_tokens ok)) (\<lambda>prompt.
           Inr \<lparr>ls_concurrency = level,
                ls_requests = int (length results),
                ls_failures = int (length results) - int (length ok),
                ls_wall_s = py_round 3 wall,
                ls_per_user_p50 = pct rates (50 / 100),
                ls_per_user_min = (if rates = [] then None else Some (py_round 2 (Min (set rates)))),
                ls_aggregate = (if wall > 0 then Some (py_round 2 (of_int comp / wall)) else None),
                ls_ttft_p50 = pct ttfts (50 / 100),
                ls_ttft_p95 = pct ttfts (95 / 100),
                ls_completion_total = comp,
                ls_prompt_total = prompt,
                ls_usage_reported = list_ex rr_usage_reported ok,
                ls_errors = count_errors results\<rparr>)))"

subsection \<open>The workers of a level\<close>

text \<open>Each worker has requests left to send; a request of some worker completes, and the next one
  of that worker starts. What is done is kept in the order of completion.\<close>

record level_state =
  lv_left :: "nat list"
  lv_done :: "(int \<times> exchange) list"

definition level_start :: "int \<Rightarrow> int \<Rightarrow> level_state" where
  "level_start level requests = \<lparr>lv_left = replicate (nat level) (nat requests), lv_done = []\<rparr>"

inductive level_step :: "level_state \<Rightarrow> level_state \<Rightarrow> bool" where
  completes: "i < length (lv_left s) \<Longrightarrow> 0 < lv_left s ! i \<Longrightarrow>
    level_step s (s\<lparr>lv_left := (lv_left s)[i := lv_left s ! i - 1], lv_done := lv_done s @ [(int i, ex)]\<rparr>)"

inductive level_reachable :: "int \<Rightarrow> int \<Rightarrow> level_state \<Rightarrow> bool" for level :: int and requests :: int where
  start: "level_reachable level requests (level_start level requests)"
| step: "level_reachable level requests s \<Longrightarrow> level_step s t \<Longrightarrow> level_reachable level requests t"

text \<open>The results of what is done, or the first exception, and the summary.\<close>

fun results_of :: "int \<Rightarrow> (int \<times> exchange) list \<Rightarrow> py_failure + request_result list" where
  "results_of level [] = Inr []"
| "results_of level ((worker, ex) # completions) =
     bindE (one_request level worker ex) (\<lambda>r. bindE (results_of level completions) (\<lambda>rs. Inr (r # rs)))"

definition run_level ::
  "int \<Rightarrow> real \<Rightarrow> (int \<times> exchange) list \<Rightarrow> py_failure + level_summary \<times> request_result list" where
  "run_level level wall completions =
     bindE (results_of level completions) (\<lambda>results.
     bindE (summarise level wall results) (\<lambda>summary. Inr (summary, results)))"

subsection \<open>The rows of the output file\<close>

definition json_of_text :: "string option \<Rightarrow> json" where
  "json_of_text v = (case v of None \<Rightarrow> JNull | Some s \<Rightarrow> JStr s)"

definition request_row :: "request_result \<Rightarrow> json" where
  "request_row r =
     JObj [(''kind'', JStr ''request''), (''level'', JInt (rr_level r)), (''worker'', JInt (rr_worker r)),
           (''ok'', JBool (rr_ok r)), (''status'', json_of_int (rr_status r)), (''error'', json_of_text (rr_error r)),
           (''ttft_ms'', json_of_real (rr_ttft_ms r)), (''decode_ms'', json_of_real (rr_decode_ms r)),
           (''total_ms'', json_of_real (rr_total_ms r)), (''prompt_tokens'', rr_prompt_tokens r),
           (''completion_tokens'', rr_completion_tokens r), (''decode_tok_s'', json_of_real (rr_decode_tok_s r)),
           (''usage_reported'', JBool (rr_usage_reported r))]"

definition errors_json :: "(string \<times> int) list \<Rightarrow> json" where
  "errors_json errors = JObj (map (\<lambda>(k, n). (k, JInt n)) errors)"

definition summary_row :: "level_summary \<Rightarrow> json" where
  "summary_row s =
     JObj [(''kind'', JStr ''level''), (''concurrency'', JInt (ls_concurrency s)), (''requests'', JInt (ls_requests s)),
           (''failures'', JInt (ls_failures s)), (''wall_s'', JFloat (Fin (ls_wall_s s))),
           (''per_user_decode_tok_s_p50'', json_of_real (ls_per_user_p50 s)),
           (''per_user_decode_tok_s_min'', json_of_real (ls_per_user_min s)),
           (''aggregate_decode_tok_s'', json_of_real (ls_aggregate s)),
           (''ttft_ms_p50'', json_of_real (ls_ttft_p50 s)), (''ttft_ms_p95'', json_of_real (ls_ttft_p95 s)),
           (''completion_tokens_total'', JInt (ls_completion_total s)),
           (''prompt_tokens_total'', JInt (ls_prompt_total s)),
           (''usage_reported_by_server'', JBool (ls_usage_reported s)), (''errors'', errors_json (ls_errors s))]"

subsection \<open>The main program\<close>

record load_args =
  la_url :: string
  la_direct :: bool
  la_api_key :: string
  la_model :: string
  la_levels :: string
  la_requests :: int
  la_ctx_tokens :: int
  la_max_tokens :: int
  la_model_len :: int
  la_unique_prefix :: bool
  la_warmup :: int
  la_settle :: real
  la_timeout :: real
  la_output :: string

definition load_arg_defaults :: load_args where
  "load_arg_defaults =
     \<lparr>la_url = ''http://127.0.0.1:8080/v1'', la_direct = False, la_api_key = [], la_model = ''Qwen/Qwen3-8B-AWQ'',
      la_levels = ''1,3,5,8'', la_requests = 4, la_ctx_tokens = 7000, la_max_tokens = 512, la_model_len = 8192,
      la_unique_prefix = False, la_warmup = 2, la_settle = 3, la_timeout = 300, la_output = ''logs/loadgen.jsonl''\<rparr>"

text \<open>What \<open>platform\<close> and the clock say, and what each level's requests met: the wall time and the
  exchanges in the order they completed. Number 0 is the warm-up.\<close>

record load_env =
  le_python :: string
  le_machine :: string
  le_platform :: string
  le_timestamp :: string
  le_wall :: "nat \<Rightarrow> real"
  le_done :: "nat \<Rightarrow> (int \<times> exchange) list"

text \<open>\<open>[int(x) for x in args.levels.split(",") if x.strip()]\<close>.\<close>

fun parse_levels :: "string list \<Rightarrow> py_exn + int list" where
  "parse_levels [] = Inr []"
| "parse_levels (x # xs) =
     (if py_strip x = [] then parse_levels xs
      else bindE (int_of_str x) (\<lambda>n. bindE (parse_levels xs) (\<lambda>ns. Inr (n # ns))))"

definition PROVENANCE :: string where
  "PROVENANCE =
     ''Rented-box figures are a PROVISIONAL baseline. A vast.ai host has '' @
     ''different CPU, PCIe topology and memory bandwidth from '' @
     ''VM.GPU.A10.1. Re-confirm on the OCI card before anyone multiplies '' @
     ''these for procurement.''"

definition load_header :: "load_args \<Rightarrow> load_env \<Rightarrow> int list \<Rightarrow> json" where
  "load_header args env levels =
     JObj [(''kind'', JStr ''header''), (''tool'', JStr ''loadgen.py''), (''target'', JStr (la_url args)),
           (''direct'', JBool (la_direct args)), (''model'', JStr (la_model args)), (''levels'', JArr (map JInt levels)),
           (''requests_per_worker'', JInt (la_requests args)), (''ctx_tokens_requested'', JInt (la_ctx_tokens args)),
           (''max_tokens'', JInt (la_max_tokens args)), (''unique_prefix'', JBool (la_unique_prefix args)),
           (''warmup'', JInt (la_warmup args)), (''python'', JStr (le_python env)), (''machine'', JStr (le_machine env)),
           (''platform'', JStr (le_platform env)), (''timestamp'', JStr (le_timestamp env)),
           (''provenance_warning'', JStr PROVENANCE)]"

definition show_number :: "(real \<Rightarrow> string) \<Rightarrow> real option \<Rightarrow> string" where
  "show_number fr v = (case v of None \<Rightarrow> ''-'' | Some x \<Rightarrow> fr x)"

definition level_lines :: "(real \<Rightarrow> string) \<Rightarrow> level_summary \<Rightarrow> string list" where
  "level_lines fr s =
     (rjust 5 (str_int (ls_concurrency s)) @ ''  '' @ rjust 15 (show_number fr (ls_per_user_p50 s)) @ ''  '' @
      rjust 7 (show_number fr (ls_per_user_min s)) @ ''  '' @ rjust 10 (show_number fr (ls_aggregate s)) @ ''  '' @
      rjust 9 (show_number fr (ls_ttft_p50 s)) @ ''  '' @ rjust 9 (show_number fr (ls_ttft_p95 s)) @ ''  '' @
      rjust 5 (str_int (ls_failures s))) #
     (if ls_errors s = [] then [] else [''         errors: '' @ py_repr fr (errors_json (ls_errors s))])"

text \<open>The levels in turn: the summaries, the rows written, and the exception that ended them.\<close>

fun run_levels ::
  "load_env \<Rightarrow> nat \<Rightarrow> int list \<Rightarrow> level_summary list \<times> json list \<times> py_failure option" where
  "run_levels env i [] = ([], [], None)"
| "run_levels env i (level # levels) =
     (case run_level level (le_wall env i) (le_done env i) of
        Inl e \<Rightarrow> ([], [], Some e)
      | Inr (summary, results) \<Rightarrow>
          (let (summaries, rows, e) = run_levels env (i + 1) levels
           in (summary # summaries, map request_row results @ [summary_row summary] @ rows, e)))"

text \<open>The lines after the last level.\<close>

definition gate_lines :: "(real \<Rightarrow> string) \<Rightarrow> load_args \<Rightarrow> level_summary list \<Rightarrow> string list" where
  "gate_lines fr args summaries =
     (case find (\<lambda>s. ls_concurrency s = 5) summaries of
        None \<Rightarrow> []
      | Some gate \<Rightarrow>
          (case ls_per_user_p50 gate of
             None \<Rightarrow> []
           | Some rate \<Rightarrow>
               [''R1 gate (>=20 tok/s/user at 5 concurrent): '' @ (if rate \<ge> 20 then ''MET'' else ''NOT MET'') @ '' ('' @
                fr rate @ '' tok/s/user, '' @ ''ctx~'' @ str_int (la_ctx_tokens args) @ '' requested)'']))"

definition load_finish :: "(real \<Rightarrow> string) \<Rightarrow> load_args \<Rightarrow> level_summary list \<Rightarrow> string list \<times> int" where
  "load_finish fr args summaries =
     (let total_failures = sum_list (map ls_failures summaries) in
      ([[], ''wrote '' @ la_output args] @ gate_lines fr args summaries @
       (if list_ex ls_usage_reported summaries then []
        else [''NOTE: the server never returned a usage frame; token counts are '' @
              ''delta-frame estimates, not server counts. Flag this when reporting.'']) @
       (if total_failures \<noteq> 0 then
          [''WARNING: '' @ str_int total_failures @ '' request(s) failed. Numbers above cover '' @
           ''successes only -- do not report them without the failure count.'']
        else []),
       if total_failures \<noteq> 0 then 1 else 0))"

definition TABLE_HEADER :: string where
  "TABLE_HEADER = rjust 5 ''conc'' @ ''  '' @ rjust 15 ''per-user tok/s'' @ ''  '' @ rjust 7 ''min'' @ ''  '' @
     rjust 10 ''aggregate'' @ ''  '' @ rjust 9 ''TTFT p50'' @ ''  '' @ rjust 9 ''TTFT p95'' @ ''  '' @ rjust 5 ''fail''"

datatype load_end = Load_exit int | Load_died py_failure

record load_run =
  lo_file :: "json list"
  lo_printed :: "string list"
  lo_errors :: "string list"
  lo_end :: load_end

definition warm_up :: "load_args \<Rightarrow> load_env \<Rightarrow> string list \<times> py_failure option" where
  "warm_up args env =
     (if la_warmup args = 0 then ([], None)
      else ([''warmup: '' @ str_int (la_warmup args) @ '' request(s), excluded from all statistics''],
            case run_level 1 (le_wall env 0) (le_done env 0) of Inl e \<Rightarrow> Some e | Inr _ \<Rightarrow> None))"

definition amain :: "(real \<Rightarrow> string) \<Rightarrow> load_args \<Rightarrow> load_env \<Rightarrow> load_run" where
  "amain fr args env =
     (case parse_levels (split_on CHR '','' (la_levels args)) of
        Inl e \<Rightarrow> \<lparr>lo_file = [], lo_printed = [], lo_errors = [], lo_end = Load_died (Raises e)\<rparr>
      | Inr levels \<Rightarrow>
          (let header = load_header args env levels; (warm_lines, died) = warm_up args env in
           case died of
             Some e \<Rightarrow> \<lparr>lo_file = [header], lo_printed = warm_lines, lo_errors = [], lo_end = Load_died e\<rparr>
           | None \<Rightarrow>
               (let (summaries, rows, e) = run_levels env 1 levels;
                    printed = warm_lines @ [[], TABLE_HEADER, replicate 76 CHR ''-''] @ concat (map (level_lines fr) summaries)
                in case e of
                     Some x \<Rightarrow> \<lparr>lo_file = header # rows, lo_printed = printed, lo_errors = [], lo_end = Load_died x\<rparr>
                   | None \<Rightarrow>
                       (let (last_lines, code) = load_finish fr args summaries
                        in \<lparr>lo_file = header # rows, lo_printed = printed @ last_lines, lo_errors = [],
                            lo_end = Load_exit code\<rparr>))))"

definition load_main :: "(real \<Rightarrow> string) \<Rightarrow> load_args \<Rightarrow> load_env \<Rightarrow> load_run" where
  "load_main fr args env =
     (if la_ctx_tokens args + la_max_tokens args > la_model_len args then
        \<lparr>lo_file = [], lo_printed = [],
         lo_errors = [''ERROR: ctx-tokens ('' @ str_int (la_ctx_tokens args) @ '') + max-tokens ('' @
           str_int (la_max_tokens args) @ '') = '' @ str_int (la_ctx_tokens args + la_max_tokens args) @ '' exceeds '' @
           ''--model-len '' @ str_int (la_model_len args) @ ''. vLLM will reject every request.''],
         lo_end = Load_exit 2\<rparr>
      else amain fr args env)"

end
