(* ===== verification/Loadgen_Laws.thy ===== *)
theory Loadgen_Laws
  imports Loadgen Stub_Laws "HOL-Library.Multiset"
begin

section \<open>What the load generator's numbers are worth\<close>

text \<open>
  The percentile, the accounting of a level under every interleaving of its workers, and a
  request as it meets the stub, directly or through the gateway's relay.
\<close>

subsection \<open>The percentile\<close>

lemma sorted_at: "sorted xs \<Longrightarrow> i \<le> j \<Longrightarrow> j < length xs \<Longrightarrow> xs ! i \<le> xs ! j"
  by (rule sorted_nth_mono)

text \<open>Between two neighbours the interpolation stays between them.\<close>

lemma interpolate_cell:
  assumes "sorted xs" and "0 \<le> pos" and "pos \<le> real (length xs - 1)" and "xs \<noteq> []"
  shows "xs ! nat \<lfloor>pos\<rfloor> \<le> interpolate xs pos"
    and "interpolate xs pos \<le> xs ! min (nat \<lfloor>pos\<rfloor> + 1) (length xs - 1)"
    and "nat \<lfloor>pos\<rfloor> \<le> length xs - 1"
proof -
  let ?lo = "nat \<lfloor>pos\<rfloor>" and ?hi = "min (nat \<lfloor>pos\<rfloor> + 1) (length xs - 1)"
  have f: "0 \<le> pos - real ?lo" "pos - real ?lo \<le> 1" using assms(2) by linarith+
  show lo: "?lo \<le> length xs - 1" using assms(2,3) by linarith
  have "?hi < length xs" "?lo \<le> ?hi" using lo assms(4) by (auto simp: min_def)
  then have le: "xs ! ?lo \<le> xs ! ?hi" using assms(1) by (intro sorted_at)
  have i: "interpolate xs pos = xs ! ?lo + (xs ! ?hi - xs ! ?lo) * (pos - real ?lo)"
    by (simp add: interpolate_def Let_def algebra_simps)
  have "0 \<le> (xs ! ?hi - xs ! ?lo) * (pos - real ?lo)" using le f by simp
  with i show "xs ! ?lo \<le> interpolate xs pos" by simp
  have "(xs ! ?hi - xs ! ?lo) * (pos - real ?lo) \<le> (xs ! ?hi - xs ! ?lo) * 1" using le f by (intro mult_left_mono) auto
  with i show "interpolate xs pos \<le> xs ! ?hi" by simp
qed

lemma interpolate_mono:
  assumes "sorted xs" and "xs \<noteq> []" and "0 \<le> p" and "p \<le> q" and "q \<le> real (length xs - 1)"
  shows "interpolate xs p \<le> interpolate xs q"
proof -
  have p: "0 \<le> p" "p \<le> real (length xs - 1)" and q: "0 \<le> q" "q \<le> real (length xs - 1)" using assms by auto
  note P = interpolate_cell [OF assms(1) p assms(2)] and Q = interpolate_cell [OF assms(1) q assms(2)]
  show ?thesis
  proof (cases "\<lfloor>p\<rfloor> = \<lfloor>q\<rfloor>")
    case True
    let ?lo = "nat \<lfloor>q\<rfloor>" and ?hi = "min (nat \<lfloor>q\<rfloor> + 1) (length xs - 1)"
    have "xs ! ?lo \<le> xs ! ?hi" using Q by simp
    then have "(xs ! ?hi - xs ! ?lo) * (p - real ?lo) \<le> (xs ! ?hi - xs ! ?lo) * (q - real ?lo)"
      using assms(4) by (intro mult_left_mono) auto
    then show ?thesis unfolding interpolate_def True Let_def by (simp add: algebra_simps)
  next
    case False
    then have "nat \<lfloor>p\<rfloor> + 1 \<le> nat \<lfloor>q\<rfloor>" using assms(3,4) floor_mono [of p q] by linarith
    then have "min (nat \<lfloor>p\<rfloor> + 1) (length xs - 1) \<le> nat \<lfloor>q\<rfloor>" by simp
    moreover have "nat \<lfloor>q\<rfloor> < length xs" using Q(3) assms(2) by (cases xs) auto
    ultimately have "xs ! min (nat \<lfloor>p\<rfloor> + 1) (length xs - 1) \<le> xs ! nat \<lfloor>q\<rfloor>"
      using assms(1) by (intro sorted_at)
    with P(2) Q(1) show ?thesis by linarith
  qed
qed

lemma interpolate_ends:
  assumes "xs \<noteq> []"
  shows "interpolate xs 0 = xs ! 0" and "interpolate xs (real (length xs - 1)) = xs ! (length xs - 1)"
  using assms by (simp_all add: interpolate_def Let_def)

lemma sort_ends:
  fixes xs :: "real list"
  assumes "xs \<noteq> []"
  shows "sort xs ! 0 = Min (set xs)" and "sort xs ! (length xs - 1) = Max (set xs)"
proof -
  have ne: "sort xs \<noteq> []" using assms by (metis length_sort length_0_conv)
  have ix: "x \<in> set xs \<Longrightarrow> \<exists>i < length xs. x = sort xs ! i" for x
    by (metis in_set_conv_nth length_sort set_sort)
  have mem: "i < length xs \<Longrightarrow> sort xs ! i \<in> set xs" for i by (metis length_sort nth_mem set_sort)
  have len: "length xs - 1 < length xs" "0 < length xs" using assms by auto
  show "sort xs ! 0 = Min (set xs)"
    using ix mem [OF len(2)] sorted_at [of "sort xs" 0] by (intro Min_eqI [symmetric]) auto
  show "sort xs ! (length xs - 1) = Max (set xs)"
    using ix mem [OF len(1)] sorted_at [of "sort xs" _ "length xs - 1"] len by (intro Max_eqI [symmetric]) fastforce+
qed

lemma pct_interpolates:
  assumes "values \<noteq> []" and "0 \<le> q" and "q \<le> 1"
  shows "pct values q = Some (py_round 2 (interpolate (sort values) (real (length values - 1) * q)))"
proof (cases "length values = 1")
  case True
  then have "length (sort values) = 1" by simp
  with True assms(1) show ?thesis by (simp add: pct_def interpolate_def Let_def)
qed (use assms in \<open>simp add: pct_def Let_def\<close>)

text \<open>The percentile is one: on measurements it always answers, no answer is below the (rounded)
  smallest measurement or above the largest, and a higher percentile is never lower, so the
  reported p95 is at least the p50 and the 0th and 100th are the extremes.\<close>

theorem percentile_ordered:
  assumes "values \<noteq> []" and "0 \<le> q" and "q \<le> r" and "r \<le> 1"
  shows "\<exists>p s. pct values q = Some p \<and> pct values r = Some s \<and> p \<le> s \<and>
     py_round 2 (Min (set values)) \<le> p \<and> s \<le> py_round 2 (Max (set values)) \<and>
     pct values 0 = Some (py_round 2 (Min (set values))) \<and> pct values 1 = Some (py_round 2 (Max (set values)))"
proof -
  let ?xs = "sort values" and ?n = "real (length values - 1)"
  have ne: "?xs \<noteq> []" using assms(1) by (metis length_sort length_0_conv)
  have nq: "0 \<le> ?n * q" "?n * q \<le> ?n * r" "?n * r \<le> real (length ?xs - 1)"
    using assms by (simp_all add: mult_left_mono mult_left_le)
  have mono: "interpolate ?xs a \<le> interpolate ?xs b" if "0 \<le> a" "a \<le> b" "b \<le> ?n" for a b
    using interpolate_mono [OF sorted_sort ne that(1,2)] that(3) by simp
  have ends: "interpolate ?xs 0 = Min (set values)" "interpolate ?xs ?n = Max (set values)"
    using interpolate_ends [OF ne] sort_ends [OF assms(1)] by simp_all
  have "Min (set values) \<le> interpolate ?xs (?n * q)" "interpolate ?xs (?n * r) \<le> Max (set values)"
    using mono [of 0 "?n * q"] mono [of "?n * r" ?n] nq ends by simp_all
  with mono [OF nq(1,2)] nq(3) show ?thesis
    using assms ends by (auto simp: pct_interpolates intro!: py_round_mono)
qed

theorem percentile_ordered_witness:
  "\<exists>p s. pct [30, 10, 20] (50 / 100) = Some p \<and> pct [30, 10, 20] (95 / 100) = Some s \<and> p \<le> s"
  using percentile_ordered [of "[30, 10, 20]" "50 / 100" "95 / 100"] by auto

subsection \<open>The accounting of a level\<close>

text \<open>What is done is what the workers no longer have to do.\<close>

definition level_inv :: "int \<Rightarrow> int \<Rightarrow> level_state \<Rightarrow> bool" where
  "level_inv level requests s \<longleftrightarrow>
     length (lv_left s) = nat level \<and>
     (\<forall>i < length (lv_left s). lv_left s ! i + length (filter (\<lambda>(w, ex). w = int i) (lv_done s)) = nat requests) \<and>
     (\<forall>(w, ex) \<in> set (lv_done s). 0 \<le> w \<and> w < int (length (lv_left s))) \<and>
     length (lv_done s) + sum_list (lv_left s) = nat level * nat requests"

lemma sum_list_decrement: "i < length xs \<Longrightarrow> 0 < xs ! i \<Longrightarrow> Suc (sum_list (xs[i := xs ! i - Suc 0])) = sum_list xs"
  by (induction xs arbitrary: i) (auto split: nat.splits simp: nth_Cons)

lemma level_step_inv: "level_step s t \<Longrightarrow> level_inv level requests s \<Longrightarrow> level_inv level requests t"
proof (induction rule: level_step.induct)
  case (completes i s ex)
  have "Suc (sum_list ((lv_left s)[i := lv_left s ! i - Suc 0])) = sum_list (lv_left s)"
    using completes by (intro sum_list_decrement)
  with completes show ?case by (auto simp: level_inv_def nth_list_update)
qed

lemma level_reachable_inv: "level_reachable level requests s \<Longrightarrow> level_inv level requests s"
proof (induction rule: level_reachable.induct)
  case start
  show ?case by (simp add: level_inv_def level_start_def sum_list_replicate)
qed (rule level_step_inv)

text \<open>A level always ends: every step takes one request off, and only a level with nothing left is
  stuck.\<close>

lemma level_step_decreases: "level_step s t \<Longrightarrow> sum_list (lv_left t) < sum_list (lv_left s)"
proof (induction rule: level_step.induct)
  case (completes i s ex)
  then have "Suc (sum_list ((lv_left s)[i := lv_left s ! i - Suc 0])) = sum_list (lv_left s)"
    by (intro sum_list_decrement)
  then show ?case by simp
qed

lemma level_stuck: "(\<nexists>t. level_step s t) \<Longrightarrow> sum_list (lv_left s) = 0"
proof (rule ccontr)
  assume stuck: "\<nexists>t. level_step s t" and "sum_list (lv_left s) \<noteq> 0"
  then obtain n where "n \<in> set (lv_left s)" "0 < n" by auto
  then obtain i where "i < length (lv_left s)" "0 < lv_left s ! i" by (metis in_set_conv_nth)
  from level_step.completes [OF this] stuck show False by blast
qed

lemma count_error_sum: "sum_list (map snd (count_error k errors)) = sum_list (map snd errors) + 1"
  by (induction errors) (auto simp: count_error_def split: if_splits)

lemma fold_errors_sum:
  "sum_list (map snd (foldl (\<lambda>errors r. if rr_ok r then errors else count_error (error_key r) errors) es rs)) =
     sum_list (map snd es) + int (length (filter (\<lambda>r. \<not> rr_ok r) rs))"
  by (induction rs arbitrary: es) (simp_all add: count_error_sum)

lemma results_length: "results_of level cs = Inr rs \<Longrightarrow> length rs = length cs"
  by (induction cs arbitrary: rs) (auto simp: bindE_Inr)

lemma ok_and_failed: "int (length rs) - int (length (filter rr_ok rs)) = int (length (filter (\<lambda>r. \<not> rr_ok r) rs))"
  using sum_length_filter_compl [of rr_ok rs] by linarith

text \<open>C39. A level accounts for every request: however the workers of a level interleave, the level can
  only stop when every worker has sent its share, and then the summary counts exactly
  \<open>level\<close> times \<open>requests\<close> requests, the failures are those that are not \<open>ok\<close>, the error counts add
  up to the failures, and each worker has exactly its share of the results. No request is lost
  or counted twice.\<close>

theorem level_accounts_for_every_request:
  assumes "level_reachable level requests s" and "\<nexists>t. level_step s t"
    and "run_level level wall (lv_done s) = Inr (summary, results)"
  shows "ls_requests summary = int (nat level * nat requests) \<and>
     ls_failures summary = int (length (filter (\<lambda>r. \<not> rr_ok r) results)) \<and>
     sum_list (map snd (ls_errors summary)) = ls_failures summary \<and>
     (\<forall>i < nat level. length (filter (\<lambda>(w, ex). w = int i) (lv_done s)) = nat requests)"
proof -
  have inv: "level_inv level requests s" using assms(1) by (rule level_reachable_inv)
  have none: "sum_list (lv_left s) = 0" using assms(2) by (rule level_stuck)
  then have zero: "i < length (lv_left s) \<Longrightarrow> lv_left s ! i = 0" for i by simp
  have r: "results_of level (lv_done s) = Inr results" "summarise level wall results = Inr summary"
    using assms(3) by (auto simp: run_level_def bindE_Inr)
  have f: "ls_requests summary = int (length results)"
    "ls_failures summary = int (length results) - int (length (filter rr_ok results))" "ls_errors summary = count_errors results"
    using r(2) by (auto simp: summarise_def Let_def bindE_Inr)
  have len: "length results = nat level * nat requests"
    using results_length [OF r(1)] inv none by (simp add: level_inv_def)
  show ?thesis
  proof (intro conjI)
    show "ls_requests summary = int (nat level * nat requests)" using f(1) len by metis
    show fails: "ls_failures summary = int (length (filter (\<lambda>r. \<not> rr_ok r) results))"
      using f(2) ok_and_failed by metis
    show "sum_list (map snd (ls_errors summary)) = ls_failures summary"
      unfolding fails f(3) by (simp add: count_errors_def fold_errors_sum)
    show "\<forall>i < nat level. length (filter (\<lambda>(w, ex). w = int i) (lv_done s)) = nat requests"
      using inv zero by (simp add: level_inv_def)
  qed
qed

definition refused_exchange :: exchange where
  "refused_exchange = \<lparr>ex_refused = Some ''ConnectError'', ex_status = 0, ex_lines = [], ex_end = None, ex_read = None,
     ex_close = None, ex_start = 0, ex_now = (\<lambda>_. 0), ex_stop = 1\<rparr>"

theorem level_accounts_for_every_request_witness:
  "\<exists>summary results. run_level 1 2 [(0, refused_exchange)] = Inr (summary, results) \<and> ls_requests summary = 1 \<and> ls_failures summary = 1"
proof -
  let ?s = "\<lparr>lv_left = [0], lv_done = [(0, refused_exchange)]\<rparr>"
  have "level_step (level_start 1 1) ?s"
    using level_step.completes [of 0 "level_start 1 1" refused_exchange] by (simp add: level_start_def)
  with level_reachable.start have reach: "level_reachable 1 1 ?s" by (rule level_reachable.step)
  have stuck: "\<nexists>t. level_step ?s t" by (auto elim!: level_step.cases)
  obtain summary results where r: "run_level 1 2 (lv_done ?s) = Inr (summary, results)" and "\<not> list_ex rr_ok results"
    by (simp add: run_level_def one_request_def converse_def refused_exchange_def new_result_def summarise_def Let_def)
  then have "results \<noteq> []" and "filter (\<lambda>r. \<not> rr_ok r) results = results"
    using results_length [of 1 "lv_done ?s" results] by (auto simp: run_level_def bindE_Inr filter_id_conv list_ex_iff)
  with level_accounts_for_every_request [OF reach stuck r] r show ?thesis
    using results_length [of 1 "lv_done ?s" results] by (auto simp: run_level_def bindE_Inr)
qed

subsection \<open>The order of completion\<close>

lemma mset_somes: "mset xs = mset ys \<Longrightarrow> mset (somes xs) = mset (somes ys)"
proof -
  have "mset (somes xs) = image_mset the (filter_mset (\<lambda>x. x \<noteq> None) (mset xs))" for xs :: "'a option list"
    by (induction xs) (auto split: option.splits)
  then show "mset xs = mset ys \<Longrightarrow> mset (somes xs) = mset (somes ys)" by metis
qed

lemma pct_mset: "mset xs = mset ys \<Longrightarrow> pct xs q = pct ys q"
proof -
  assume m: "mset xs = mset ys"
  then have "sort xs = sort ys" by (metis sorted_list_of_multiset_mset)
  with m show "pct xs q = pct ys q"
    by (simp add: pct_def Let_def) (metis length_0_conv length_sort mset_eq_length)
qed

lemma sum_tokens_Inr:
  "sum_tokens vs = Inr n \<longleftrightarrow> (\<forall>v \<in> set vs. token_number v \<in> range Inr) \<and> n = sum_list (map (\<lambda>v. projr (token_number v)) vs)"
proof (induction vs arbitrary: n)
  case (Cons v vs)
  show ?case
    by (cases "token_number v"; cases "sum_tokens vs") (use Cons in \<open>auto simp: bindE_Inr\<close>)
qed auto

lemma sum_tokens_mset: "mset xs = mset ys \<Longrightarrow> sum_tokens xs = Inr n \<Longrightarrow> sum_tokens ys = Inr n"
proof -
  assume m: "mset xs = mset ys" and "sum_tokens xs = Inr n"
  moreover have "set xs = set ys" using m by (rule mset_eq_setD)
  moreover have "sum_list (map f xs) = sum_list (map f ys)" for f :: "json \<Rightarrow> int"
    using m by (metis mset_map sum_mset_sum_list)
  ultimately show "sum_tokens ys = Inr n" by (simp add: sum_tokens_Inr)
qed

lemma get_count_errors:
  "(case dict_get (foldl (\<lambda>errors r. if rr_ok r then errors else count_error (error_key r) errors) es rs) k of None \<Rightarrow> 0 | Some n \<Rightarrow> n) =
     (case dict_get es k of None \<Rightarrow> 0 | Some n \<Rightarrow> n) + int (length (filter (\<lambda>r. \<not> rr_ok r \<and> error_key r = k) rs))"
  by (induction rs arbitrary: es) (simp_all add: count_error_def)

definition errors_count :: "level_summary \<Rightarrow> string \<Rightarrow> int" where
  "errors_count s k = (case dict_get (ls_errors s) k of None \<Rightarrow> 0 | Some n \<Rightarrow> n)"

text \<open>A level's summary does not depend on the order in which its requests completed: two runs
  with the same results in any order have the same summary, every rate, percentile, total and
  flag, up to the order in which the error counts are listed.\<close>

theorem summary_ignores_completion_order:
  assumes "mset results1 = mset results2" and "summarise level wall results1 = Inr s1"
  shows "\<exists>s2. summarise level wall results2 = Inr s2 \<and> s2 = s1\<lparr>ls_errors := ls_errors s2\<rparr> \<and>
     (\<forall>k. errors_count s2 k = errors_count s1 k)"
proof -
  let ?ok1 = "filter rr_ok results1" and ?ok2 = "filter rr_ok results2"
  have ok: "mset ?ok1 = mset ?ok2" using assms(1) by simp
  have m: "mset (map f ?ok1) = mset (map f ?ok2)" for f using ok by (metis mset_map)
  have tok: "sum_tokens (map f ?ok1) = Inr n \<Longrightarrow> sum_tokens (map f ?ok2) = Inr n" for f n
    using m by (rule sum_tokens_mset)
  have some: "mset (somes (map f ?ok1)) = mset (somes (map f ?ok2))" for f :: "request_result \<Rightarrow> real option"
    using m by (rule mset_somes)
  have pcts: "pct (somes (map f ?ok1)) q = pct (somes (map f ?ok2)) q" for f q using some by (rule pct_mset)
  have sets: "set (somes (map f ?ok1)) = set (somes (map f ?ok2))" for f :: "request_result \<Rightarrow> real option"
    using some by (rule mset_eq_setD)
  have nil: "somes (map f ?ok1) = [] \<longleftrightarrow> somes (map f ?ok2) = []" for f :: "request_result \<Rightarrow> real option"
    using sets [of f] by auto
  have lens: "length results1 = length results2" "length ?ok1 = length ?ok2"
    using assms(1) ok by (metis mset_eq_length)+
  have any: "list_ex rr_usage_reported ?ok1 = list_ex rr_usage_reported ?ok2"
    using ok by (metis list_ex_iff mset_eq_setD)
  have errs: "(case dict_get (count_errors results2) k of None \<Rightarrow> 0 | Some n \<Rightarrow> n) =
      (case dict_get (count_errors results1) k of None \<Rightarrow> 0 | Some n \<Rightarrow> n)" for k
    using assms(1) by (simp add: count_errors_def get_count_errors) (metis mset_filter size_mset)
  obtain comp prompt where t: "sum_tokens (map rr_completion_tokens ?ok1) = Inr comp"
      "sum_tokens (map rr_prompt_tokens ?ok1) = Inr prompt"
    using assms(2) by (auto simp: summarise_def Let_def bindE_Inr)
  show ?thesis
    using assms(2) t tok [OF t(1)] tok [OF t(2)] pcts sets nil lens any errs
    by (auto simp: summarise_def Let_def errors_count_def)
qed

theorem summary_ignores_completion_order_witness:
  "\<exists>s1 s2. summarise 2 1 [new_result 2 0, new_result 2 1] = Inr s1 \<and> summarise 2 1 [new_result 2 1, new_result 2 0] = Inr s2 \<and>
     s2 = s1\<lparr>ls_errors := ls_errors s2\<rparr>"
proof -
  obtain s1 where s1: "summarise 2 1 [new_result 2 0, new_result 2 1] = Inr s1"
    by (simp add: summarise_def new_result_def Let_def)
  have "mset [new_result 2 0, new_result 2 1] = mset [new_result 2 1, new_result 2 0]" by simp
  from summary_ignores_completion_order [OF this s1] s1 show ?thesis by blast
qed

end
