(* ===== verification/Loadgen_Stub.thy ===== *)
theory Loadgen_Stub
  imports Loadgen_Laws
begin

section \<open>The load generator against the stub and the gateway\<close>

text \<open>
  One measured request as its lines arrive: read from a whole stream of the stub, from one the
  gateway had to break off, and the size of the prompts it sends.
\<close>

subsection \<open>The lines of a stream\<close>

text \<open>\<open>aiter_lines\<close> of a text whose every line ends in a newline.\<close>

definition stream_lines :: "string \<Rightarrow> string list" where
  "stream_lines s = butlast (split_on CHR 0x0A s)"

lemma stream_lines_Nil [simp]: "stream_lines [] = []"
  by (simp add: stream_lines_def)

lemma stream_lines_sse: "CHR 0x0A \<notin> set t \<Longrightarrow> stream_lines (sse t @ r) = (''data: '' @ t) # [] # stream_lines r"
proof -
  assume t: "CHR 0x0A \<notin> set t"
  have "split_on CHR 0x0A ((''data: '' @ t) @ CHR 0x0A # [] @ CHR 0x0A # r) = (''data: '' @ t) # [] # split_on CHR 0x0A r"
    using t split_on_append [of "CHR 0x0A" "[]" r] by (subst split_on_append) auto
  then show ?thesis by (simp add: stream_lines_def sse_def)
qed

text \<open>One event whose payload is an object.\<close>

lemma read_event:
  assumes "CHR 0x0A \<notin> set t" and "json_loads t = Some (JObj kvs)" and "t = CHR ''{'' # u" and "last t = CHR ''}''"
  shows "read_lines clock (stream_lines (sse t @ r)) e fs =
     (case read_frame clock (JObj kvs) fs of
        (Some x, fs) \<Rightarrow> (Some (exn_name x), fs)
      | (None, fs) \<Rightarrow> read_lines clock (stream_lines r) e fs)"
proof -
  have "py_strip t = t" using assms(3,4) by (intro strip_by_id) (simp add: py_space_def)
  moreover have "t \<noteq> ''[DONE]''" using assms(3) by simp
  ultimately show ?thesis
    using assms(2) by (simp add: stream_lines_sse [OF assms(1)] startswith_def split: prod.split option.split)
qed

lemma read_printed:
  assumes "printable fr (JObj kvs)"
  shows "read_lines clock (stream_lines (sse (json_dumps fr (JObj kvs)) @ r)) e fs =
     (case read_frame clock (JObj kvs) fs of
        (Some x, fs) \<Rightarrow> (Some (exn_name x), fs)
      | (None, fs) \<Rightarrow> read_lines clock (stream_lines r) e fs)"
proof -
  obtain u where "json_dumps fr (JObj kvs) = CHR ''{'' # u" "last (CHR ''{'' # u) = CHR ''}''" using dumps_obj_shape by blast
  then show ?thesis
    using clean_no_newline [OF clean_dumps [OF assms]] loads_dumps_value [OF assms]
    by (intro read_event) simp_all
qed

lemma read_done: "read_lines clock (stream_lines (sse ''[DONE]'' @ r)) e fs = (None, fs)"
proof -
  have "CHR 0x0A \<notin> set ''[DONE]''" by simp
  then show ?thesis by (simp add: stream_lines_sse startswith_def strip_by_def py_space_def)
qed

text \<open>The frames of the stub: only those with a word count as content.\<close>

lemma read_payload:
  "read_frame clock (stream_payload cid created model delta finish) fs =
     (None, if json_truth (case dict_get delta ''content'' of None \<Rightarrow> JNull | Some v \<Rightarrow> v) then saw_content clock fs else fs)"
proof -
  have "json_truth (py_or v (JStr [])) = json_truth v" for v by (simp add: py_or_def)
  moreover have "py_or (JObj delta) (JObj []) = JObj delta" by (cases "delta = []") (simp_all add: py_or_def)
  ultimately show ?thesis
    by (simp add: read_frame_def stream_payload_def delta_content_def py_or_def)
qed

lemma read_stub_frame:
  assumes "printable fr model" and "short_int created"
    and "\<forall>(k, v) \<in> set delta. printable fr v" and "distinct (map fst delta)" and "printable fr finish"
  shows "read_lines clock (stream_lines (frame fr cid created model delta finish @ r)) e fs =
     read_lines clock (stream_lines r) e
       (if json_truth (case dict_get delta ''content'' of None \<Rightarrow> JNull | Some v \<Rightarrow> v) then saw_content clock fs else fs)"
proof -
  obtain kvs where kvs: "stream_payload cid created model delta finish = JObj kvs" by (simp add: stream_payload_def)
  have "short_int 0" by (simp add: short_int_def max_str_digits_def nat_digits.simps)
  with assms have "printable fr (JObj kvs)" unfolding kvs [symmetric] by (auto simp: stream_payload_def)
  from read_printed [OF this, of clock r e fs] show ?thesis
    using read_payload [of clock cid created model delta finish fs]
    unfolding frame_def kvs by (simp del: json_dumps.simps)
qed

lemma read_stub_words:
  assumes "printable fr model" and "short_int created"
  shows "read_lines clock (stream_lines (concat (map fst (fst (stream_words fr cid created model ws st))) @ r)) e fs =
     read_lines clock (stream_lines r) e ((saw_content clock ^^ length ws) fs)"
proof (induction ws arbitrary: st fs)
  case (Cons w ws)
  have "read_lines clock (stream_lines (frame fr cid created model [(''content'', JStr (w @ '' ''))] JNull @ q)) e fs =
      read_lines clock (stream_lines q) e (saw_content clock fs)" for q
    using assms by (subst read_stub_frame) simp_all
  with Cons.IH show ?case by (simp add: Let_def split_beta funpow_swap1)
qed simp

lemma saw_words:
  "(saw_content clock ^^ Suc n) no_frames =
     \<lparr>fs_first = Some (clock 0), fs_last = Some (clock n), fs_count = Suc n, fs_usage = JNull\<rparr>"
  by (induction n) (simp_all add: saw_content_def no_frames_def Let_def)

text \<open>A whole stream, and one that stops after some of its words.\<close>

lemma read_stub_opening:
  assumes "printable fr model" and "short_int created"
  shows "read_lines clock (stream_lines (frame fr cid created model [(''role'', JStr ''assistant''), (''content'', JStr [])] JNull @ q)) e fs =
     read_lines clock (stream_lines q) e fs"
  using assms by (subst read_stub_frame) simp_all

lemma read_stub_stream:
  assumes "printable fr model" and "short_int created" and "\<And>u. usage = Some u \<Longrightarrow> u \<noteq> [] \<and> printable fr (JObj u)"
  shows "read_lines clock (stream_lines (concat (map fst (fst (stub_stream fr cid created model text usage st))))) e fs =
     (None, (saw_content clock ^^ length (py_split text)) fs
        \<lparr>fs_usage := (case usage of None \<Rightarrow> fs_usage ((saw_content clock ^^ length (py_split text)) fs) | Some u \<Rightarrow> JObj u)\<rparr>)"
proof -
  have cl: "read_lines clock (stream_lines (frame fr cid created model [] (JStr ''stop'') @ q)) e fs =
      read_lines clock (stream_lines q) e fs" for q fs
    using assms by (subst read_stub_frame) simp_all
  have fin: "read_lines clock (stream_lines (sse (json_dumps fr (usage_payload cid created model u)) @ q)) e fs =
      read_lines clock (stream_lines q) e (fs\<lparr>fs_usage := JObj u\<rparr>)" if "usage = Some u" for u q fs
  proof -
    obtain kvs where kvs: "usage_payload cid created model u = JObj kvs" by (simp add: usage_payload_def)
    have "printable fr (JObj kvs)"
      using assms that unfolding kvs [symmetric] by (auto simp: usage_payload_def)
    moreover have "read_frame clock (JObj kvs) fs = (None, fs\<lparr>fs_usage := JObj u\<rparr>)"
      using assms(3) [OF that] unfolding kvs [symmetric] by (simp add: read_frame_def usage_payload_def py_or_def)
    ultimately show ?thesis unfolding kvs by (simp add: read_printed del: json_dumps.simps)
  qed
  show ?thesis
    using read_done [of clock "[]" e]
    by (cases usage)
      (simp_all add: stub_stream_def Let_def split_beta read_stub_opening [OF assms(1,2)] read_stub_words [OF assms(1,2)] cl fin)
qed

subsection \<open>A measured request\<close>

lemma words_acc_some: "w \<noteq> [] \<or> (\<exists>c \<in> set s. \<not> py_space c) \<Longrightarrow> words_acc w s \<noteq> []"
  by (induction w s rule: words_acc.induct) auto

lemma queued_words:
  assumes "chat_enter fr sha now raw st = (Entry_queued j, st')"
  shows "py_split (jb_text j) \<noteq> []"
proof -
  obtain body n su where t: "jb_text j = completion_text fr sha su body n"
    using assms by (auto simp: chat_enter_def Let_def split: option.splits json.splits if_splits sum.splits prod.splits)
  have "CHR ''.'' \<in> set (jb_text j)" by (simp add: t completion_text_def deterministic_text_def Let_def)
  moreover have "\<not> py_space CHR ''.''" by (simp add: py_space_def)
  ultimately show ?thesis unfolding py_split_def by (intro words_acc_some) blast
qed

lemma usage_of_job_simps:
  "usage_of_job j \<noteq> []" "get_default (usage_of_job j) ''prompt_tokens'' JNull = JInt (jb_prompt_tokens j)"
  "get_default (usage_of_job j) ''completion_tokens'' JNull = JInt (jb_completion_tokens j)"
  by (simp_all add: usage_of_job_def get_default_def)

lemma token_number_int [simp]: "token_number (JInt n) = Inr n"
  by (simp add: token_number_def)

text \<open>C38. A measurement of the stub reads what the stub did: a request whose stream arrives whole is a
  success, its completion tokens are the words the stub sent (the count of content frames, used
  when no usage was asked for, agrees with the reported one), its prompt tokens are those the
  stub counted, the first-token time is that of the first word and not of the opening frame,
  and the decode time runs from the first word to the last.\<close>

theorem loadgen_reads_the_stub:
  assumes "chat_enter fr sha now raw sv = (Entry_queued j, sw)" and "usage \<in> {None, Some (usage_of_job j)}"
    and "printable fr model" and "short_int created" and "printable fr (JObj (usage_of_job j))"
    and "ex_refused ex = None" and "ex_status ex < 400" and "ex_close ex = None"
    and "ex_lines ex = stream_lines (concat (map fst (fst (stub_stream fr cid created model (jb_text j) usage sz))))"
  shows "\<exists>r. one_request level worker ex = Inr r \<and> rr_ok r \<and> rr_error r = None \<and>
     rr_completion_tokens r = JInt (int (length (py_split (jb_text j)))) \<and>
     rr_prompt_tokens r = (if usage = None then JNull else JInt (jb_prompt_tokens j)) \<and>
     rr_usage_reported r = (usage \<noteq> None) \<and>
     rr_ttft_ms r = Some ((ex_now ex 0 - ex_start ex) * 1000) \<and>
     rr_decode_ms r = Some ((ex_now ex (length (py_split (jb_text j)) - 1) - ex_now ex 0) * 1000)"
proof -
  obtain n where n: "length (py_split (jb_text j)) = Suc n"
    using queued_words [OF assms(1)] by (cases "py_split (jb_text j)") auto
  let ?fs = "\<lparr>fs_first = Some (ex_now ex 0), fs_last = Some (ex_now ex n), fs_count = Suc n,
     fs_usage = (case usage of None \<Rightarrow> JNull | Some u \<Rightarrow> JObj u)\<rparr>"
  have u: "\<And>u. usage = Some u \<Longrightarrow> u \<noteq> [] \<and> printable fr (JObj u)"
    using assms(2,5) usage_of_job_simps(1) by auto
  have "read_lines (ex_now ex) (ex_lines ex) (ex_end ex) no_frames = (None, ?fs)"
    using read_stub_stream [OF assms(3,4) u, of usage "ex_now ex" cid "jb_text j" sz "ex_end ex" no_frames]
    by (simp add: assms(9) n saw_words del: funpow.simps split: option.splits)
  then have "converse ex (new_result level worker) = Inr (new_result level worker\<lparr>rr_status := Some (ex_status ex)\<rparr>, ?fs)"
    using assms(6-8) by (simp add: converse_def)
  then show ?thesis
    using assms(2) n queued_job(3) [OF assms(1)] usage_of_job_simps [of j]
    by (auto simp: one_request_def settle_def take_usage_def new_result_def Let_def split: option.splits)
qed

definition whole_exchange :: exchange where
  "whole_exchange = \<lparr>ex_refused = None, ex_status = 200, ex_lines =
     stream_lines (concat (map fst (fst (stub_stream (\<lambda>_. []) ''c'' 0 (JStr STUB_MODEL) (jb_text tiny_job) None new_stub)))),
     ex_end = None, ex_read = None, ex_close = None, ex_start = 0, ex_now = (\<lambda>_. 1), ex_stop = 2\<rparr>"

theorem loadgen_reads_the_stub_witness:
  "\<exists>r. one_request 1 0 whole_exchange = Inr r \<and> rr_ok r \<and> rr_completion_tokens r = JInt 1 \<and> rr_ttft_ms r = Some 1000"
proof -
  have "short_int 0" "short_int 1" "short_int 2"
    by (simp_all add: short_int_def max_str_digits_def nat_digits.simps)
  moreover have "usage_of_job tiny_job = tiny_usage" by (simp add: usage_of_job_def tiny_job_def tiny_usage_def)
  moreover have "py_split (jb_text tiny_job) = [''The.'']" by (simp add: tiny_job_def tiny_split)
  ultimately show ?thesis
    using loadgen_reads_the_stub [OF tiny_enters, of None "JStr STUB_MODEL" 0 whole_exchange "''c''" new_stub 1 0]
    by (auto simp: whole_exchange_def tiny_usage_def)
qed

subsection \<open>A stream the gateway had to break off\<close>

definition error_text :: string where
  "error_text = drop 6 (butlast (butlast (concat ERROR_FRAMES)))"

lemma error_frames: "concat ERROR_FRAMES = sse error_text"
  by (simp add: ERROR_FRAMES_def error_text_def sse_def)

lemma error_text_loads:
  "json_loads error_text = Some (JObj [(''error'', JObj [(''message'', JStr ''upstream stream failed''),
     (''type'', JStr ''upstream_stream_broken'')])])"
  unfolding error_text_def ERROR_FRAMES_def by code_simp

lemma error_text_shape:
  "CHR 0x0A \<notin> set error_text \<and> last error_text = CHR ''}'' \<and> error_text = CHR ''{'' # tl error_text"
  by (simp add: error_text_def ERROR_FRAMES_def)

lemma read_error_frames: "read_lines clock (stream_lines (concat ERROR_FRAMES)) e fs = (e, fs)"
proof -
  have "read_lines clock (stream_lines (sse error_text @ [])) e fs = (e, fs)"
    using error_text_shape
    by (subst read_event [OF _ error_text_loads]) (auto simp: read_frame_def py_or_def)
  then show ?thesis by (simp add: error_frames)
qed

text \<open>The load generator counts a stream the gateway had to break off as a success: when the upstream
  fails after at least one word, the relay ends the response normally with its error event,
  and the request that reads it is \<open>ok\<close>, has no error, and reports as its completion tokens
  the words that came before the failure. So the failure count of a level, its exit code and
  its warning do not see it.\<close>

theorem loadgen_misses_broken_streams:
  assumes "relay cfg env p m rk upstream resp st = (out, f, st')" and "rs_end resp = Some x" and "is_Exception x"
    and "concat (rs_chunks resp) =
       frame fr cid created model [(''role'', JStr ''assistant''), (''content'', JStr [])] JNull @
       concat (map fst (fst (stream_words fr cid created model (w # ws) sz)))"
    and "printable fr model" and "ascii_json fr model" and "ascii cid" and "short_int created"
    and "\<And>v. v \<in> set (w # ws) \<Longrightarrow> ascii v"
    and "ex_refused ex = None" and "ex_status ex < 400" and "ex_close ex = None" and "ex_end ex = None"
    and "ex_lines ex = stream_lines (concat out)"
  shows "\<exists>r. one_request level worker ex = Inr r \<and> rr_ok r \<and> rr_error r = None \<and>
     rr_completion_tokens r = JInt (int (length (w # ws)))"
proof -
  let ?open = "frame fr cid created model [(''role'', JStr ''assistant''), (''content'', JStr [])] JNull"
  let ?words = "concat (map fst (fst (stream_words fr cid created model (w # ws) sz)))"
  have "scan_events (?open @ q) u = scan_events q u" for q u
    by (intro scan_frame [OF assms(5-8)]) auto
  moreover have "scan_events (?words @ []) u = scan_events [] u" for u
    using assms(9) by (intro scan_words [OF assms(5-8)])
  ultimately have "scan_all (rs_chunks resp) = Scanning [] []"
    by (simp only: scan_all_concat assms(4) append_Nil2) (simp add: scan_none)
  with relay_output [OF assms(1)] assms(2,3) have out: "concat out = ?open @ ?words @ concat ERROR_FRAMES"
    by (simp add: assms(4))
  let ?fs = "\<lparr>fs_first = Some (ex_now ex 0), fs_last = Some (ex_now ex (length ws)), fs_count = Suc (length ws), fs_usage = JNull\<rparr>"
  have "read_lines (ex_now ex) (ex_lines ex) (ex_end ex) no_frames = (None, ?fs)"
    unfolding assms(14) out assms(13)
    by (simp only: read_stub_opening [OF assms(5,8)] read_stub_words [OF assms(5,8)] read_error_frames list.size add_Suc_right
        add_0_right saw_words)
  then have "converse ex (new_result level worker) = Inr (new_result level worker\<lparr>rr_status := Some (ex_status ex)\<rparr>, ?fs)"
    using assms(10-12) by (simp add: converse_def)
  then show ?thesis
    by (simp add: one_request_def settle_def take_usage_def new_result_def)
qed

definition broken_response :: response where
  "broken_response = demo_response\<lparr>rs_chunks :=
     [frame (\<lambda>_. []) ''c'' 0 (JStr STUB_MODEL) [(''role'', JStr ''assistant''), (''content'', JStr [])] JNull,
      concat (map fst (fst (stream_words (\<lambda>_. []) ''c'' 0 (JStr STUB_MODEL) [''The''] new_stub)))], rs_end := Some ValueError\<rparr>"

theorem loadgen_misses_broken_streams_witness:
  "\<exists>out f st' r. relay default_settings (quiet_env (Answer demo_response)) demo_principal JNull None ''a'' broken_response demo_gateway
      = (out, f, st') \<and>
     one_request 1 0 (whole_exchange\<lparr>ex_lines := stream_lines (concat out)\<rparr>) = Inr r \<and> rr_ok r \<and> rr_error r = None"
proof -
  obtain out f st' where r: "relay default_settings (quiet_env (Answer demo_response)) demo_principal JNull None ''a'' broken_response demo_gateway
      = (out, f, st')" by (metis prod_cases3)
  have "short_int 0" by (simp add: short_int_def max_str_digits_def nat_digits.simps)
  then show ?thesis
    using loadgen_misses_broken_streams [OF r, of ValueError "\<lambda>_. []" "''c''" 0 "JStr STUB_MODEL" "''The''" "[]" new_stub
        "whole_exchange\<lparr>ex_lines := stream_lines (concat out)\<rparr>" 1 0] r
    by (fastforce simp: broken_response_def demo_response_def is_Exception_def STUB_MODEL_def whole_exchange_def)
qed

subsection \<open>The size of the prompts\<close>

lemma words_acc_join:
  "words_acc [] (py_join '' '' ws) = ws" if "\<And>w. w \<in> set ws \<Longrightarrow> w \<noteq> [] \<and> (\<forall>c \<in> set w. \<not> py_space c)"
proof -
  have run: "words_acc a (w @ r) = words_acc (rev w @ a) r" if "\<forall>c \<in> set w. \<not> py_space c" for a w r
    using that by (induction w arbitrary: a) auto
  show ?thesis
    using that
  proof (induction "'' ''" ws rule: py_join.induct)
    case (2 w)
    then show ?case using run [of w "[]" "[]"] by simp
  next
    case (3 w v ws)
    have w: "w \<noteq> []" "\<forall>c \<in> set w. \<not> py_space c" using 3(2) by auto
    have "words_acc [] (py_join '' '' (v # ws)) = v # ws" using 3 by auto
    with run [OF w(2), of "[]" "'' '' @ py_join '' '' (v # ws)"] w(1) show ?case
      by (simp add: py_space_def)
  qed simp
qed

lemma split_join: "(\<And>w. w \<in> set ws \<Longrightarrow> w \<noteq> [] \<and> (\<forall>c \<in> set w. \<not> py_space c)) \<Longrightarrow> py_split (py_join '' '' ws) = ws"
  unfolding py_split_def by (rule words_acc_join)

lemma stub_word_plain: "word_at digest i \<noteq> [] \<and> (\<forall>c \<in> set (word_at digest i). \<not> py_space c)"
proof -
  have "\<forall>w \<in> set STUB_WORDS. w \<noteq> [] \<and> (\<forall>c \<in> set w. \<not> py_space c)"
    by (simp add: STUB_WORDS_def py_space_def)
  then show ?thesis using word_at_in by blast
qed

lemma filler_length: "length (py_split (filler sha n seed)) = nat (max 1 n)"
proof -
  have "py_split (filler sha n seed) = map (word_at (sha (case seed of None \<Rightarrow> ''shared-prefix'' | Some s \<Rightarrow> if s = [] then ''shared-prefix'' else s)))
      [0..<nat (max 1 n)]"
    unfolding filler_def Let_def using stub_word_plain by (intro split_join) auto
  then show ?thesis by simp
qed

lemma question_length:
  assumes "nonce \<noteq> []" and "\<forall>c \<in> set nonce. \<not> py_space c"
  shows "length (py_split (''Summarise position '' @ nonce @ '' in one paragraph.'')) = 6"
proof -
  define ws where "ws = [''Summarise'', ''position'', nonce, ''in'', ''one'', ''paragraph.'']"
  have "py_join '' '' ws = ''Summarise position '' @ nonce @ '' in one paragraph.''"
    by (simp add: ws_def)
  moreover have "py_split (py_join '' '' ws) = ws"
    using assms by (intro split_join) (auto simp: py_space_def ws_def)
  ultimately have "py_split (''Summarise position '' @ nonce @ '' in one paragraph.'') = ws" by (simp only:)
  then show ?thesis by (simp only:) (simp add: ws_def)
qed

text \<open>The prompts have the size that was asked for: whatever the nonce and the digest, with a shared
  prefix or a unique one, both the stub's count and the gateway's estimate of a generated prompt
  are three quarters of \<open>--ctx-tokens\<close>, rounded down and at least one word, plus the six
  words of the question, so at the default of 7000 the gateway's limit on prompts is never met.\<close>

theorem prompt_has_the_asked_size:
  assumes "nonce \<noteq> []" and "\<forall>c \<in> set nonce. \<not> py_space c" and "0 \<le> ctx_tokens"
    and "shared = filler sha (filler_words ctx_tokens) None"
  shows "prompt_words fr (JArr (build_prompt sha nonce shared ctx_tokens unique)) = Inr (max 1 (ctx_tokens * 3 div 4) + 6) \<and>
     estimate_prompt_tokens fr (build_prompt sha nonce shared ctx_tokens unique) = Inr (max 1 (ctx_tokens * 3 div 4) + 6)"
proof -
  have "\<lfloor>real_of_int ctx_tokens * (3 / 4)\<rfloor> = ctx_tokens * 3 div 4"
    using floor_divide_of_int_eq [of "ctx_tokens * 3" 4, where 'a = real] by simp
  then have "filler_words ctx_tokens = ctx_tokens * 3 div 4" using assms(3) by (simp add: filler_words_def)
  then have "int (length (py_split (filler sha (filler_words ctx_tokens) seed))) = max 1 (ctx_tokens * 3 div 4)" for seed
    by (simp add: filler_length)
  with question_length [OF assms(1,2)] show ?thesis
    by (auto simp: prompt_words_def build_prompt_def get_default_def assms(4) Let_def simp del: append.simps)
qed

theorem prompt_has_the_asked_size_witness:
  "prompt_words (\<lambda>_. []) (JArr (build_prompt (\<lambda>_. [0]) ''n'' (filler (\<lambda>_. [0]) (filler_words 7000) None) 7000 False)) = Inr 5256"
  using prompt_has_the_asked_size [of "''n''" 7000 _ "\<lambda>_. [0]" "\<lambda>_. []" False] by (simp add: py_space_def)

end
