(* ===== verification/Spec2Isabelle.thy ===== *)
theory Spec2Isabelle
  imports Rotation Audit_Laws Ledger_Laws Content_Laws Timestamps Key_File Stub_Retry B3_Laws Loadgen_Stub
begin

text \<open>
  \<^bold>\<open>The program.\<close> A FastAPI gateway (src/gateway/) in front of one or more vLLM replicas: it
  authenticates a caller (API key or JWT), validates and clamps a chat request, admits it against
  the key's token budget and concurrency cap, forwards it to a replica chosen by a round robin
  over circuit breakers, retries once, relays the answer or the stream, charges the tokens and
  writes an audit record. Two background loops probe open replicas and scrape the replicas'
  metrics for a wedged engine. Beside it stand a stub of vLLM (src/stub/server.py) and two
  measuring scripts (src/scripts/), which are clients of the gateway. The package has no other
  implementation code.

  \<^bold>\<open>How it is modelled.\<close> A Python object with state is a record, a method a function from the state
  to the state and its answer, an exception the left side of a sum (\<open>py_exn\<close>; \<open>py_failure\<close> adds
  the cases outside the model), a clock reading an argument. A handler that awaits is split at
  its awaits; what other tasks do meanwhile is a function of the environment record, constrained
  by hypotheses named in the theorem that needs them. Interleavings of whole requests are step
  relations (\<open>quota_admit\<close> and \<open>quota_finish\<close>, \<open>breaker_trans\<close>, \<open>stub_step\<close>, \<open>level_step\<close>, and
  \<open>process_step\<close> for the whole process) with their reachable states. Third-party code is a parameter: the network's answers (httpx),
  PyJWT's decode, argon2's verify, SHA-256, \<open>repr\<close> of a float, prometheus_client's parser.

  \<^bold>\<open>The theories\<close>, in the order of their imports:
  \<^item> Gw_Prelude, Py_Json, Json_Out: Python's texts, dictionaries and exceptions; \<open>json.loads\<close>,
    \<open>int\<close>, \<open>float\<close>, \<open>str\<close> and \<open>repr\<close> on what a body may hold; \<open>json.dumps\<close> in any
    layout (quoting, white space), with the lemma \<open>loads_text\<close> that what is printed is read back. The prelude holds the locales
    \<open>invariant_machine\<close> (a step that keeps an invariant: interpreted by the key store and the
    wedge detector) and \<open>chunk_scanner\<close> (a scanner fed in pieces: the relay's). The other
    interfaces are \<open>replica_gate\<close> (what the client needs of a breaker), \<open>slot_ledger\<close> (what the
    handler needs of the quotas), \<open>gateway_invariant\<close> (what a claim on the shared state needs
    to survive a request) and \<open>credential_check\<close>, \<open>bearer_auth\<close> (what the dispatch needs
    of a verifier), each interpreted on the code's own definitions.
  \<^item> Config (gateway/config.py): the settings from the environment and their defaults.
  \<^item> Breaker (gateway/upstream/breaker.py): the state machine of one replica, its invariant under
    every sequence of operations, what trips it and what closes it; the registry.
  \<^item> Quota (gateway/quota.py): budget and slots, and the ledger of concurrent requests that the
    tracker implements.
  \<^item> Gw_Metrics (gateway/metrics.py), Audit_Log (gateway/audit.py): counters, label folding and the
    ASGI middleware; the audit record, its line of JSON and the file, which reads back.
  \<^item> Scraper (gateway/upstream/metrics_scraper.py): parsing, the wedge detector, the poller.
  \<^item> Client (gateway/upstream/client.py): the pool, routing, classification, the retry loop, probes.
  \<^item> Keys, Auth (gateway/auth/): minting, storing and verifying keys; JWT verification; the
    authentication dependency. Key_File: the text \<open>save\<close> writes, ASCII escapes and indentation
    included, and that \<open>reload\<close> reads it back.
  \<^item> Chat, Chat_Laws, Relay_Laws (gateway/routes/chat.py): the handler from raw bytes to response,
    the relay of a stream, and what both promise.
  \<^item> Routes, Background (gateway/routes/, gateway/main.py): the operational routes; one pass of each
    background loop, and the iterations of the prober's (\<open>prober_run\<close>) with what the other tasks
    do to the registry in between.
  \<^item> Gateway: authentication, handler, client, breaker, quota, metrics and audit composed
    (\<open>serve_chat\<close>), and the properties that span them. Content_Laws: two runs on different contents,
    related step by step through send, retry, handler and relay.
  \<^item> App (gateway/main.py): the start and the stop of the process and the table of routes with their
    dependencies (\<open>serve_app\<close>).
  \<^item> Served_App: a request from the ASGI call to the last byte (\<open>serve_http\<close>): the metrics middleware
    around a route and the relay of its stream; what is counted, and that no slot is kept.
  \<^item> Audit_Laws: what an exchange leaves in the audit log, on every path: one record for each request
    that is answered.
  \<^item> Ledger_Laws: the application as a refinement of the slot ledger of Quota, answered and streamed
    requests alike; Timestamps: \<open>AuditLog.now\<close>, whose texts sort as the times do.
  \<^item> Gateway_Invariant: the locale \<open>gateway_invariant\<close>; a predicate on the shared state that each
    elementary step keeps is kept by the client, the handler and the relay. Its interpretations
    are \<open>tally\<close> (Served_App: a request touches no middleware counter), \<open>sound\<close> (Process) and
    \<open>away\<close> (Rotation).
  \<^item> Process (gateway/main.py): start, requests, passes of the background tasks and stop in any order;
    the invariant of every reachable state, and the vocabulary of the metric labels.
  \<^item> Rotation: the breaker's states in a linear order, and that a request never moves one towards
    closed.
  \<^item> Stub, Stub_Laws (src/stub/server.py): the stub's endpoints and stream; its gauges under every
    interleaving, cancellations included; its stream read by the gateway's relay.
  \<^item> Stub_Retry: the gateway's client with the stub behind it; what the retry makes of a stub that
    fails its first requests.
  \<^item> Script_Base, B3_Probe, B3_Laws (src/scripts/b3_probe.py): the stripping of reasoning blocks, the
    probe matrix, the report and the exit code; the stripper against the stub, the probe's bodies
    through the gateway.
  \<^item> Loadgen, Loadgen_Laws, Loadgen_Stub (src/scripts/loadgen.py): a timed streamed request, the
    workers of a level, the summary and the gate; the accounting of a level, and a request
    against the stub, whole and broken off by the gateway.

  \<^bold>\<open>What the lemmas show.\<close> Safety of the front door (nobody is served without a genuine credential,
  nothing but a validated body is sent; of the contents of requests and answers nothing but statuses
  and token counts reaches log, metrics or state);
  conservation of slots and tokens on every path, and the refinement of the slot ledger by the
  whole application; the breaker's invariant and what its transitions need; at most two attempts per
  request; recovery of a replica within a bounded time of the prober's loop; transparency of the relay and its
  independence of chunking; one audit record for each answered request, and label values from a
  fixed vocabulary; round trips of the key file, of JSON and of the audit file; exact
  counts end to end from the stub through the relay to the charge, and to the load generator's
  report. Theorems that show a defect of the code say so, and the manifest lists them.

  \<^bold>\<open>Bounds, fuel and termination.\<close> \<open>json_loads\<close> runs its scanner with twice the length of the text
  plus two as fuel, and \<open>json_fuel_enough\<close> shows that more fuel never changes an answer. The retry loop ends by a
  measure on the attempts left (\<open>MAX_ATTEMPTS\<close> is 2), the calendar by the days left, the event scanner and the stripper by the
  length of what is left, a level by the number of requests left. Nothing else needs fuel.
  Python's limit of 4300 digits for the conversion of an integer is in the model; the limit on
  recursion is not.

  \<^bold>\<open>Not modelled.\<close> Floats are reals: rounding of binary arithmetic is not modelled (\<open>round\<close> is).
  Token counts that are floats are the value \<open>Not_modelled\<close>. Texts are UTF-8 bytes, and white
  space outside ASCII is not recognised. Log lines other than those of start and stop, the
  exposition text prometheus_client prints, argparse, uvicorn and the file system are left out, as
  are the framework's answers to unknown routes (a parameter), the queueing inside anyio's thread
  limiter, and the scheduling of the background tasks. The tests, the deployment and shell scripts, the documents and the recorded results are not part of the program.
\<close>

end
